theory Spec2Isabelle
  imports Complex_Main "HOL-Library.AList" "HOL-Library.List_Lexorder" "HOL-Library.Word"
begin

unbundle bit_operations_syntax

section \<open>The data of the virtual machine (vm.cpp and the headers it includes)\<close>

text \<open>
  This theory embeds the tree-walking evaluator of \<^verbatim>\<open>src/core/vm.cpp\<close>: the evaluation
  stack, the prototype-object functions, the driver \<^verbatim>\<open>Interpreter::evaluate\<close> and the
  manifester. The types of \<^verbatim>\<open>state.h\<close>, \<^verbatim>\<open>ast.h\<close> and \<^verbatim>\<open>vm.h\<close> are written
  from the way vm.cpp uses them.

  Conventions.
  \<^item> \<^verbatim>\<open>String\<close> is a UTF-32 string: a list of code points. \<^verbatim>\<open>std::string\<close> is \<open>string\<close>.
  \<^item> An \<^verbatim>\<open>Identifier*\<close> is interned, so pointer equality is equality of names: an
    identifier is its name.
  \<^item> \<^verbatim>\<open>unsigned\<close> counters (call count, super offset, leaf counter, cursor) are \<open>nat\<close>;
    \<^verbatim>\<open>long\<close> is \<open>64 word\<close>.
  \<^item> A \<^verbatim>\<open>std::map\<close> is an association list with distinct keys, written with
    \<open>map_of\<close> and \<open>AList.update\<close>.
  \<^item> Heap objects, closures, arrays and strings never change after they are built, so a
    pointer to one is the value itself; an object carries the address it was allocated
    at, and pointer equality of objects is equality of addresses. Thunks change (they
    are filled), so a \<^verbatim>\<open>HeapThunk*\<close> is an index into the heap's thunk table.
  \<^item> The garbage collector frees only what is unreachable; it is not modelled.
\<close>

type_synonym char32 = nat
type_synonym String = "char32 list"
type_synonym Identifier = String

definition U :: "string \<Rightarrow> String" where
  "U s = map of_char s"

datatype LocationRange = LocationRange (loc_file: string) (loc_span: "(nat \<times> nat) \<times> (nat \<times> nat)")

definition LocationRange_msg :: "string \<Rightarrow> LocationRange" where
  "LocationRange_msg msg = LocationRange msg ((0, 0), (0, 0))"

text \<open>
  A double is NaN, an infinity or a finite number. Comparison and negation are exact in
  IEEE 754 and are defined here (negative zero is identified with zero); the rounding
  operations are parameters of the model (record \<open>Native\<close> below).
\<close>

datatype double = Finite rat | PosInf | NegInf | NaN

definition isnan :: "double \<Rightarrow> bool" where
  "isnan v = (v = NaN)"

definition isinf :: "double \<Rightarrow> bool" where
  "isinf v = (v = PosInf \<or> v = NegInf)"

fun double_eq :: "double \<Rightarrow> double \<Rightarrow> bool" where
  "double_eq NaN _ = False"
| "double_eq _ NaN = False"
| "double_eq a b = (a = b)"

fun double_less :: "double \<Rightarrow> double \<Rightarrow> bool" where
  "double_less NaN _ = False"
| "double_less _ NaN = False"
| "double_less (Finite x) (Finite y) = (x < y)"
| "double_less PosInf _ = False"
| "double_less _ PosInf = True"
| "double_less _ NegInf = False"
| "double_less NegInf _ = True"

definition double_le :: "double \<Rightarrow> double \<Rightarrow> bool" where
  "double_le a b = (double_less a b \<or> double_eq a b)"

fun double_neg :: "double \<Rightarrow> double" where
  "double_neg (Finite x) = Finite (- x)"
| "double_neg PosInf = NegInf"
| "double_neg NegInf = PosInf"
| "double_neg NaN = NaN"

datatype Hide = HIDDEN | INHERIT | VISIBLE

datatype BinaryOp =
    BOP_MULT | BOP_DIV | BOP_PLUS | BOP_MINUS | BOP_SHIFT_L | BOP_SHIFT_R
  | BOP_GREATER | BOP_GREATER_EQ | BOP_LESS | BOP_LESS_EQ
  | BOP_MANIFEST_EQUAL | BOP_MANIFEST_UNEQUAL
  | BOP_BITWISE_AND | BOP_BITWISE_XOR | BOP_BITWISE_OR | BOP_AND | BOP_OR

datatype UnaryOp = UOP_NOT | UOP_BITWISE_NOT | UOP_PLUS | UOP_MINUS

text \<open>
  The core AST. Every node has a location and the free variables the static analysis
  wrote on it. \<open>OtherAST\<close> stands for every node type the desugarer removes.
\<close>

datatype AST = AST (ast_location: LocationRange) (freeVariables: "Identifier list") (node: Expr)
and Expr =
    Apply AST "AST list" bool
  | Array "AST list"
  | Binary AST BinaryOp AST
  | BuiltinFunction nat "Identifier list"
  | Conditional AST AST AST
  | Error AST
  | Function "Identifier list" AST
  | Import String
  | Importstr String
  | Index AST AST
  | Local "(Identifier \<times> AST) list" AST
  | LiteralBoolean bool
  | LiteralNumber double
  | LiteralString String
  | LiteralNull
  | DesugaredObject "AST list" "(Hide \<times> AST \<times> AST) list"
  | ObjectComprehensionSimple AST AST Identifier AST
  | Self
  | SuperIndex AST
  | Unary UnaryOp AST
  | Var Identifier
  | OtherAST

type_synonym thunk_ref = nat
type_synonym BindingFrame = "(Identifier \<times> thunk_ref) list"

text \<open>
  A value of \<open>HeapObject\<close> is a \<^verbatim>\<open>HeapObject*\<close>: \<open>Nullptr\<close>, or one of the three
  classes with its address first. The fields of a simple object map a name to
  \<open>(hide, body)\<close>.
\<close>

datatype HeapObject =
    Nullptr
  | HeapSimpleObject nat BindingFrame "(Identifier \<times> Hide \<times> AST) list" "AST list"
  | HeapComprehensionObject nat BindingFrame AST Identifier BindingFrame
  | HeapExtendedObject nat HeapObject HeapObject

fun address :: "HeapObject \<Rightarrow> nat option" where
  "address Nullptr = None"
| "address (HeapSimpleObject a _ _ _) = Some a"
| "address (HeapComprehensionObject a _ _ _ _) = Some a"
| "address (HeapExtendedObject a _ _) = Some a"

definition same_object :: "HeapObject \<Rightarrow> HeapObject \<Rightarrow> bool" where
  "same_object a b = (address a = address b)"

datatype HeapClosure = HeapClosure
  (cl_upValues: BindingFrame) (cl_self: HeapObject) (cl_offset: nat)
  (params: "Identifier list") (cl_body: "AST option") (builtin: nat)

datatype Value =
    NULL_TYPE
  | BOOLEAN bool
  | DOUBLE double
  | STRING String
  | ARRAY "thunk_ref list"
  | OBJECT HeapObject
  | FUNCTION HeapClosure

datatype Type = T_ARRAY | T_BOOLEAN | T_DOUBLE | T_FUNCTION | T_NULL_TYPE | T_OBJECT | T_STRING

fun type_of :: "Value \<Rightarrow> Type" where
  "type_of NULL_TYPE = T_NULL_TYPE"
| "type_of (BOOLEAN _) = T_BOOLEAN"
| "type_of (DOUBLE _) = T_DOUBLE"
| "type_of (STRING _) = T_STRING"
| "type_of (ARRAY _) = T_ARRAY"
| "type_of (OBJECT _) = T_OBJECT"
| "type_of (FUNCTION _) = T_FUNCTION"

record HeapThunk =
  th_name :: Identifier
  th_self :: HeapObject
  th_offset :: nat
  th_body :: "AST option"
  th_upValues :: BindingFrame
  filled :: bool
  content :: Value

definition new_thunk :: "Identifier \<Rightarrow> HeapObject \<Rightarrow> nat \<Rightarrow> AST option \<Rightarrow> HeapThunk" where
  "new_thunk name self offset body =
     \<lparr>th_name = name, th_self = self, th_offset = offset, th_body = body,
      th_upValues = [], filled = False, content = NULL_TYPE\<rparr>"

text \<open>
  Modelled from the spec: \<^verbatim>\<open>HeapThunk::fill\<close> is declared in state.h, which is not among
  the sources. Section 4.3: "the scratch is copied into the thunk's slot and filled is
  set".
\<close>

definition fill :: "Value \<Rightarrow> HeapThunk \<Rightarrow> HeapThunk" where
  "fill v th = th\<lparr>content := v, filled := True\<rparr>"

datatype HeapEntity =
    NoEntity
  | ThunkEntity thunk_ref
  | ClosureEntity HeapClosure
  | ObjectEntity HeapObject

datatype error =
    RuntimeError LocationRange string
  | StaticError string
  | Abort string
  | Undefined string

text \<open>
  \<open>RuntimeError loc msg\<close> is what \<^verbatim>\<open>makeError(loc, msg)\<close> throws; the trace it also
  carries (one entry per CALL frame) is not modelled. \<open>Abort\<close> is \<^verbatim>\<open>std::abort()\<close>
  after an internal error, \<open>Undefined\<close> is undefined behaviour of C++ (an index out of
  range, a wrong downcast), \<open>StaticError\<close> an exception of the lexer, parser or
  analyser.
\<close>

section \<open>Stack frames and the stack\<close>

datatype FrameKind =
    FRAME_APPLY_TARGET
  | FRAME_BINARY_LEFT
  | FRAME_BINARY_RIGHT
  | FRAME_BUILTIN_FILTER
  | FRAME_BUILTIN_FORCE_THUNKS
  | FRAME_CALL
  | FRAME_ERROR
  | FRAME_IF
  | FRAME_INDEX_TARGET
  | FRAME_INDEX_INDEX
  | FRAME_INVARIANTS
  | FRAME_LOCAL
  | FRAME_OBJECT
  | FRAME_OBJECT_COMP_ARRAY
  | FRAME_OBJECT_COMP_ELEMENT
  | FRAME_STRING_CONCAT
  | FRAME_SUPER_INDEX
  | FRAME_UNARY

record Frame =
  kind :: FrameKind
  ast :: "AST option"
  location :: LocationRange
  tailCall :: bool
  val :: Value
  val2 :: Value
  fit :: nat
  frame_objectFields :: "(Identifier \<times> Hide \<times> AST) list"
  elementId :: nat
  elements :: BindingFrame
  thunks :: "thunk_ref list"
  frame_context :: HeapEntity
  self :: HeapObject
  offset :: nat
  bindings :: BindingFrame

definition Frame_ast :: "FrameKind \<Rightarrow> AST \<Rightarrow> Frame" where
  "Frame_ast k a =
     \<lparr>kind = k, ast = Some a, location = ast_location a, tailCall = False,
      val = NULL_TYPE, val2 = NULL_TYPE, fit = 0, frame_objectFields = [], elementId = 0,
      elements = [], thunks = [], frame_context = NoEntity, self = Nullptr, offset = 0,
      bindings = []\<rparr>"

definition Frame_loc :: "FrameKind \<Rightarrow> LocationRange \<Rightarrow> Frame" where
  "Frame_loc k loc =
     \<lparr>kind = k, ast = None, location = loc, tailCall = False,
      val = NULL_TYPE, val2 = NULL_TYPE, fit = 0, frame_objectFields = [], elementId = 0,
      elements = [], thunks = [], frame_context = NoEntity, self = Nullptr, offset = 0,
      bindings = []\<rparr>"

definition isCall :: "Frame \<Rightarrow> bool" where
  "isCall f = (kind f = FRAME_CALL)"

text \<open>
  The stack. The list \<open>stack\<close> holds the frames with the top frame first: the head of
  the list is \<^verbatim>\<open>stack.back()\<close>, and the loops of the source that run from
  \<^verbatim>\<open>stack.size()-1\<close> down to 0 run through the list from its head.

  \<open>low_water\<close> is a history variable that the source does not have and that no
  definition reads: every removal of frames lowers it to the new size when that is
  smaller. It records how far down the stack has been popped.
\<close>

record Stack =
  calls :: nat
  limit :: nat
  stack :: "Frame list"
  low_water :: nat

definition Stack_new :: "nat \<Rightarrow> Stack" where
  "Stack_new n = \<lparr>calls = 0, limit = n, stack = [], low_water = 0\<rparr>"

definition stack_size :: "Stack \<Rightarrow> nat" where
  "stack_size S = length (stack S)"

fun lookUpVar_frames :: "Identifier \<Rightarrow> Frame list \<Rightarrow> thunk_ref option" where
  "lookUpVar_frames ident [] = None"
| "lookUpVar_frames ident (f # fs) =
     (case map_of (bindings f) ident of
        Some th \<Rightarrow> Some th
      | None \<Rightarrow> if isCall f then None else lookUpVar_frames ident fs)"

definition lookUpVar :: "Identifier \<Rightarrow> Stack \<Rightarrow> thunk_ref option" where
  "lookUpVar ident S = lookUpVar_frames ident (stack S)"

text \<open>\<^verbatim>\<open>Stack::pop\<close>. Popping an empty stack is undefined in the source; here it does nothing.\<close>

definition pop :: "Stack \<Rightarrow> Stack" where
  "pop S =
     (case stack S of
        [] \<Rightarrow> S
      | f # fs \<Rightarrow>
          S\<lparr>calls := (if isCall f then calls S - 1 else calls S),
            stack := fs,
            low_water := min (low_water S) (length fs)\<rparr>)"

definition newFrame :: "Frame \<Rightarrow> Stack \<Rightarrow> Stack" where
  "newFrame f S = S\<lparr>stack := f # stack S\<rparr>"

text \<open>
  \<^verbatim>\<open>tailCallTrimStack\<close>: the loop over the frames from the top. \<open>trim_scan\<close> returns the
  frames that stay when the loop removes some, and \<open>None\<close> when it returns without
  removing any.
\<close>

fun trim_scan :: "Frame list \<Rightarrow> Frame list option" where
  "trim_scan [] = None"
| "trim_scan (f # fs) =
     (case kind f of
        FRAME_CALL \<Rightarrow> if \<not> tailCall f \<or> length (thunks f) > 0 then None else Some fs
      | FRAME_LOCAL \<Rightarrow> trim_scan fs
      | _ \<Rightarrow> None)"

definition tailCallTrimStack :: "Stack \<Rightarrow> Stack" where
  "tailCallTrimStack S =
     (case trim_scan (stack S) of
        None \<Rightarrow> S
      | Some fs \<Rightarrow>
          S\<lparr>calls := calls S - 1, stack := fs,
            low_water := min (low_water S) (length fs)\<rparr>)"

definition call_frame ::
  "LocationRange \<Rightarrow> HeapEntity \<Rightarrow> HeapObject \<Rightarrow> nat \<Rightarrow> BindingFrame \<Rightarrow> Frame" where
  "call_frame loc ctx slf off up_values =
     (Frame_loc FRAME_CALL loc)
       \<lparr>frame_context := ctx, self := slf, offset := off, bindings := up_values,
        tailCall := False\<rparr>"

definition newCall ::
  "LocationRange \<Rightarrow> HeapEntity \<Rightarrow> HeapObject \<Rightarrow> nat \<Rightarrow> BindingFrame \<Rightarrow> Stack \<Rightarrow> error + Stack" where
  "newCall loc ctx slf off up_values S =
     (let S1 = tailCallTrimStack S in
      if calls S1 \<ge> limit S1 then Inl (RuntimeError loc ''Max stack frames exceeded.'')
      else Inr (S1\<lparr>stack := call_frame loc ctx slf off up_values # stack S1,
                   calls := calls S1 + 1\<rparr>))"

fun getSelfBinding_frames :: "Frame list \<Rightarrow> HeapObject \<times> nat" where
  "getSelfBinding_frames [] = (Nullptr, 0)"
| "getSelfBinding_frames (f # fs) =
     (if isCall f then (self f, offset f) else getSelfBinding_frames fs)"

definition getSelfBinding :: "Stack \<Rightarrow> HeapObject \<times> nat" where
  "getSelfBinding S = getSelfBinding_frames (stack S)"

fun alreadyExecutingInvariants_frames :: "HeapObject \<Rightarrow> Frame list \<Rightarrow> bool" where
  "alreadyExecutingInvariants_frames slf [] = False"
| "alreadyExecutingInvariants_frames slf (f # fs) =
     (if kind f = FRAME_INVARIANTS \<and> same_object (self f) slf then True
      else alreadyExecutingInvariants_frames slf fs)"

definition alreadyExecutingInvariants :: "HeapObject \<Rightarrow> Stack \<Rightarrow> bool" where
  "alreadyExecutingInvariants slf S = alreadyExecutingInvariants_frames slf (stack S)"

section \<open>Prototype objects\<close>

text \<open>
  \<^verbatim>\<open>findObject\<close> returns the leaf found (\<open>Nullptr\<close> when there is none) together with the
  two reference parameters \<open>counter\<close> and \<open>self\<close> as it leaves them.
\<close>

fun findObject ::
  "Identifier \<Rightarrow> HeapObject \<Rightarrow> HeapObject \<Rightarrow> nat \<Rightarrow> nat \<Rightarrow> HeapObject
     \<Rightarrow> HeapObject \<times> nat \<times> HeapObject" where
  "findObject f rt (HeapExtendedObject a left right) start_from counter slf =
     (let (r, counter1, slf1) = findObject f rt right start_from counter slf in
      if r \<noteq> Nullptr then (r, counter1, slf1)
      else let (l, counter2, slf2) = findObject f rt left start_from counter1 slf1 in
           if l \<noteq> Nullptr then (l, counter2, slf2) else (Nullptr, counter2, slf2))"
| "findObject f rt (HeapSimpleObject a up flds asserts) start_from counter slf =
     (if counter \<ge> start_from \<and> map_of flds f \<noteq> None
      then (HeapSimpleObject a up flds asserts, counter, rt)
      else (Nullptr, counter + 1, slf))"
| "findObject f rt (HeapComprehensionObject a up v ident compValues) start_from counter slf =
     (if counter \<ge> start_from \<and> map_of compValues f \<noteq> None
      then (HeapComprehensionObject a up v ident compValues, counter, rt)
      else (Nullptr, counter + 1, slf))"
| "findObject f rt Nullptr start_from counter slf = (Nullptr, counter + 1, slf)"

text \<open>
  \<^verbatim>\<open>objectFields\<close> (the overload with the counter): the map built, and the counter as it
  is left. The loop over the left map inserts a pair when the name is new, or when the
  name is there with INHERIT.
\<close>

fun merge_left :: "(Identifier \<times> Hide) list \<Rightarrow> (Identifier \<times> Hide) list \<Rightarrow> (Identifier \<times> Hide) list" where
  "merge_left r [] = r"
| "merge_left r ((k, h) # rest) =
     merge_left
       (case map_of r k of
          None \<Rightarrow> AList.update k h r
        | Some h' \<Rightarrow> if h' = INHERIT then AList.update k h r else r)
       rest"

fun objectFields_aux ::
  "HeapObject \<Rightarrow> nat \<Rightarrow> nat \<Rightarrow> bool \<Rightarrow> (Identifier \<times> Hide) list \<times> nat" where
  "objectFields_aux (HeapSimpleObject a up flds asserts) counter skip manifesting =
     (if counter + 1 \<le> skip then ([], counter + 1)
      else (fold (\<lambda>(k, h, b) r. AList.update k (if \<not> manifesting then VISIBLE else h) r) flds [],
            counter + 1))"
| "objectFields_aux (HeapExtendedObject a left right) counter skip manifesting =
     (let (r, counter1) = objectFields_aux right counter skip manifesting;
          (l, counter2) = objectFields_aux left counter1 skip manifesting
      in (merge_left r l, counter2))"
| "objectFields_aux (HeapComprehensionObject a up v ident compValues) counter skip manifesting =
     (if counter + 1 \<le> skip then ([], counter + 1)
      else (fold (\<lambda>(k, th) r. AList.update k VISIBLE r) compValues [], counter + 1))"
| "objectFields_aux Nullptr counter skip manifesting = ([], counter)"

definition objectFields :: "HeapObject \<Rightarrow> bool \<Rightarrow> Identifier list" where
  "objectFields obj manifesting =
     map fst (filter (\<lambda>(k, h). h \<noteq> HIDDEN) (fst (objectFields_aux obj 0 0 manifesting)))"

fun countLeaves :: "HeapObject \<Rightarrow> nat" where
  "countLeaves (HeapExtendedObject a left right) = countLeaves left + countLeaves right"
| "countLeaves obj = 1"

section \<open>What vm.cpp takes from outside\<close>

text \<open>
  The functions of the other translation units and of the C++ library that vm.cpp calls
  are fields of the record \<open>Native\<close>; every definition below takes such a record \<open>X\<close>,
  and every theorem holds for all of them.
  \<^item> \<open>encode_utf8\<close>, \<open>decode_utf8\<close>, \<open>type_str\<close>, \<open>bop_string\<close>, \<open>uop_string\<close>,
    \<open>unparse_number\<close> (\<^verbatim>\<open>jsonnet_unparse_number\<close>), \<open>string_unparse\<close>
    (\<^verbatim>\<open>jsonnet_string_unparse(s, false)\<close>), \<open>builtin_name\<close>
    (\<^verbatim>\<open>jsonnet_builtin_decl(b).name\<close>), \<open>CODEPOINT_MAX\<close>: declared in headers that are
    not among the sources;
  \<^item> \<open>compile\<close>: lexing, parsing, desugaring and static analysis of a file's content;
  \<^item> \<open>importCallback\<close>: the import callback, returning (content, found here, success);
  \<^item> \<open>to_string\<close>: a number written to a \<^verbatim>\<open>std::stringstream\<close>;
  \<^item> the arithmetic of doubles that rounds, the functions of \<^verbatim>\<open>cmath\<close>, the
    conversions between \<^verbatim>\<open>double\<close> and \<^verbatim>\<open>long\<close>, and the shifts of a \<^verbatim>\<open>long\<close>.
\<close>

record Native =
  encode_utf8 :: "String \<Rightarrow> string"
  decode_utf8 :: "string \<Rightarrow> String"
  type_str :: "Type \<Rightarrow> string"
  bop_string :: "BinaryOp \<Rightarrow> string"
  uop_string :: "UnaryOp \<Rightarrow> string"
  unparse_number :: "double \<Rightarrow> string"
  string_unparse :: "String \<Rightarrow> String"
  builtin_name :: "nat \<Rightarrow> String"
  CODEPOINT_MAX :: int
  compile :: "string \<Rightarrow> string \<Rightarrow> error + AST"
  importCallback :: "string \<Rightarrow> string \<Rightarrow> string \<times> string \<times> bool"
  to_string :: "int \<Rightarrow> string"
  double_add :: "double \<Rightarrow> double \<Rightarrow> double"
  double_sub :: "double \<Rightarrow> double \<Rightarrow> double"
  double_mul :: "double \<Rightarrow> double \<Rightarrow> double"
  double_div :: "double \<Rightarrow> double \<Rightarrow> double"
  std_pow :: "double \<Rightarrow> double \<Rightarrow> double"
  std_floor :: "double \<Rightarrow> double"
  std_ceil :: "double \<Rightarrow> double"
  std_sqrt :: "double \<Rightarrow> double"
  std_sin :: "double \<Rightarrow> double"
  std_cos :: "double \<Rightarrow> double"
  std_tan :: "double \<Rightarrow> double"
  std_asin :: "double \<Rightarrow> double"
  std_acos :: "double \<Rightarrow> double"
  std_atan :: "double \<Rightarrow> double"
  std_log :: "double \<Rightarrow> double"
  std_exp :: "double \<Rightarrow> double"
  std_frexp :: "double \<Rightarrow> double \<times> int"
  std_fmod :: "double \<Rightarrow> double \<Rightarrow> double"
  double_to_long :: "double \<Rightarrow> 64 word"
  long_to_double :: "64 word \<Rightarrow> double"
  size_to_double :: "nat \<Rightarrow> double"
  int_to_double :: "int \<Rightarrow> double"
  shift_left :: "64 word \<Rightarrow> 64 word \<Rightarrow> 64 word"
  shift_right :: "64 word \<Rightarrow> 64 word \<Rightarrow> 64 word"

section \<open>The interpreter\<close>

text \<open>
  The state of \<^verbatim>\<open>class Interpreter\<close>: the heap (the thunk table and the next free object
  address), the scratch register, the stack, the import cache (key: directory and path;
  value: where the file was found and its content) and the external variables (data and
  the \<^verbatim>\<open>isCode\<close> flag).
\<close>

record Interpreter =
  heap :: "HeapThunk list"
  next_address :: nat
  scratch :: Value
  istack :: Stack
  cachedImports :: "((string \<times> String) \<times> (string \<times> string)) list"
  externalVars :: "(string \<times> (string \<times> bool)) list"

definition Interpreter_new :: "(string \<times> (string \<times> bool)) list \<Rightarrow> nat \<Rightarrow> Interpreter" where
  "Interpreter_new ext_vars max_stack =
     \<lparr>heap = [], next_address = 0, scratch = NULL_TYPE, istack = Stack_new max_stack,
      cachedImports = [], externalVars = ext_vars\<rparr>"

definition idArrayElement :: Identifier where
  "idArrayElement = U ''array_element''"

definition idInvariant :: Identifier where
  "idInvariant = U ''object_assert''"

definition bindE :: "error + 'a \<Rightarrow> ('a \<Rightarrow> error + 'b) \<Rightarrow> error + 'b" where
  "bindE m k = (case m of Inl e \<Rightarrow> Inl e | Inr x \<Rightarrow> k x)"

definition makeError :: "LocationRange \<Rightarrow> string \<Rightarrow> error" where
  "makeError loc msg = RuntimeError loc msg"

definition makeBoolean :: "bool \<Rightarrow> Value" where
  "makeBoolean v = BOOLEAN v"

definition makeDouble :: "double \<Rightarrow> Value" where
  "makeDouble v = DOUBLE v"

definition makeDoubleCheck :: "LocationRange \<Rightarrow> double \<Rightarrow> error + Value" where
  "makeDoubleCheck loc v =
     (if isnan v then Inl (makeError loc ''Not a number'')
      else if isinf v then Inl (makeError loc ''Overflow'')
      else Inr (makeDouble v))"

definition makeNull :: Value where
  "makeNull = NULL_TYPE"

definition makeString :: "String \<Rightarrow> Value" where
  "makeString v = STRING v"

text \<open>\<^verbatim>\<open>makeHeap<HeapThunk>\<close>: the new thunk goes to the end of the table.\<close>

definition makeThunk :: "HeapThunk \<Rightarrow> Interpreter \<Rightarrow> thunk_ref \<times> Interpreter" where
  "makeThunk th st = (length (heap st), st\<lparr>heap := heap st @ [th]\<rparr>)"

definition deref :: "thunk_ref \<Rightarrow> Interpreter \<Rightarrow> error + HeapThunk" where
  "deref r st =
     (if r < length (heap st) then Inr (heap st ! r) else Inl (Undefined ''dangling thunk''))"

definition fill_thunk :: "thunk_ref \<Rightarrow> Value \<Rightarrow> Interpreter \<Rightarrow> Interpreter" where
  "fill_thunk r v st = st\<lparr>heap := (heap st)[r := fill v (heap st ! r)]\<rparr>"

text \<open>\<^verbatim>\<open>makeObject<T>\<close>: the constructor \<open>mk\<close> gets the next address.\<close>

definition makeObject :: "(nat \<Rightarrow> HeapObject) \<Rightarrow> Interpreter \<Rightarrow> Interpreter" where
  "makeObject mk st =
     st\<lparr>scratch := OBJECT (mk (next_address st)), next_address := next_address st + 1\<rparr>"

definition top_frame :: "Interpreter \<Rightarrow> error + Frame" where
  "top_frame st =
     (case stack (istack st) of [] \<Rightarrow> Inl (Undefined ''top of an empty stack'') | f # fs \<Rightarrow> Inr f)"

definition update_top :: "(Frame \<Rightarrow> Frame) \<Rightarrow> Interpreter \<Rightarrow> Interpreter" where
  "update_top g st =
     (case stack (istack st) of
        [] \<Rightarrow> st
      | f # fs \<Rightarrow> st\<lparr>istack := (istack st)\<lparr>stack := g f # fs\<rparr>\<rparr>)"

definition push_frame :: "Frame \<Rightarrow> Interpreter \<Rightarrow> Interpreter" where
  "push_frame f st = st\<lparr>istack := newFrame f (istack st)\<rparr>"

definition pop_frame :: "Interpreter \<Rightarrow> Interpreter" where
  "pop_frame st = st\<lparr>istack := pop (istack st)\<rparr>"

definition new_call ::
  "LocationRange \<Rightarrow> HeapEntity \<Rightarrow> HeapObject \<Rightarrow> nat \<Rightarrow> BindingFrame \<Rightarrow> Interpreter
     \<Rightarrow> error + Interpreter" where
  "new_call loc ctx slf off up_values st =
     bindE (newCall loc ctx slf off up_values (istack st)) (\<lambda>S. Inr (st\<lparr>istack := S\<rparr>))"

definition capture :: "Identifier list \<Rightarrow> Interpreter \<Rightarrow> BindingFrame" where
  "capture free_vars st =
     fold (\<lambda>fv env. case lookUpVar fv (istack st) of
                       Some th \<Rightarrow> AList.update fv th env
                     | None \<Rightarrow> env)
          free_vars []"

text \<open>\<^verbatim>\<open>objectInvariants\<close>: the counter and the thunk vector are the reference parameters.\<close>

fun assert_thunks ::
  "AST list \<Rightarrow> HeapObject \<Rightarrow> nat \<Rightarrow> BindingFrame \<Rightarrow> thunk_ref list \<Rightarrow> Interpreter
     \<Rightarrow> thunk_ref list \<times> Interpreter" where
  "assert_thunks [] slf counter up ths st = (ths, st)"
| "assert_thunks (a # as) slf counter up ths st =
     (let (r, st1) = makeThunk ((new_thunk idInvariant slf counter (Some a))\<lparr>th_upValues := up\<rparr>) st
      in assert_thunks as slf counter up (ths @ [r]) st1)"

fun objectInvariants ::
  "HeapObject \<Rightarrow> HeapObject \<Rightarrow> nat \<Rightarrow> thunk_ref list \<Rightarrow> Interpreter
     \<Rightarrow> nat \<times> thunk_ref list \<times> Interpreter" where
  "objectInvariants (HeapExtendedObject a left right) slf counter ths st =
     (let (counter1, ths1, st1) = objectInvariants right slf counter ths st
      in objectInvariants left slf counter1 ths1 st1)"
| "objectInvariants (HeapSimpleObject a up flds asserts) slf counter ths st =
     (let (ths1, st1) = assert_thunks asserts slf counter up ths st
      in (counter + 1, ths1, st1))"
| "objectInvariants obj slf counter ths st = (counter + 1, ths, st)"

text \<open>
  \<^verbatim>\<open>objectIndex\<close>: the body to evaluate, and the stack with the new CALL frame. The
  lookups in the leaf found cannot miss; if they did the source would read through an
  end iterator.
\<close>

definition objectIndex ::
  "Native \<Rightarrow> LocationRange \<Rightarrow> HeapObject \<Rightarrow> Identifier \<Rightarrow> nat \<Rightarrow> Stack \<Rightarrow> error + (AST \<times> Stack)" where
  "objectIndex X loc obj f off S =
     (let (found, found_at, slf) = findObject f obj obj off 0 Nullptr in
      case found of
        Nullptr \<Rightarrow> Inl (makeError loc (''Field does not exist: '' @ encode_utf8 X f))
      | HeapSimpleObject a up flds asserts \<Rightarrow>
          (case map_of flds f of
             None \<Rightarrow> Inl (Undefined ''end iterator'')
           | Some (h, body) \<Rightarrow>
               bindE (newCall loc (ObjectEntity found) slf found_at up S) (\<lambda>S1. Inr (body, S1)))
      | HeapComprehensionObject a up v ident compValues \<Rightarrow>
          (case map_of compValues f of
             None \<Rightarrow> Inl (Undefined ''end iterator'')
           | Some th \<Rightarrow>
               bindE (newCall loc (ObjectEntity found) slf found_at (AList.update ident th up) S)
                 (\<lambda>S1. Inr (v, S1)))
      | HeapExtendedObject a l r \<Rightarrow> Inl (Undefined ''not a leaf''))"

definition object_index ::
  "Native \<Rightarrow> LocationRange \<Rightarrow> HeapObject \<Rightarrow> Identifier \<Rightarrow> nat \<Rightarrow> Interpreter
     \<Rightarrow> error + (AST \<times> Interpreter)" where
  "object_index X loc obj f off st =
     bindE (objectIndex X loc obj f off (istack st)) (\<lambda>(body, S). Inr (body, st\<lparr>istack := S\<rparr>))"

text \<open>\<^verbatim>\<open>dir_name\<close>: the path up to and with its last slash, or the empty string.\<close>

definition dir_name :: "string \<Rightarrow> string" where
  "dir_name path =
     (if CHR ''/'' \<in> set path then rev (dropWhile (\<lambda>c. c \<noteq> CHR ''/'') (rev path)) else [])"

definition importString ::
  "Native \<Rightarrow> LocationRange \<Rightarrow> String \<Rightarrow> Interpreter \<Rightarrow> error + ((string \<times> string) \<times> Interpreter)" where
  "importString X loc path st =
     (let dir = dir_name (loc_file loc) in
      case map_of (cachedImports st) (dir, path) of
        Some cached \<Rightarrow> Inr (cached, st)
      | None \<Rightarrow>
          (let (input, found_here, success) = importCallback X dir (encode_utf8 X path) in
           if \<not> success
           then Inl (makeError loc
                  (''Couldn'' @ [CHR 0x27] @ ''t open import '' @ [CHR 0x22] @ encode_utf8 X path
                   @ [CHR 0x22] @ '': '' @ input))
           else Inr ((found_here, input),
                     st\<lparr>cachedImports :=
                          AList.update (dir, path) (found_here, input) (cachedImports st)\<rparr>)))"

definition import_ast ::
  "Native \<Rightarrow> LocationRange \<Rightarrow> String \<Rightarrow> Interpreter \<Rightarrow> error + (AST \<times> Interpreter)" where
  "import_ast X loc path st =
     bindE (importString X loc path st) (\<lambda>((found_here, input), st1).
       bindE (compile X found_here input) (\<lambda>expr. Inr (expr, st1)))"

fun join_comma :: "string list \<Rightarrow> string" where
  "join_comma [] = []"
| "join_comma [s] = s"
| "join_comma (s # ss) = s @ '', '' @ join_comma ss"

definition validateBuiltinArgs ::
  "Native \<Rightarrow> LocationRange \<Rightarrow> nat \<Rightarrow> Value list \<Rightarrow> Type list \<Rightarrow> error + unit" where
  "validateBuiltinArgs X loc b args ps =
     (if map type_of args = ps then Inr ()
      else Inl (makeError loc
             (''Builtin function '' @ encode_utf8 X (builtin_name X b) @ '' expected (''
              @ join_comma (map (type_str X) ps) @ '') but got (''
              @ join_comma (map (\<lambda>a. type_str X (type_of a)) args) @ '')'')))"

section \<open>The driver: the switch on the AST\<close>

text \<open>
  \<^verbatim>\<open>Interpreter::evaluate\<close> is a loop with two places to be at: the label
  \<^verbatim>\<open>recurse\<close> with an AST to evaluate (\<open>Recurse\<close>), and the head of the \<^verbatim>\<open>while\<close> loop
  that unwinds the stack (\<open>Unwind\<close>). \<open>ast_step\<close> is the \<^verbatim>\<open>switch (ast_->type)\<close>;
  \<open>frame_step\<close> below is one round of the \<^verbatim>\<open>while\<close> loop.
\<close>

datatype Control = Recurse AST | Unwind

definition recurse :: "AST option \<Rightarrow> Interpreter \<Rightarrow> error + (Control \<times> Interpreter)" where
  "recurse a st = (case a of None \<Rightarrow> Inl (Undefined ''null AST'') | Some b \<Rightarrow> Inr (Recurse b, st))"

fun array_thunks ::
  "AST list \<Rightarrow> HeapObject \<Rightarrow> nat \<Rightarrow> Interpreter \<Rightarrow> thunk_ref list \<times> Interpreter" where
  "array_thunks [] slf off st = ([], st)"
| "array_thunks (el # els) slf off st =
     (let (r, st1) = makeThunk ((new_thunk idArrayElement slf off (Some el))
                                  \<lparr>th_upValues := capture (freeVariables el) st\<rparr>) st;
          (rs, st2) = array_thunks els slf off st1
      in (r # rs, st2))"

fun arg_thunks ::
  "Identifier list \<Rightarrow> AST list \<Rightarrow> HeapObject \<Rightarrow> nat \<Rightarrow> Interpreter
     \<Rightarrow> thunk_ref list \<times> Interpreter" where
  "arg_thunks (p # ps) (arg # args) slf off st =
     (let (r, st1) = makeThunk ((new_thunk p slf off (Some arg))
                                  \<lparr>th_upValues := capture (freeVariables arg) st\<rparr>) st;
          (rs, st2) = arg_thunks ps args slf off st1
      in (r # rs, st2))"
| "arg_thunks ps args slf off st = ([], st)"

definition bind_params :: "Identifier list \<Rightarrow> thunk_ref list \<Rightarrow> BindingFrame \<Rightarrow> BindingFrame" where
  "bind_params ps args up = fold (\<lambda>(p, a) b. AList.update p a b) (zip ps args) up"

fun local_thunks ::
  "(Identifier \<times> AST) list \<Rightarrow> HeapObject \<Rightarrow> nat \<Rightarrow> Interpreter \<Rightarrow> Interpreter" where
  "local_thunks [] slf off st = st"
| "local_thunks ((var, body) # binds) slf off st =
     (let (r, st1) = makeThunk (new_thunk var slf off (Some body)) st
      in local_thunks binds slf off
           (update_top (\<lambda>f. f\<lparr>bindings := AList.update var r (bindings f)\<rparr>) st1))"

fun local_capture :: "(Identifier \<times> AST) list \<Rightarrow> Interpreter \<Rightarrow> Interpreter" where
  "local_capture [] st = st"
| "local_capture ((var, body) # binds) st =
     local_capture binds
       (case stack (istack st) of
          [] \<Rightarrow> st
        | f # fs \<Rightarrow>
            (case map_of (bindings f) var of
               None \<Rightarrow> st
             | Some r \<Rightarrow>
                 st\<lparr>heap := (heap st)[r := (heap st ! r)
                       \<lparr>th_upValues := capture (freeVariables body) st\<rparr>]\<rparr>))"

definition ast_step :: "Native \<Rightarrow> AST \<Rightarrow> Interpreter \<Rightarrow> error + (Control \<times> Interpreter)" where
  "ast_step X a st =
     (case node a of
        Apply target args tailstrict \<Rightarrow>
          Inr (Recurse target, push_frame (Frame_ast FRAME_APPLY_TARGET a) st)
      | Array els \<Rightarrow>
          (let (slf, off) = getSelfBinding (istack st);
               (rs, st1) = array_thunks els slf off (st\<lparr>scratch := ARRAY []\<rparr>)
           in Inr (Unwind, st1\<lparr>scratch := ARRAY rs\<rparr>))
      | Binary left op right \<Rightarrow>
          Inr (Recurse left, push_frame (Frame_ast FRAME_BINARY_LEFT a) st)
      | BuiltinFunction b ps \<Rightarrow>
          Inr (Unwind, st\<lparr>scratch := FUNCTION (HeapClosure [] Nullptr 0 ps None b)\<rparr>)
      | Conditional cond branchTrue branchFalse \<Rightarrow>
          Inr (Recurse cond, push_frame (Frame_ast FRAME_IF a) st)
      | Error expr \<Rightarrow>
          Inr (Recurse expr, push_frame (Frame_ast FRAME_ERROR a) st)
      | Function ps body \<Rightarrow>
          (let env = capture (freeVariables a) st;
               (slf, off) = getSelfBinding (istack st)
           in Inr (Unwind, st\<lparr>scratch := FUNCTION (HeapClosure env slf off ps (Some body) 0)\<rparr>))
      | Import path \<Rightarrow>
          bindE (import_ast X (ast_location a) path st) (\<lambda>(expr, st1).
            bindE (new_call (ast_location a) NoEntity Nullptr 0 [] st1) (\<lambda>st2.
              Inr (Recurse expr, st2)))
      | Importstr path \<Rightarrow>
          bindE (importString X (ast_location a) path st) (\<lambda>((found_here, input), st1).
            Inr (Unwind, st1\<lparr>scratch := makeString (decode_utf8 X input)\<rparr>))
      | Index target index \<Rightarrow>
          Inr (Recurse target, push_frame (Frame_ast FRAME_INDEX_TARGET a) st)
      | Local binds body \<Rightarrow>
          (let st1 = push_frame (Frame_ast FRAME_LOCAL a) st;
               (slf, off) = getSelfBinding (istack st1);
               st2 = local_thunks binds slf off st1
           in Inr (Recurse body, local_capture binds st2))
      | LiteralBoolean v \<Rightarrow> Inr (Unwind, st\<lparr>scratch := makeBoolean v\<rparr>)
      | LiteralNumber v \<Rightarrow>
          bindE (makeDoubleCheck (ast_location a) v) (\<lambda>r. Inr (Unwind, st\<lparr>scratch := r\<rparr>))
      | LiteralString v \<Rightarrow> Inr (Unwind, st\<lparr>scratch := makeString v\<rparr>)
      | LiteralNull \<Rightarrow> Inr (Unwind, st\<lparr>scratch := makeNull\<rparr>)
      | DesugaredObject asserts flds \<Rightarrow>
          (case flds of
             [] \<Rightarrow>
               (let env = capture (freeVariables a) st
                in Inr (Unwind, makeObject (\<lambda>adr. HeapSimpleObject adr env [] asserts) st))
           | (h, name, body) # rest \<Rightarrow>
               Inr (Recurse name,
                    update_top (\<lambda>f. f\<lparr>fit := 0\<rparr>) (push_frame (Frame_ast FRAME_OBJECT a) st)))
      | ObjectComprehensionSimple field v ident arr \<Rightarrow>
          Inr (Recurse arr, push_frame (Frame_ast FRAME_OBJECT_COMP_ARRAY a) st)
      | Self \<Rightarrow>
          (let (slf, off) = getSelfBinding (istack st) in Inr (Unwind, st\<lparr>scratch := OBJECT slf\<rparr>))
      | SuperIndex index \<Rightarrow>
          Inr (Recurse index, push_frame (Frame_ast FRAME_SUPER_INDEX a) st)
      | Unary op expr \<Rightarrow>
          Inr (Recurse expr, push_frame (Frame_ast FRAME_UNARY a) st)
      | Var ident \<Rightarrow>
          (case lookUpVar ident (istack st) of
             None \<Rightarrow> Inl (Abort ''INTERNAL ERROR: Could not bind variable'')
           | Some r \<Rightarrow>
               bindE (deref r st) (\<lambda>thunk.
                 if filled thunk then Inr (Unwind, st\<lparr>scratch := content thunk\<rparr>)
                 else bindE (new_call (ast_location a) (ThunkEntity r) (th_self thunk)
                               (th_offset thunk) (th_upValues thunk) st)
                        (\<lambda>st1. recurse (th_body thunk) st1)))
      | OtherAST \<Rightarrow> Inl (Abort ''INTERNAL ERROR: Unknown AST''))"

section \<open>Binary operators and builtins\<close>

definition double_binary ::
  "Native \<Rightarrow> LocationRange \<Rightarrow> BinaryOp \<Rightarrow> double \<Rightarrow> double \<Rightarrow> error + Value" where
  "double_binary X loc op l r =
     (case op of
        BOP_PLUS \<Rightarrow> makeDoubleCheck loc (double_add X l r)
      | BOP_MINUS \<Rightarrow> makeDoubleCheck loc (double_sub X l r)
      | BOP_MULT \<Rightarrow> makeDoubleCheck loc (double_mul X l r)
      | BOP_DIV \<Rightarrow>
          if double_eq r (Finite 0) then Inl (makeError loc ''Division by zero.'')
          else makeDoubleCheck loc (double_div X l r)
      | BOP_SHIFT_L \<Rightarrow>
          Inr (makeDouble (long_to_double X
                 (shift_left X (double_to_long X l) (double_to_long X r))))
      | BOP_SHIFT_R \<Rightarrow>
          Inr (makeDouble (long_to_double X
                 (shift_right X (double_to_long X l) (double_to_long X r))))
      | BOP_BITWISE_AND \<Rightarrow>
          Inr (makeDouble (long_to_double X (double_to_long X l AND double_to_long X r)))
      | BOP_BITWISE_XOR \<Rightarrow>
          Inr (makeDouble (long_to_double X (double_to_long X l XOR double_to_long X r)))
      | BOP_BITWISE_OR \<Rightarrow>
          Inr (makeDouble (long_to_double X (double_to_long X l OR double_to_long X r)))
      | BOP_LESS_EQ \<Rightarrow> Inr (makeBoolean (double_le l r))
      | BOP_GREATER_EQ \<Rightarrow> Inr (makeBoolean (double_le r l))
      | BOP_LESS \<Rightarrow> Inr (makeBoolean (double_less l r))
      | BOP_GREATER \<Rightarrow> Inr (makeBoolean (double_less r l))
      | _ \<Rightarrow> Inl (makeError loc
                (''Binary operator '' @ bop_string X op @ '' does not operate on numbers.'')))"

definition string_binary ::
  "Native \<Rightarrow> LocationRange \<Rightarrow> BinaryOp \<Rightarrow> String \<Rightarrow> String \<Rightarrow> error + Value" where
  "string_binary X loc op l r =
     (case op of
        BOP_PLUS \<Rightarrow> Inr (makeString (l @ r))
      | BOP_LESS_EQ \<Rightarrow> Inr (makeBoolean (l \<le> r))
      | BOP_GREATER_EQ \<Rightarrow> Inr (makeBoolean (r \<le> l))
      | BOP_LESS \<Rightarrow> Inr (makeBoolean (l < r))
      | BOP_GREATER \<Rightarrow> Inr (makeBoolean (r < l))
      | _ \<Rightarrow> Inl (makeError loc
                (''Binary operator '' @ bop_string X op @ '' does not operate on strings.'')))"

text \<open>The \<^verbatim>\<open>switch (lhs.t)\<close> of FRAME_BINARY_RIGHT, entered when both types are the same.\<close>

definition binary_op ::
  "Native \<Rightarrow> LocationRange \<Rightarrow> BinaryOp \<Rightarrow> Value \<Rightarrow> Value \<Rightarrow> Interpreter \<Rightarrow> error + Interpreter" where
  "binary_op X loc op lhs rhs st =
     (case (lhs, rhs) of
        (ARRAY l, ARRAY r) \<Rightarrow>
          if op = BOP_PLUS then Inr (st\<lparr>scratch := ARRAY (l @ r)\<rparr>)
          else Inl (makeError loc
                 (''Binary operator '' @ bop_string X op @ '' does not operate on arrays.''))
      | (BOOLEAN l, BOOLEAN r) \<Rightarrow>
          if op = BOP_AND then Inr (st\<lparr>scratch := makeBoolean (l \<and> r)\<rparr>)
          else if op = BOP_OR then Inr (st\<lparr>scratch := makeBoolean (l \<or> r)\<rparr>)
          else Inl (makeError loc
                 (''Binary operator '' @ bop_string X op @ '' does not operate on booleans.''))
      | (DOUBLE l, DOUBLE r) \<Rightarrow>
          bindE (double_binary X loc op l r) (\<lambda>v. Inr (st\<lparr>scratch := v\<rparr>))
      | (FUNCTION l, FUNCTION r) \<Rightarrow>
          Inl (makeError loc
            (''Binary operator '' @ bop_string X op @ '' does not operate on functions.''))
      | (NULL_TYPE, NULL_TYPE) \<Rightarrow>
          Inl (makeError loc
            (''Binary operator '' @ bop_string X op @ '' does not operate on null.''))
      | (OBJECT l, OBJECT r) \<Rightarrow>
          if op \<noteq> BOP_PLUS
          then Inl (makeError loc
                 (''Binary operator '' @ bop_string X op @ '' does not operate on objects.''))
          else Inr (makeObject (\<lambda>adr. HeapExtendedObject adr l r) st)
      | (STRING l, STRING r) \<Rightarrow>
          bindE (string_binary X loc op l r) (\<lambda>v. Inr (st\<lparr>scratch := v\<rparr>))
      | _ \<Rightarrow> Inl (Undefined ''types differ''))"

text \<open>The builtins that compute a number from numbers (cases 1 to 10 and 18 to 22).\<close>

definition math1 ::
  "Native \<Rightarrow> LocationRange \<Rightarrow> nat \<Rightarrow> (double \<Rightarrow> double) \<Rightarrow> Value list \<Rightarrow> error + Value" where
  "math1 X loc b g args =
     bindE (validateBuiltinArgs X loc b args [T_DOUBLE]) (\<lambda>_.
       case args of
         [DOUBLE x] \<Rightarrow> makeDoubleCheck loc (g x)
       | _ \<Rightarrow> Inl (Undefined ''arguments''))"

definition builtin_pow :: "Native \<Rightarrow> LocationRange \<Rightarrow> Value list \<Rightarrow> error + Value" where
  "builtin_pow X loc args =
     bindE (validateBuiltinArgs X loc 1 args [T_DOUBLE, T_DOUBLE]) (\<lambda>_.
       case args of
         [DOUBLE x, DOUBLE y] \<Rightarrow> makeDoubleCheck loc (std_pow X x y)
       | _ \<Rightarrow> Inl (Undefined ''arguments''))"

definition builtin_mantissa :: "Native \<Rightarrow> LocationRange \<Rightarrow> Value list \<Rightarrow> error + Value" where
  "builtin_mantissa X loc args =
     bindE (validateBuiltinArgs X loc 20 args [T_DOUBLE]) (\<lambda>_.
       case args of
         [DOUBLE x] \<Rightarrow> makeDoubleCheck loc (fst (std_frexp X x))
       | _ \<Rightarrow> Inl (Undefined ''arguments''))"

definition builtin_exponent :: "Native \<Rightarrow> LocationRange \<Rightarrow> Value list \<Rightarrow> error + Value" where
  "builtin_exponent X loc args =
     bindE (validateBuiltinArgs X loc 21 args [T_DOUBLE]) (\<lambda>_.
       case args of
         [DOUBLE x] \<Rightarrow> makeDoubleCheck loc (int_to_double X (snd (std_frexp X x)))
       | _ \<Rightarrow> Inl (Undefined ''arguments''))"

definition builtin_modulo :: "Native \<Rightarrow> LocationRange \<Rightarrow> Value list \<Rightarrow> error + Value" where
  "builtin_modulo X loc args =
     bindE (validateBuiltinArgs X loc 22 args [T_DOUBLE, T_DOUBLE]) (\<lambda>_.
       case args of
         [DOUBLE a, DOUBLE b] \<Rightarrow>
           if double_eq b (Finite 0) then Inl (makeError loc ''Division by zero.'')
           else makeDoubleCheck loc (std_fmod X a b)
       | _ \<Rightarrow> Inl (Undefined ''arguments''))"

definition builtin_numeric :: "Native \<Rightarrow> LocationRange \<Rightarrow> nat \<Rightarrow> Value list \<Rightarrow> error + Value" where
  "builtin_numeric X loc b args =
     (if b = 1 then builtin_pow X loc args
      else if b = 2 then math1 X loc b (std_floor X) args
      else if b = 3 then math1 X loc b (std_ceil X) args
      else if b = 4 then math1 X loc b (std_sqrt X) args
      else if b = 5 then math1 X loc b (std_sin X) args
      else if b = 6 then math1 X loc b (std_cos X) args
      else if b = 7 then math1 X loc b (std_tan X) args
      else if b = 8 then math1 X loc b (std_asin X) args
      else if b = 9 then math1 X loc b (std_acos X) args
      else if b = 10 then math1 X loc b (std_atan X) args
      else if b = 18 then math1 X loc b (std_log X) args
      else if b = 19 then math1 X loc b (std_exp X) args
      else if b = 20 then builtin_mantissa X loc args
      else if b = 21 then builtin_exponent X loc args
      else builtin_modulo X loc args)"

definition is_numeric_builtin :: "nat \<Rightarrow> bool" where
  "is_numeric_builtin b = ((1 \<le> b \<and> b \<le> 10) \<or> (18 \<le> b \<and> b \<le> 22))"

definition builtin_type :: "Value list \<Rightarrow> error + Value" where
  "builtin_type args =
     (case args of
        [] \<Rightarrow> Inl (Undefined ''arguments'')
      | v # _ \<Rightarrow>
          Inr (makeString
            (case type_of v of
               T_NULL_TYPE \<Rightarrow> U ''null''
             | T_BOOLEAN \<Rightarrow> U ''boolean''
             | T_DOUBLE \<Rightarrow> U ''number''
             | T_ARRAY \<Rightarrow> U ''array''
             | T_FUNCTION \<Rightarrow> U ''function''
             | T_OBJECT \<Rightarrow> U ''object''
             | T_STRING \<Rightarrow> U ''string'')))"

definition builtin_objectHasEx :: "Native \<Rightarrow> LocationRange \<Rightarrow> Value list \<Rightarrow> error + Value" where
  "builtin_objectHasEx X loc args =
     bindE (validateBuiltinArgs X loc 13 args [T_OBJECT, T_STRING, T_BOOLEAN]) (\<lambda>_.
       case args of
         [OBJECT obj, STRING str, BOOLEAN include_hidden] \<Rightarrow>
           Inr (makeBoolean (str \<in> set (objectFields obj (\<not> include_hidden))))
       | _ \<Rightarrow> Inl (Undefined ''arguments''))"

definition builtin_length :: "Native \<Rightarrow> LocationRange \<Rightarrow> Value list \<Rightarrow> error + Value" where
  "builtin_length X loc args =
     (if length args \<noteq> 1 then Inl (makeError loc ''length takes 1 parameter.'')
      else case args of
        [OBJECT e] \<Rightarrow> Inr (makeDouble (size_to_double X (length (objectFields e True))))
      | [ARRAY e] \<Rightarrow> Inr (makeDouble (size_to_double X (length e)))
      | [STRING e] \<Rightarrow> Inr (makeDouble (size_to_double X (length e)))
      | [FUNCTION e] \<Rightarrow> Inr (makeDouble (size_to_double X (length (params e))))
      | v # _ \<Rightarrow> Inl (makeError loc
                  (''length operates on strings, objects, and arrays, got ''
                   @ type_str X (type_of v)))
      | [] \<Rightarrow> Inl (Undefined ''arguments''))"

definition builtin_codepoint :: "Native \<Rightarrow> LocationRange \<Rightarrow> Value list \<Rightarrow> error + Value" where
  "builtin_codepoint X loc args =
     bindE (validateBuiltinArgs X loc 16 args [T_STRING]) (\<lambda>_.
       case args of
         [STRING str] \<Rightarrow>
           (case str of
              [c] \<Rightarrow> Inr (makeDouble (size_to_double X c))
            | _ \<Rightarrow> Inl (makeError loc
                     (''codepoint takes a string of length 1, got length ''
                      @ to_string X (int (length str)))))
       | _ \<Rightarrow> Inl (Undefined ''arguments''))"

definition builtin_char :: "Native \<Rightarrow> LocationRange \<Rightarrow> Value list \<Rightarrow> error + Value" where
  "builtin_char X loc args =
     bindE (validateBuiltinArgs X loc 17 args [T_DOUBLE]) (\<lambda>_.
       case args of
         [DOUBLE d] \<Rightarrow>
           (let l = sint (double_to_long X d) in
            if l < 0
            then Inl (makeError loc (''Codepoints must be >= 0, got '' @ to_string X l))
            else if l \<ge> CODEPOINT_MAX X
            then Inl (makeError loc (''Invalid unicode codepoint, got '' @ to_string X l))
            else Inr (makeString [nat l]))
       | _ \<Rightarrow> Inl (Undefined ''arguments''))"

text \<open>
  \<^verbatim>\<open>primitiveEquals\<close> (case 24). The comparison of doubles is the IEEE one, the
  comparison of strings is that of their contents.
\<close>

definition primitiveEquals :: "Native \<Rightarrow> LocationRange \<Rightarrow> Value list \<Rightarrow> error + Value" where
  "primitiveEquals X loc args =
     (case args of
        [a, b] \<Rightarrow>
          if type_of a \<noteq> type_of b then Inr (makeBoolean False)
          else (case (a, b) of
                  (BOOLEAN x, BOOLEAN y) \<Rightarrow> Inr (makeBoolean (x = y))
                | (DOUBLE x, DOUBLE y) \<Rightarrow> Inr (makeBoolean (double_eq x y))
                | (STRING x, STRING y) \<Rightarrow> Inr (makeBoolean (x = y))
                | (NULL_TYPE, NULL_TYPE) \<Rightarrow> Inr (makeBoolean True)
                | (FUNCTION x, FUNCTION y) \<Rightarrow>
                    Inl (makeError loc ''Cannot test equality of functions'')
                | _ \<Rightarrow> Inl (makeError loc
                         (''primitiveEquals operates on primitive types, got ''
                          @ type_str X (type_of a))))
      | _ \<Rightarrow> Inl (makeError loc ''primitiveEquals takes 2 parameters.''))"

text \<open>The builtins that only compute the scratch value.\<close>

definition builtin_value :: "Native \<Rightarrow> LocationRange \<Rightarrow> nat \<Rightarrow> Value list \<Rightarrow> error + Value" where
  "builtin_value X loc b args =
     (if is_numeric_builtin b then builtin_numeric X loc b args
      else if b = 11 then builtin_type args
      else if b = 13 then builtin_objectHasEx X loc args
      else if b = 14 then builtin_length X loc args
      else if b = 16 then builtin_codepoint X loc args
      else if b = 17 then builtin_char X loc args
      else if b = 24 then primitiveEquals X loc args
      else Inl (Abort ''INTERNAL ERROR: Unrecognized builtin''))"

fun makeArray_thunks ::
  "Native \<Rightarrow> HeapClosure \<Rightarrow> Identifier \<Rightarrow> nat \<Rightarrow> nat \<Rightarrow> Interpreter
     \<Rightarrow> thunk_ref list \<times> Interpreter" where
  "makeArray_thunks X func p 0 i st = ([], st)"
| "makeArray_thunks X func p (Suc n) i st =
     (let (th, st1) = makeThunk (new_thunk idArrayElement (cl_self func) (cl_offset func)
                                   (cl_body func)) st;
          st2 = update_top (\<lambda>f. f\<lparr>thunks := thunks f @ [th]\<rparr>) st1;
          (el, st3) = makeThunk (fill (makeDouble (long_to_double X (of_nat i)))
                                   (new_thunk p Nullptr 0 None)) st2;
          st4 = st3\<lparr>heap := (heap st3)[th := (heap st3 ! th)
                    \<lparr>th_upValues := AList.update p el (cl_upValues func)\<rparr>]\<rparr>;
          (rs, st5) = makeArray_thunks X func p n (Suc i) st4
      in (th # rs, st5))"

definition builtin_makeArray ::
  "Native \<Rightarrow> LocationRange \<Rightarrow> Value list \<Rightarrow> Interpreter \<Rightarrow> error + Interpreter" where
  "builtin_makeArray X loc args st =
     bindE (validateBuiltinArgs X loc 0 args [T_DOUBLE, T_FUNCTION]) (\<lambda>_.
       case args of
         [DOUBLE d, FUNCTION func] \<Rightarrow>
           (let sz = sint (double_to_long X d) in
            if sz < 0
            then Inl (makeError loc (''makeArray requires size >= 0, got '' @ to_string X sz))
            else (case params func of
                    [p] \<Rightarrow>
                      (let (rs, st1) = makeArray_thunks X func p (nat sz) 0 st
                       in Inr (st1\<lparr>scratch := ARRAY rs\<rparr>))
                  | ps \<Rightarrow> Inl (makeError loc
                            (''makeArray function must take 1 param, got: ''
                             @ to_string X (int (length ps))))))
       | _ \<Rightarrow> Inl (Undefined ''arguments''))"

fun string_thunks :: "String list \<Rightarrow> Interpreter \<Rightarrow> thunk_ref list \<times> Interpreter" where
  "string_thunks [] st = ([], st)"
| "string_thunks (field # rest) st =
     (let (th, st1) = makeThunk (fill (makeString field) (new_thunk idArrayElement Nullptr 0 None)) st;
          (rs, st2) = string_thunks rest st1
      in (th # rs, st2))"

definition builtin_objectFieldsEx ::
  "Native \<Rightarrow> LocationRange \<Rightarrow> Value list \<Rightarrow> Interpreter \<Rightarrow> error + Interpreter" where
  "builtin_objectFieldsEx X loc args st =
     bindE (validateBuiltinArgs X loc 15 args [T_OBJECT, T_BOOLEAN]) (\<lambda>_.
       case args of
         [OBJECT obj, BOOLEAN include_hidden] \<Rightarrow>
           (let flds = sort (remdups (objectFields obj (\<not> include_hidden)));
                (rs, st1) = string_thunks flds (st\<lparr>scratch := ARRAY []\<rparr>)
            in Inr (st1\<lparr>scratch := ARRAY rs\<rparr>))
       | _ \<Rightarrow> Inl (Undefined ''arguments''))"

section \<open>The driver: one round of the loop over the stack\<close>

text \<open>
  One definition for each \<^verbatim>\<open>case\<close> of \<^verbatim>\<open>switch (f.kind)\<close>; \<open>f\<close> is the top frame when
  the round starts. A \<^verbatim>\<open>static_cast\<close> of \<open>f.ast\<close> to a node class it is not, an index
  out of a vector's range and a null AST are \<open>Undefined\<close>. Leaving the \<^verbatim>\<open>switch\<close> by
  \<^verbatim>\<open>break\<close> or \<^verbatim>\<open>goto popframe\<close> pops the frame and goes on unwinding; \<^verbatim>\<open>goto replaceframe\<close>
  goes on unwinding without the pop.
\<close>

fun thunk_contents :: "thunk_ref list \<Rightarrow> Interpreter \<Rightarrow> error + Value list" where
  "thunk_contents [] st = Inr []"
| "thunk_contents (r # rs) st =
     (case deref r st of
        Inl e \<Rightarrow> Inl e
      | Inr th \<Rightarrow> (case thunk_contents rs st of Inl e \<Rightarrow> Inl e | Inr vs \<Rightarrow> Inr (content th # vs)))"

text \<open>Forcing a thunk: a CALL frame whose context is the thunk, then its body.\<close>

definition force_thunk ::
  "LocationRange \<Rightarrow> thunk_ref \<Rightarrow> HeapThunk \<Rightarrow> Interpreter \<Rightarrow> error + (Control \<times> Interpreter)" where
  "force_thunk loc r thunk st =
     bindE (new_call loc (ThunkEntity r) (th_self thunk) (th_offset thunk) (th_upValues thunk) st)
       (\<lambda>st1. recurse (th_body thunk) st1)"

definition frame_apply_target ::
  "Native \<Rightarrow> Frame \<Rightarrow> Interpreter \<Rightarrow> error + (Control \<times> Interpreter)" where
  "frame_apply_target X f st =
     (case ast f of
        Some (AST loc fv (Apply target args tailstrict)) \<Rightarrow>
          (case scratch st of
             FUNCTION func \<Rightarrow>
               if length args \<noteq> length (params func)
               then Inl (makeError loc
                      (''Expected '' @ to_string X (int (length (params func)))
                       @ '' arguments, got '' @ to_string X (int (length args)) @ ''.''))
               else
                 (let (slf, off) = getSelfBinding (istack st);
                      (new, st1) = arg_thunks (params func) args slf off st;
                      args' = thunks f @ new;
                      st2 = pop_frame st1
                  in case cl_body func of
                       None \<Rightarrow>
                         Inr (Unwind,
                              update_top (\<lambda>g. g\<lparr>thunks := args', val := scratch st\<rparr>)
                                (push_frame
                                   (Frame_ast FRAME_BUILTIN_FORCE_THUNKS
                                      (AST loc fv (Apply target args tailstrict))) st2))
                     | Some body \<Rightarrow>
                         bindE (new_call loc (ClosureEntity func) (cl_self func) (cl_offset func)
                                  (bind_params (params func) args' (cl_upValues func)) st2)
                           (\<lambda>st3.
                              if tailstrict
                              then (let st4 = update_top (\<lambda>g. g\<lparr>tailCall := True\<rparr>) st3 in
                                    if length args' = 0 then Inr (Recurse body, st4)
                                    else Inr (Unwind,
                                              update_top
                                                (\<lambda>g. g\<lparr>thunks := args', val := scratch st\<rparr>) st4))
                              else Inr (Recurse body, st3)))
           | v \<Rightarrow> Inl (makeError loc
                    (''Only functions can be called, got '' @ type_str X (type_of v))))
      | _ \<Rightarrow> Inl (Undefined ''static_cast''))"

definition frame_binary_left ::
  "Native \<Rightarrow> Frame \<Rightarrow> Interpreter \<Rightarrow> error + (Control \<times> Interpreter)" where
  "frame_binary_left X f st =
     (case ast f of
        Some (AST loc fv (Binary left op right)) \<Rightarrow>
          (let lhs = scratch st;
               go_right = Inr (Recurse right,
                               update_top (\<lambda>g. g\<lparr>kind := FRAME_BINARY_RIGHT, val := lhs\<rparr>) st)
           in case lhs of
                BOOLEAN b \<Rightarrow>
                  if op = BOP_AND \<and> \<not> b
                  then Inr (Unwind, pop_frame (st\<lparr>scratch := makeBoolean False\<rparr>))
                  else if op = BOP_OR \<and> b
                  then Inr (Unwind, pop_frame (st\<lparr>scratch := makeBoolean True\<rparr>))
                  else go_right
              | _ \<Rightarrow> go_right)
      | _ \<Rightarrow> Inl (Undefined ''static_cast''))"

definition frame_binary_right ::
  "Native \<Rightarrow> Frame \<Rightarrow> Interpreter \<Rightarrow> error + (Control \<times> Interpreter)" where
  "frame_binary_right X f st =
     (case ast f of
        Some (AST loc fv (Binary left op right)) \<Rightarrow>
          (let lhs = val f; rhs = scratch st in
           if (type_of lhs = T_STRING \<or> type_of rhs = T_STRING) \<and> op = BOP_PLUS
           then Inr (Unwind, update_top (\<lambda>g. g\<lparr>kind := FRAME_STRING_CONCAT, val2 := rhs\<rparr>) st)
           else if op = BOP_MANIFEST_EQUAL
           then Inl (Abort ''INTERNAL ERROR: Equals not desugared'')
           else if op = BOP_MANIFEST_UNEQUAL
           then Inl (Abort ''INTERNAL ERROR: Notequals not desugared'')
           else if type_of lhs \<noteq> type_of rhs
           then Inl (makeError loc
                  (''Binary operator '' @ bop_string X op @ '' requires matching types, got ''
                   @ type_str X (type_of lhs) @ '' and '' @ type_str X (type_of rhs) @ ''.''))
           else bindE (binary_op X loc op lhs rhs st) (\<lambda>st1. Inr (Unwind, pop_frame st1)))
      | _ \<Rightarrow> Inl (Undefined ''static_cast''))"

definition frame_builtin_filter ::
  "Native \<Rightarrow> Frame \<Rightarrow> Interpreter \<Rightarrow> error + (Control \<times> Interpreter)" where
  "frame_builtin_filter X f st =
     (case (ast f, val f, val2 f) of
        (Some (AST loc fv (Apply target args tailstrict)), FUNCTION func, ARRAY arr) \<Rightarrow>
          (case scratch st of
             BOOLEAN b \<Rightarrow>
               if elementId f \<ge> length arr then Inl (Undefined ''index out of range'')
               else
                 (let ths = (if b then thunks f @ [arr ! elementId f] else thunks f);
                      eid = elementId f + 1
                  in if eid = length arr
                     then Inr (Unwind, pop_frame (st\<lparr>scratch := ARRAY ths\<rparr>))
                     else (case params func of
                             [] \<Rightarrow> Inl (Undefined ''index out of range'')
                           | p # _ \<Rightarrow>
                               bindE (new_call loc (ClosureEntity func) (cl_self func)
                                        (cl_offset func)
                                        (AList.update p (arr ! eid) (cl_upValues func))
                                        (update_top (\<lambda>g. g\<lparr>thunks := ths, elementId := eid\<rparr>) st))
                                 (\<lambda>st1. recurse (cl_body func) st1)))
           | v \<Rightarrow> Inl (makeError loc
                    (''filter function must return boolean, got: '' @ type_str X (type_of v))))
      | _ \<Rightarrow> Inl (Undefined ''static_cast''))"

definition builtin_filter ::
  "Native \<Rightarrow> LocationRange \<Rightarrow> Value list \<Rightarrow> Interpreter \<Rightarrow> error + (Control \<times> Interpreter)" where
  "builtin_filter X loc args st =
     bindE (validateBuiltinArgs X loc 12 args [T_FUNCTION, T_ARRAY]) (\<lambda>_.
       case args of
         [FUNCTION func, ARRAY arr] \<Rightarrow>
           (case params func of
              [p] \<Rightarrow>
                (case arr of
                   [] \<Rightarrow> Inr (Unwind, pop_frame (st\<lparr>scratch := ARRAY []\<rparr>))
                 | thunk # _ \<Rightarrow>
                     bindE (new_call loc (ClosureEntity func) (cl_self func) (cl_offset func)
                              (AList.update p thunk (cl_upValues func))
                              (update_top
                                 (\<lambda>g. g\<lparr>kind := FRAME_BUILTIN_FILTER, val := FUNCTION func,
                                        val2 := ARRAY arr, thunks := [], elementId := 0\<rparr>) st))
                       (\<lambda>st1. recurse (cl_body func) st1))
            | _ \<Rightarrow> Inl (makeError loc ''filter function takes 1 parameter.''))
       | _ \<Rightarrow> Inl (Undefined ''arguments''))"

definition builtin_extVar ::
  "Native \<Rightarrow> LocationRange \<Rightarrow> Value list \<Rightarrow> Interpreter \<Rightarrow> error + (Control \<times> Interpreter)" where
  "builtin_extVar X loc args st =
     bindE (validateBuiltinArgs X loc 23 args [T_STRING]) (\<lambda>_.
       case args of
         [STRING var] \<Rightarrow>
           (let var8 = encode_utf8 X var in
            case map_of (externalVars st) var8 of
              None \<Rightarrow> Inl (makeError loc (''Undefined external variable: '' @ var8))
            | Some (data, isCode) \<Rightarrow>
                if isCode
                then bindE (compile X (''<extvar:'' @ var8 @ ''>'') data)
                       (\<lambda>expr. Inr (Recurse expr, pop_frame st))
                else Inr (Unwind, pop_frame (st\<lparr>scratch := makeString (decode_utf8 X data)\<rparr>)))
       | _ \<Rightarrow> Inl (Undefined ''arguments''))"

text \<open>The \<^verbatim>\<open>switch (builtin)\<close>, once every argument thunk has been forced.\<close>

definition builtin_dispatch ::
  "Native \<Rightarrow> LocationRange \<Rightarrow> nat \<Rightarrow> Value list \<Rightarrow> Interpreter \<Rightarrow> error + (Control \<times> Interpreter)" where
  "builtin_dispatch X loc b args st =
     (if b = 0
      then bindE (builtin_makeArray X loc args st) (\<lambda>st1. Inr (Unwind, pop_frame st1))
      else if b = 12 then builtin_filter X loc args st
      else if b = 15
      then bindE (builtin_objectFieldsEx X loc args st) (\<lambda>st1. Inr (Unwind, pop_frame st1))
      else if b = 23 then builtin_extVar X loc args st
      else bindE (builtin_value X loc b args)
             (\<lambda>v. Inr (Unwind, pop_frame (st\<lparr>scratch := v\<rparr>))))"

definition frame_builtin_force_thunks ::
  "Native \<Rightarrow> Frame \<Rightarrow> Interpreter \<Rightarrow> error + (Control \<times> Interpreter)" where
  "frame_builtin_force_thunks X f st =
     (case (ast f, val f) of
        (Some (AST loc fv (Apply target args tailstrict)), FUNCTION func) \<Rightarrow>
          if elementId f = length (thunks f)
          then bindE (thunk_contents (thunks f) st)
                 (\<lambda>vs. builtin_dispatch X loc (builtin func) vs st)
          else if elementId f > length (thunks f) then Inl (Undefined ''index out of range'')
          else
            (let r = thunks f ! elementId f;
                 st1 = update_top (\<lambda>g. g\<lparr>elementId := elementId f + 1\<rparr>) st
             in bindE (deref r st1) (\<lambda>th.
                  if \<not> filled th then force_thunk loc r th st1
                  else Inr (Unwind, pop_frame st1)))
      | _ \<Rightarrow> Inl (Undefined ''static_cast''))"

definition frame_call ::
  "Native \<Rightarrow> Frame \<Rightarrow> Interpreter \<Rightarrow> error + (Control \<times> Interpreter)" where
  "frame_call X f st =
     (case frame_context f of
        ThunkEntity r \<Rightarrow>
          bindE (deref r st) (\<lambda>_. Inr (Unwind, pop_frame (fill_thunk r (scratch st) st)))
      | ClosureEntity closure \<Rightarrow>
          if elementId f < length (thunks f)
          then
            (let r = thunks f ! elementId f;
                 st1 = update_top (\<lambda>g. g\<lparr>elementId := elementId f + 1\<rparr>) st
             in bindE (deref r st1) (\<lambda>th.
                  if \<not> filled th then force_thunk (location f) r th st1
                  else Inr (Unwind, pop_frame st1)))
          else if length (thunks f) = 0 then Inr (Unwind, pop_frame st)
          else recurse (cl_body closure) (update_top (\<lambda>g. g\<lparr>thunks := [], elementId := 0\<rparr>) st)
      | _ \<Rightarrow> Inr (Unwind, pop_frame st))"

definition frame_error ::
  "Native \<Rightarrow> Frame \<Rightarrow> Interpreter \<Rightarrow> error + (Control \<times> Interpreter)" where
  "frame_error X f st =
     (case ast f of
        Some (AST loc fv (Error expr)) \<Rightarrow>
          (case scratch st of
             STRING msg \<Rightarrow> Inl (makeError loc (encode_utf8 X msg))
           | v \<Rightarrow> Inl (makeError loc
                    (''Error message must be string, got '' @ type_str X (type_of v) @ ''.'')))
      | _ \<Rightarrow> Inl (Undefined ''static_cast''))"

definition frame_if ::
  "Native \<Rightarrow> Frame \<Rightarrow> Interpreter \<Rightarrow> error + (Control \<times> Interpreter)" where
  "frame_if X f st =
     (case ast f of
        Some (AST loc fv (Conditional cond branchTrue branchFalse)) \<Rightarrow>
          (case scratch st of
             BOOLEAN b \<Rightarrow> Inr (Recurse (if b then branchTrue else branchFalse), pop_frame st)
           | v \<Rightarrow> Inl (makeError loc
                    (''Condition must be boolean, got '' @ type_str X (type_of v) @ ''.'')))
      | _ \<Rightarrow> Inl (Undefined ''static_cast''))"

definition frame_super_index ::
  "Native \<Rightarrow> Frame \<Rightarrow> Interpreter \<Rightarrow> error + (Control \<times> Interpreter)" where
  "frame_super_index X f st =
     (case ast f of
        Some (AST loc fv (SuperIndex index)) \<Rightarrow>
          (let (slf, off0) = getSelfBinding (istack st);
               off = off0 + 1
           in if off \<ge> countLeaves slf
              then Inl (makeError loc ''Attempt to use super when there is no super class.'')
              else (case scratch st of
                      STRING index_name \<Rightarrow>
                        bindE (object_index X loc slf index_name off (pop_frame st))
                          (\<lambda>(body, st1). Inr (Recurse body, st1))
                    | v \<Rightarrow> Inl (makeError loc
                             (''Super index must be string, got '' @ type_str X (type_of v)
                              @ ''.''))))
      | _ \<Rightarrow> Inl (Undefined ''static_cast''))"

definition frame_index_index ::
  "Native \<Rightarrow> Frame \<Rightarrow> Interpreter \<Rightarrow> error + (Control \<times> Interpreter)" where
  "frame_index_index X f st =
     (case ast f of
        Some (AST loc fv (Index target index)) \<Rightarrow>
          (case val f of
             ARRAY arr \<Rightarrow>
               (case scratch st of
                  DOUBLE d \<Rightarrow>
                    (let i = sint (double_to_long X d); sz = int (length arr) in
                     if i < 0 \<or> i \<ge> sz
                     then Inl (makeError loc
                            (''Array bounds error: '' @ to_string X i @ '' not within [0, ''
                             @ to_string X sz @ '')''))
                     else
                       (let r = arr ! nat i in
                        bindE (deref r st) (\<lambda>thunk.
                          if filled thunk
                          then Inr (Unwind, pop_frame (st\<lparr>scratch := content thunk\<rparr>))
                          else force_thunk loc r thunk (pop_frame st))))
                | v \<Rightarrow> Inl (makeError loc
                         (''Array index must be number, got '' @ type_str X (type_of v) @ ''.'')))
           | OBJECT obj \<Rightarrow>
               if obj = Nullptr then Inl (Abort ''assert(obj != nullptr)'')
               else (case scratch st of
                       STRING index_name \<Rightarrow>
                         bindE (object_index X loc obj index_name 0 (pop_frame st))
                           (\<lambda>(body, st1). Inr (Recurse body, st1))
                     | v \<Rightarrow> Inl (makeError loc
                              (''Object index must be string, got '' @ type_str X (type_of v)
                               @ ''.'')))
           | STRING str \<Rightarrow>
               (case scratch st of
                  DOUBLE d \<Rightarrow>
                    (let sz = int (length str); i = sint (double_to_long X d) in
                     if i < 0 \<or> i \<ge> sz
                     then Inl (makeError loc
                            (''String bounds error: '' @ to_string X i @ '' not within [0, ''
                             @ to_string X sz @ '')''))
                     else
                       (let c = str ! nat i in
                        Inr (Unwind,
                             pop_frame (st\<lparr>scratch := makeString (if c = 0 then [] else [c])\<rparr>))))
                | v \<Rightarrow> Inl (makeError loc
                         (''String index must be a number, got '' @ type_str X (type_of v)
                          @ ''.'')))
           | _ \<Rightarrow> Inl (Abort ''INTERNAL ERROR: Not object / array / string.''))
      | _ \<Rightarrow> Inl (Undefined ''static_cast''))"

definition frame_index_target ::
  "Native \<Rightarrow> Frame \<Rightarrow> Interpreter \<Rightarrow> error + (Control \<times> Interpreter)" where
  "frame_index_target X f st =
     (case ast f of
        Some (AST loc fv (Index target index)) \<Rightarrow>
          if type_of (scratch st) \<noteq> T_ARRAY \<and> type_of (scratch st) \<noteq> T_OBJECT
             \<and> type_of (scratch st) \<noteq> T_STRING
          then Inl (makeError loc
                 (''Can only index objects, strings, and arrays, got ''
                  @ type_str X (type_of (scratch st)) @ ''.''))
          else
            (let st1 = update_top (\<lambda>g. g\<lparr>val := scratch st, kind := FRAME_INDEX_INDEX\<rparr>) st in
             case scratch st of
               OBJECT slf \<Rightarrow>
                 if \<not> alreadyExecutingInvariants slf (istack st1)
                 then
                   (let st2 = update_top (\<lambda>g. g\<lparr>self := slf\<rparr>)
                                (push_frame (Frame_loc FRAME_INVARIANTS loc) st1);
                        (counter, ths, st3) = objectInvariants slf slf 0 [] st2;
                        st4 = update_top (\<lambda>g. g\<lparr>thunks := ths\<rparr>) st3
                    in case ths of
                         [] \<Rightarrow> Inr (Recurse index, st4)
                       | r # _ \<Rightarrow>
                           bindE (deref r st4) (\<lambda>thunk.
                             force_thunk loc r thunk
                               (update_top (\<lambda>g. g\<lparr>elementId := 1\<rparr>) st4)))
                 else Inr (Recurse index, st1)
             | _ \<Rightarrow> Inr (Recurse index, st1))
      | _ \<Rightarrow> Inl (Undefined ''static_cast''))"

definition frame_invariants ::
  "Native \<Rightarrow> nat \<Rightarrow> Frame \<Rightarrow> Interpreter \<Rightarrow> error + (Control \<times> Interpreter)" where
  "frame_invariants X initial_stack_size f st =
     (if elementId f \<ge> length (thunks f)
      then
        if stack_size (istack st) = initial_stack_size + 1 then Inr (Unwind, pop_frame st)
        else
          (let st1 = pop_frame st in
           bindE (top_frame st1) (\<lambda>f2.
             case ast f2 of
               Some (AST loc fv (Index target index)) \<Rightarrow> Inr (Recurse index, st1)
             | _ \<Rightarrow> Inl (Undefined ''static_cast'')))
      else
        (let r = thunks f ! elementId f;
             st1 = update_top (\<lambda>g. g\<lparr>elementId := elementId f + 1\<rparr>) st
         in bindE (deref r st1) (\<lambda>thunk. force_thunk (location f) r thunk st1)))"

definition frame_object ::
  "Native \<Rightarrow> Frame \<Rightarrow> Interpreter \<Rightarrow> error + (Control \<times> Interpreter)" where
  "frame_object X f st =
     (case ast f of
        Some (AST loc fv (DesugaredObject asserts flds)) \<Rightarrow>
          if fit f \<ge> length flds then Inl (Undefined ''end iterator'')
          else
            (let (h, name, body) = flds ! fit f in
             bindE
               (case scratch st of
                  NULL_TYPE \<Rightarrow> Inr (frame_objectFields f)
                | STRING fname \<Rightarrow>
                    if map_of (frame_objectFields f) fname \<noteq> None
                    then Inl (makeError loc
                           (''Duplicate field name: '' @ [CHR 0x22] @ encode_utf8 X fname
                            @ [CHR 0x22]))
                    else Inr (AList.update fname (h, body) (frame_objectFields f))
                | _ \<Rightarrow> Inl (makeError loc ''Field name was not a string.''))
               (\<lambda>ofs.
                  let st1 = update_top (\<lambda>g. g\<lparr>frame_objectFields := ofs, fit := fit f + 1\<rparr>) st
                  in if fit f + 1 \<noteq> length flds
                     then (let (h', name', body') = flds ! (fit f + 1) in Inr (Recurse name', st1))
                     else (let env = capture fv st1 in
                           Inr (Unwind,
                                pop_frame
                                  (makeObject (\<lambda>adr. HeapSimpleObject adr env ofs asserts) st1)))))
      | _ \<Rightarrow> Inl (Undefined ''static_cast''))"

definition frame_object_comp_array ::
  "Native \<Rightarrow> Frame \<Rightarrow> Interpreter \<Rightarrow> error + (Control \<times> Interpreter)" where
  "frame_object_comp_array X f st =
     (case ast f of
        Some (AST loc fv (ObjectComprehensionSimple field v ident arr_ast)) \<Rightarrow>
          (case scratch st of
             ARRAY arr \<Rightarrow>
               (case arr of
                  [] \<Rightarrow>
                    Inr (Unwind,
                         pop_frame (makeObject (\<lambda>adr. HeapComprehensionObject adr [] v ident []) st))
                | r # _ \<Rightarrow>
                    Inr (Recurse field,
                         update_top
                           (\<lambda>g. g\<lparr>kind := FRAME_OBJECT_COMP_ELEMENT, val := scratch st,
                                  bindings := AList.update ident r (bindings g),
                                  elementId := 0\<rparr>) st))
           | w \<Rightarrow> Inl (makeError loc
                    (''Object comprehension needs array, got '' @ type_str X (type_of w))))
      | _ \<Rightarrow> Inl (Undefined ''static_cast''))"

definition frame_object_comp_element ::
  "Native \<Rightarrow> Frame \<Rightarrow> Interpreter \<Rightarrow> error + (Control \<times> Interpreter)" where
  "frame_object_comp_element X f st =
     (case (ast f, val f) of
        (Some (AST loc fv (ObjectComprehensionSimple field v ident arr_ast)), ARRAY arr) \<Rightarrow>
          (case scratch st of
             STRING fname \<Rightarrow>
               if map_of (elements f) fname \<noteq> None
               then Inl (makeError loc
                      (''Duplicate field name: '' @ [CHR 0x22] @ encode_utf8 X fname
                       @ [CHR 0x22]))
               else if elementId f \<ge> length arr then Inl (Undefined ''index out of range'')
               else
                 (let els = AList.update fname (arr ! elementId f) (elements f);
                      eid = elementId f + 1;
                      st1 = update_top (\<lambda>g. g\<lparr>elements := els, elementId := eid\<rparr>) st
                  in if eid = length arr
                     then (let env = capture fv st1 in
                           Inr (Unwind,
                                pop_frame
                                  (makeObject
                                     (\<lambda>adr. HeapComprehensionObject adr env v ident els) st1)))
                     else Inr (Recurse field,
                               update_top
                                 (\<lambda>g. g\<lparr>bindings := AList.update ident (arr ! eid) (bindings g)\<rparr>)
                                 st1))
           | w \<Rightarrow> Inl (makeError loc (''field must be string, got: '' @ type_str X (type_of w))))
      | _ \<Rightarrow> Inl (Undefined ''static_cast''))"

definition frame_unary ::
  "Native \<Rightarrow> Frame \<Rightarrow> Interpreter \<Rightarrow> error + (Control \<times> Interpreter)" where
  "frame_unary X f st =
     (case ast f of
        Some (AST loc fv (Unary op expr)) \<Rightarrow>
          (case scratch st of
             BOOLEAN b \<Rightarrow>
               if op = UOP_NOT then Inr (Unwind, pop_frame (st\<lparr>scratch := makeBoolean (\<not> b)\<rparr>))
               else Inl (makeError loc
                      (''Unary operator '' @ uop_string X op @ '' does not operate on booleans.''))
           | DOUBLE d \<Rightarrow>
               (case op of
                  UOP_PLUS \<Rightarrow> Inr (Unwind, pop_frame st)
                | UOP_MINUS \<Rightarrow>
                    Inr (Unwind, pop_frame (st\<lparr>scratch := makeDouble (double_neg d)\<rparr>))
                | UOP_BITWISE_NOT \<Rightarrow>
                    Inr (Unwind,
                         pop_frame (st\<lparr>scratch :=
                           makeDouble (long_to_double X (NOT (double_to_long X d)))\<rparr>))
                | UOP_NOT \<Rightarrow>
                    Inl (makeError loc
                      (''Unary operator '' @ uop_string X op @ '' does not operate on numbers.'')))
           | w \<Rightarrow> Inl (makeError loc
                    (''Unary operator '' @ uop_string X op @ '' does not operate on type ''
                     @ type_str X (type_of w))))
      | _ \<Rightarrow> Inl (Undefined ''static_cast''))"

text \<open>
  One round of the loop for every frame kind but FRAME_STRING_CONCAT, whose case calls
  the manifester and is part of the recursion of \<open>evaluate\<close> below.
\<close>

definition frame_step ::
  "Native \<Rightarrow> nat \<Rightarrow> Interpreter \<Rightarrow> error + (Control \<times> Interpreter)" where
  "frame_step X initial_stack_size st =
     bindE (top_frame st) (\<lambda>f.
       case kind f of
         FRAME_APPLY_TARGET \<Rightarrow> frame_apply_target X f st
       | FRAME_BINARY_LEFT \<Rightarrow> frame_binary_left X f st
       | FRAME_BINARY_RIGHT \<Rightarrow> frame_binary_right X f st
       | FRAME_BUILTIN_FILTER \<Rightarrow> frame_builtin_filter X f st
       | FRAME_BUILTIN_FORCE_THUNKS \<Rightarrow> frame_builtin_force_thunks X f st
       | FRAME_CALL \<Rightarrow> frame_call X f st
       | FRAME_ERROR \<Rightarrow> frame_error X f st
       | FRAME_IF \<Rightarrow> frame_if X f st
       | FRAME_INDEX_TARGET \<Rightarrow> frame_index_target X f st
       | FRAME_INDEX_INDEX \<Rightarrow> frame_index_index X f st
       | FRAME_INVARIANTS \<Rightarrow> frame_invariants X initial_stack_size f st
       | FRAME_LOCAL \<Rightarrow> Inr (Unwind, pop_frame st)
       | FRAME_OBJECT \<Rightarrow> frame_object X f st
       | FRAME_OBJECT_COMP_ARRAY \<Rightarrow> frame_object_comp_array X f st
       | FRAME_OBJECT_COMP_ELEMENT \<Rightarrow> frame_object_comp_element X f st
       | FRAME_STRING_CONCAT \<Rightarrow> Inl (Undefined ''FRAME_STRING_CONCAT'')
       | FRAME_SUPER_INDEX \<Rightarrow> frame_super_index X f st
       | FRAME_UNARY \<Rightarrow> frame_unary X f st)"

section \<open>The driver and the manifester\<close>

text \<open>
  \<^verbatim>\<open>evaluate\<close> and \<^verbatim>\<open>manifestJson\<close> call each other (through FRAME_STRING_CONCAT and
  through the forcing of array elements and fields), and \<^verbatim>\<open>evaluate\<close> need not return.
  Both take fuel: one unit for every pass through \<^verbatim>\<open>recurse:\<close> or through the
  \<^verbatim>\<open>while\<close> loop, and one for every call of \<^verbatim>\<open>manifestJson\<close>; \<open>None\<close> is "out of
  fuel". A \<open>Level\<close> holds the two functions for one amount of fuel. Every definition that
  calls them takes the level \<open>D\<close> with one unit less: \<open>l_evaluate D (Recurse a) i\<close> is
  the call \<^verbatim>\<open>evaluate(a, i)\<close>, and \<open>l_evaluate D Unwind i\<close> goes on in the \<^verbatim>\<open>while\<close> loop.
\<close>

record Level =
  l_evaluate :: "Control \<Rightarrow> nat \<Rightarrow> Interpreter \<Rightarrow> (error + Interpreter) option"
  l_manifestJson ::
    "LocationRange \<Rightarrow> bool \<Rightarrow> String \<Rightarrow> Interpreter \<Rightarrow> (error + String \<times> Interpreter) option"

definition nl :: String where
  "nl = [10]"

definition runInvariants ::
  "Native \<Rightarrow> Level \<Rightarrow> LocationRange \<Rightarrow> HeapObject \<Rightarrow> Interpreter \<Rightarrow> (error + Interpreter) option" where
  "runInvariants X D loc slf st =
     (if alreadyExecutingInvariants slf (istack st) then Some (Inr st)
      else
        (let st1 = push_frame (Frame_loc FRAME_INVARIANTS loc) st;
             (counter, ths, st2) = objectInvariants slf slf 0 [] st1;
             st3 = update_top (\<lambda>g. g\<lparr>thunks := ths\<rparr>) st2
         in case ths of
              [] \<Rightarrow> Some (Inr (pop_frame st3))
            | r # _ \<Rightarrow>
                (case deref r st3 of
                   Inl e \<Rightarrow> Some (Inl e)
                 | Inr thunk \<Rightarrow>
                     (case new_call loc (ThunkEntity r) (th_self thunk) (th_offset thunk)
                             (th_upValues thunk)
                             (update_top (\<lambda>g. g\<lparr>elementId := 1, self := slf\<rparr>) st3) of
                        Inl e \<Rightarrow> Some (Inl e)
                      | Inr st4 \<Rightarrow>
                          (case th_body thunk of
                             None \<Rightarrow> Some (Inl (Undefined ''null AST''))
                           | Some body \<Rightarrow>
                               l_evaluate D (Recurse body) (stack_size (istack st3)) st4)))))"

text \<open>
  The loop of \<^verbatim>\<open>manifestJson\<close> over the thunks of an array. \<open>force_element\<close> is the
  \<^verbatim>\<open>if (thunk->filled)\<close> of its body; the rest of the body manifests the scratch value,
  restores scratch from the top frame and pops it. The loops return what they wrote to
  the stream.
\<close>

definition force_element ::
  "Level \<Rightarrow> LocationRange \<Rightarrow> thunk_ref \<Rightarrow> HeapThunk \<Rightarrow> Interpreter \<Rightarrow> (error + Interpreter) option" where
  "force_element D loc r thunk st =
     (if filled thunk
      then (case new_call loc (ThunkEntity r) Nullptr 0 [] st of
              Inl e \<Rightarrow> Some (Inl e)
            | Inr st1 \<Rightarrow>
                Some (Inr ((update_top (\<lambda>g. g\<lparr>val := scratch st\<rparr>) st1)
                             \<lparr>scratch := content thunk\<rparr>)))
      else (case new_call loc (ThunkEntity r) (th_self thunk) (th_offset thunk)
                   (th_upValues thunk) st of
              Inl e \<Rightarrow> Some (Inl e)
            | Inr st1 \<Rightarrow>
                (case th_body thunk of
                   None \<Rightarrow> Some (Inl (Undefined ''null AST''))
                 | Some body \<Rightarrow>
                     l_evaluate D (Recurse body) (stack_size (istack st1))
                       (update_top (\<lambda>g. g\<lparr>val := scratch st\<rparr>) st1))))"

fun manifest_elements ::
  "Level \<Rightarrow> LocationRange \<Rightarrow> bool \<Rightarrow> String \<Rightarrow> thunk_ref list \<Rightarrow> String \<Rightarrow> String
     \<Rightarrow> Interpreter \<Rightarrow> (error + String \<times> Interpreter) option" where
  "manifest_elements D loc multiline indent2 [] prefix ss st = Some (Inr (ss, st))"
| "manifest_elements D loc multiline indent2 (r # rs) prefix ss st =
     (case deref r st of
        Inl e \<Rightarrow> Some (Inl e)
      | Inr thunk \<Rightarrow>
          (case force_element D loc r thunk st of
             None \<Rightarrow> None
           | Some (Inl e) \<Rightarrow> Some (Inl e)
           | Some (Inr st2) \<Rightarrow>
               (case l_manifestJson D
                       (case th_body thunk of None \<Rightarrow> loc | Some body \<Rightarrow> ast_location body)
                       multiline indent2 st2 of
                  None \<Rightarrow> None
                | Some (Inl e) \<Rightarrow> Some (Inl e)
                | Some (Inr (element, st3)) \<Rightarrow>
                    (case top_frame st3 of
                       Inl e \<Rightarrow> Some (Inl e)
                     | Inr g \<Rightarrow>
                         manifest_elements D loc multiline indent2 rs
                           (if multiline then U '','' @ nl else U '', '')
                           (ss @ prefix @ indent2 @ element)
                           (pop_frame (st3\<lparr>scratch := val g\<rparr>))))))"

fun manifest_fields ::
  "Native \<Rightarrow> Level \<Rightarrow> LocationRange \<Rightarrow> bool \<Rightarrow> String \<Rightarrow> HeapObject \<Rightarrow> Identifier list \<Rightarrow> String
     \<Rightarrow> String \<Rightarrow> Interpreter \<Rightarrow> (error + String \<times> Interpreter) option" where
  "manifest_fields X D loc multiline indent2 obj [] prefix ss st = Some (Inr (ss, st))"
| "manifest_fields X D loc multiline indent2 obj (fld # rest) prefix ss st =
     (case object_index X loc obj fld 0 st of
        Inl e \<Rightarrow> Some (Inl e)
      | Inr (body, st1) \<Rightarrow>
          (case l_evaluate D (Recurse body) (stack_size (istack st1))
                  (update_top (\<lambda>g. g\<lparr>val := scratch st1\<rparr>) st1) of
             None \<Rightarrow> None
           | Some (Inl e) \<Rightarrow> Some (Inl e)
           | Some (Inr st2) \<Rightarrow>
               (case l_manifestJson D (ast_location body) multiline indent2 st2 of
                  None \<Rightarrow> None
                | Some (Inl e) \<Rightarrow> Some (Inl e)
                | Some (Inr (vstr, st3)) \<Rightarrow>
                    (case top_frame st3 of
                       Inl e \<Rightarrow> Some (Inl e)
                     | Inr g \<Rightarrow>
                         manifest_fields X D loc multiline indent2 obj rest
                           (if multiline then U '','' @ nl else U '', '')
                           (ss @ prefix @ indent2 @ [34] @ fld @ [34] @ U '': '' @ vstr)
                           (pop_frame (st3\<lparr>scratch := val g\<rparr>))))))"

definition manifest_leaf :: "Native \<Rightarrow> LocationRange \<Rightarrow> Value \<Rightarrow> error + String" where
  "manifest_leaf X loc v =
     (case v of
        BOOLEAN b \<Rightarrow> Inr (if b then U ''true'' else U ''false'')
      | DOUBLE d \<Rightarrow> Inr (decode_utf8 X (unparse_number X d))
      | FUNCTION func \<Rightarrow>
          Inl (makeError loc (''Couldn'' @ [CHR 0x27] @ ''t manifest function in JSON output.''))
      | NULL_TYPE \<Rightarrow> Inr (U ''null'')
      | STRING str \<Rightarrow> Inr (string_unparse X str)
      | _ \<Rightarrow> Inl (Undefined ''not a leaf''))"

text \<open>The body of \<^verbatim>\<open>manifestJson\<close>.\<close>

definition manifestJson_body ::
  "Native \<Rightarrow> Level \<Rightarrow> LocationRange \<Rightarrow> bool \<Rightarrow> String \<Rightarrow> Interpreter
     \<Rightarrow> (error + String \<times> Interpreter) option" where
  "manifestJson_body X D loc multiline indent st =
     (case scratch st of
        ARRAY arr \<Rightarrow>
          if arr = [] then Some (Inr (U ''[ ]'', st))
          else
            (case manifest_elements D loc multiline
                    (if multiline then indent @ U ''   '' else indent) arr
                    (if multiline then U ''['' @ nl else U ''['') [] st of
               None \<Rightarrow> None
             | Some (Inl e) \<Rightarrow> Some (Inl e)
             | Some (Inr (ss, st1)) \<Rightarrow>
                 Some (Inr (ss @ (if multiline then nl else []) @ indent @ U '']'', st1)))
      | OBJECT obj \<Rightarrow>
          (case runInvariants X D loc obj st of
             None \<Rightarrow> None
           | Some (Inl e) \<Rightarrow> Some (Inl e)
           | Some (Inr st1) \<Rightarrow>
               (let flds = sort (remdups (objectFields obj True)) in
                if flds = [] then Some (Inr (U ''{ }'', st1))
                else
                  (case manifest_fields X D loc multiline
                          (if multiline then indent @ U ''   '' else indent) obj flds
                          (if multiline then U ''{'' @ nl else U ''{'') [] st1 of
                     None \<Rightarrow> None
                   | Some (Inl e) \<Rightarrow> Some (Inl e)
                   | Some (Inr (ss, st2)) \<Rightarrow>
                       Some (Inr (ss @ (if multiline then nl else []) @ indent @ U ''}'', st2)))))
      | v \<Rightarrow>
          (case manifest_leaf X loc v of
             Inl e \<Rightarrow> Some (Inl e)
           | Inr str \<Rightarrow> Some (Inr (str, st))))"

text \<open>
  The case FRAME_STRING_CONCAT: \<open>coerce\<close> is one operand, \<^verbatim>\<open>toString\<close> being
  \<^verbatim>\<open>manifestJson(loc, false, U"")\<close>.
\<close>

definition coerce ::
  "Level \<Rightarrow> Value \<Rightarrow> LocationRange \<Rightarrow> Interpreter \<Rightarrow> (error + String \<times> Interpreter) option" where
  "coerce D v loc st =
     (case v of
        STRING str \<Rightarrow> Some (Inr (str, st))
      | _ \<Rightarrow> l_manifestJson D loc False [] (st\<lparr>scratch := v\<rparr>))"

definition string_concat :: "Level \<Rightarrow> Frame \<Rightarrow> Interpreter \<Rightarrow> (error + Interpreter) option" where
  "string_concat D f st =
     (case ast f of
        Some (AST loc fv (Binary left op right)) \<Rightarrow>
          (case coerce D (val f) (ast_location left) st of
             None \<Rightarrow> None
           | Some (Inl e) \<Rightarrow> Some (Inl e)
           | Some (Inr (l, st1)) \<Rightarrow>
               (case coerce D (val2 f) (ast_location right) st1 of
                  None \<Rightarrow> None
                | Some (Inl e) \<Rightarrow> Some (Inl e)
                | Some (Inr (r, st2)) \<Rightarrow>
                    Some (Inr (pop_frame (st2\<lparr>scratch := makeString (l @ r)\<rparr>)))))
      | _ \<Rightarrow> Some (Inl (Undefined ''static_cast'')))"

text \<open>One pass of \<^verbatim>\<open>evaluate\<close>: through the \<^verbatim>\<open>switch\<close> on the AST, or through the loop.\<close>

definition evaluate_body ::
  "Native \<Rightarrow> Level \<Rightarrow> Control \<Rightarrow> nat \<Rightarrow> Interpreter \<Rightarrow> (error + Interpreter) option" where
  "evaluate_body X D c initial_stack_size st =
     (case c of
        Recurse a \<Rightarrow>
          (case ast_step X a st of
             Inl e \<Rightarrow> Some (Inl e)
           | Inr (c1, st1) \<Rightarrow> l_evaluate D c1 initial_stack_size st1)
      | Unwind \<Rightarrow>
          if stack_size (istack st) > initial_stack_size
          then (case top_frame st of
                  Inl e \<Rightarrow> Some (Inl e)
                | Inr f \<Rightarrow>
                    if kind f = FRAME_STRING_CONCAT
                    then (case string_concat D f st of
                            None \<Rightarrow> None
                          | Some (Inl e) \<Rightarrow> Some (Inl e)
                          | Some (Inr st1) \<Rightarrow> l_evaluate D Unwind initial_stack_size st1)
                    else (case frame_step X initial_stack_size st of
                            Inl e \<Rightarrow> Some (Inl e)
                          | Inr (c1, st1) \<Rightarrow> l_evaluate D c1 initial_stack_size st1))
          else Some (Inr st))"

primrec level :: "Native \<Rightarrow> nat \<Rightarrow> Level" where
  "level X 0 = \<lparr>l_evaluate = (\<lambda>c i st. None), l_manifestJson = (\<lambda>loc multiline indent st. None)\<rparr>"
| "level X (Suc n) =
     \<lparr>l_evaluate = evaluate_body X (level X n), l_manifestJson = manifestJson_body X (level X n)\<rparr>"

definition evaluate ::
  "Native \<Rightarrow> nat \<Rightarrow> Control \<Rightarrow> nat \<Rightarrow> Interpreter \<Rightarrow> (error + Interpreter) option" where
  "evaluate X fuel = l_evaluate (level X fuel)"

definition manifestJson ::
  "Native \<Rightarrow> nat \<Rightarrow> LocationRange \<Rightarrow> bool \<Rightarrow> String \<Rightarrow> Interpreter
     \<Rightarrow> (error + String \<times> Interpreter) option" where
  "manifestJson X fuel = l_manifestJson (level X fuel)"

definition manifestString :: "Native \<Rightarrow> LocationRange \<Rightarrow> Interpreter \<Rightarrow> error + String" where
  "manifestString X loc st =
     (case scratch st of
        STRING str \<Rightarrow> Inr str
      | v \<Rightarrow> Inl (makeError loc (''Expected string result, got: '' @ type_str X (type_of v))))"

definition jsonnet_vm_execute ::
  "Native \<Rightarrow> nat \<Rightarrow> AST \<Rightarrow> (string \<times> (string \<times> bool)) list \<Rightarrow> nat \<Rightarrow> bool
     \<Rightarrow> (error + string) option" where
  "jsonnet_vm_execute X fuel a ext_vars max_stack string_output =
     (case evaluate X fuel (Recurse a) 0 (Interpreter_new ext_vars max_stack) of
        None \<Rightarrow> None
      | Some (Inl e) \<Rightarrow> Some (Inl e)
      | Some (Inr vm) \<Rightarrow>
          if string_output
          then (case manifestString X (LocationRange_msg ''During manifestation'') vm of
                  Inl e \<Rightarrow> Some (Inl e)
                | Inr str \<Rightarrow> Some (Inr (encode_utf8 X str)))
          else (case manifestJson X fuel (LocationRange_msg ''During manifestation'') True [] vm of
                  None \<Rightarrow> None
                | Some (Inl e) \<Rightarrow> Some (Inl e)
                | Some (Inr (str, vm1)) \<Rightarrow> Some (Inr (encode_utf8 X str))))"

section \<open>Definitions for the statements\<close>

text \<open>
  The definitions of this section are not translations of code: they say in the words
  of the specification what the code above is compared with.

  The prototype leaves of an object in the order the specification gives (depth first,
  the right subtree before the left), whether a leaf has a field, and the search of
  section 4.6: skip the first \<open>k\<close> leaves, take the first leaf after them that has the
  field, with its position.
\<close>

fun leaves :: "HeapObject \<Rightarrow> HeapObject list" where
  "leaves (HeapExtendedObject a left right) = leaves right @ leaves left"
| "leaves obj = [obj]"

fun has_field :: "Identifier \<Rightarrow> HeapObject \<Rightarrow> bool" where
  "has_field f (HeapSimpleObject a up flds asserts) = (map_of flds f \<noteq> None)"
| "has_field f (HeapComprehensionObject a up v ident compValues) = (map_of compValues f \<noteq> None)"
| "has_field f obj = False"

definition spec_find :: "Identifier \<Rightarrow> nat \<Rightarrow> HeapObject \<Rightarrow> (nat \<times> HeapObject) option" where
  "spec_find f k obj =
     List.find (\<lambda>(i, leaf). k \<le> i \<and> has_field f leaf) (enumerate 0 (leaves obj))"

text \<open>
  The body of a field of a leaf, and the bindings its evaluation starts with: the
  captured environment of the leaf and, in a comprehension object, the loop variable
  bound to the thunk of the field.
\<close>

fun leaf_body :: "HeapObject \<Rightarrow> Identifier \<Rightarrow> AST option" where
  "leaf_body (HeapSimpleObject a up flds asserts) f = map_option snd (map_of flds f)"
| "leaf_body (HeapComprehensionObject a up v ident compValues) f = Some v"
| "leaf_body obj f = None"

fun leaf_upValues :: "HeapObject \<Rightarrow> BindingFrame" where
  "leaf_upValues (HeapSimpleObject a up flds asserts) = up"
| "leaf_upValues (HeapComprehensionObject a up v ident compValues) = up"
| "leaf_upValues obj = []"

fun leaf_bindings :: "HeapObject \<Rightarrow> Identifier \<Rightarrow> BindingFrame" where
  "leaf_bindings (HeapSimpleObject a up flds asserts) f = up"
| "leaf_bindings (HeapComprehensionObject a up v ident compValues) f =
     (case map_of compValues f of None \<Rightarrow> up | Some th \<Rightarrow> AList.update ident th up)"
| "leaf_bindings obj f = []"

text \<open>
  The merge of the specification: the hide of the right side stays unless it is INHERIT,
  which gives way to the hide of the left side. \<open>hide_map\<close> is the map that
  \<^verbatim>\<open>objectFields(obj, true)\<close> filters.
\<close>

definition merge_hide :: "Hide option \<Rightarrow> Hide option \<Rightarrow> Hide option" where
  "merge_hide right left =
     (case right of
        None \<Rightarrow> left
      | Some h \<Rightarrow>
          if h = INHERIT then (case left of None \<Rightarrow> Some INHERIT | Some h' \<Rightarrow> Some h')
          else Some h)"

definition hide_map :: "HeapObject \<Rightarrow> (Identifier \<times> Hide) list" where
  "hide_map obj = fst (objectFields_aux obj 0 0 True)"

text \<open>
  The stacks that the operations of \<^verbatim>\<open>class Stack\<close> build, the way the interpreter uses
  them: \<^verbatim>\<open>newFrame\<close> for every kind but FRAME_CALL, \<^verbatim>\<open>newCall\<close>, \<^verbatim>\<open>pop\<close> of a stack that
  is not empty, and a change of the top frame that does not make a CALL frame of another
  frame or another frame of a CALL frame. \<open>live_calls\<close> counts the CALL frames.
\<close>

inductive stack_reachable :: "nat \<Rightarrow> Stack \<Rightarrow> bool" where
  init: "stack_reachable n (Stack_new n)"
| frame: "stack_reachable n S \<Longrightarrow> kind f \<noteq> FRAME_CALL \<Longrightarrow> stack_reachable n (newFrame f S)"
| call: "stack_reachable n S \<Longrightarrow> newCall loc ctx slf off up S = Inr S' \<Longrightarrow> stack_reachable n S'"
| pop: "stack_reachable n S \<Longrightarrow> stack S \<noteq> [] \<Longrightarrow> stack_reachable n (pop S)"
| top: "stack_reachable n S \<Longrightarrow> stack S = f # fs \<Longrightarrow> isCall (g f) = isCall f
        \<Longrightarrow> stack_reachable n (S\<lparr>stack := g f # fs\<rparr>)"

definition live_calls :: "Stack \<Rightarrow> nat" where
  "live_calls S = length (filter isCall (stack S))"

text \<open>
  A platform for the closed examples: strings are ASCII, arithmetic on finite doubles is
  exact, the functions of cmath that leave the rationals return NaN, numbers are
  unparsed as their integer part, nothing can be imported or compiled.
\<close>

fun show_nat :: "nat \<Rightarrow> string" where
  "show_nat n =
     (if n < 10 then [char_of (48 + n)] else show_nat (n div 10) @ [char_of (48 + n mod 10)])"

definition show_int :: "int \<Rightarrow> string" where
  "show_int i = (if i < 0 then ''-'' @ show_nat (nat (- i)) else show_nat (nat i))"

definition exact2 :: "(rat \<Rightarrow> rat \<Rightarrow> rat) \<Rightarrow> double \<Rightarrow> double \<Rightarrow> double" where
  "exact2 g a b = (case (a, b) of (Finite x, Finite y) \<Rightarrow> Finite (g x y) | _ \<Rightarrow> NaN)"

definition exact1 :: "(rat \<Rightarrow> rat) \<Rightarrow> double \<Rightarrow> double" where
  "exact1 g a = (case a of Finite x \<Rightarrow> Finite (g x) | _ \<Rightarrow> a)"

definition truncate :: "double \<Rightarrow> int" where
  "truncate d = (case d of Finite x \<Rightarrow> (if x < 0 then \<lceil>x\<rceil> else \<lfloor>x\<rfloor>) | _ \<Rightarrow> 0)"

definition Native_exact :: Native where
  "Native_exact =
     \<lparr>encode_utf8 = map char_of,
      decode_utf8 = map of_char,
      type_str = (\<lambda>t. case t of
         T_ARRAY \<Rightarrow> ''array'' | T_BOOLEAN \<Rightarrow> ''boolean'' | T_DOUBLE \<Rightarrow> ''number''
       | T_FUNCTION \<Rightarrow> ''function'' | T_NULL_TYPE \<Rightarrow> ''null'' | T_OBJECT \<Rightarrow> ''object''
       | T_STRING \<Rightarrow> ''string''),
      bop_string = (\<lambda>op. case op of
         BOP_MULT \<Rightarrow> ''*'' | BOP_DIV \<Rightarrow> ''/'' | BOP_PLUS \<Rightarrow> ''+'' | BOP_MINUS \<Rightarrow> ''-''
       | BOP_SHIFT_L \<Rightarrow> ''<<'' | BOP_SHIFT_R \<Rightarrow> ''>>'' | BOP_GREATER \<Rightarrow> ''>''
       | BOP_GREATER_EQ \<Rightarrow> ''>='' | BOP_LESS \<Rightarrow> ''<'' | BOP_LESS_EQ \<Rightarrow> ''<=''
       | BOP_MANIFEST_EQUAL \<Rightarrow> ''=='' | BOP_MANIFEST_UNEQUAL \<Rightarrow> ''!=''
       | BOP_BITWISE_AND \<Rightarrow> ''&'' | BOP_BITWISE_XOR \<Rightarrow> ''^'' | BOP_BITWISE_OR \<Rightarrow> ''|''
       | BOP_AND \<Rightarrow> ''&&'' | BOP_OR \<Rightarrow> ''||''),
      uop_string = (\<lambda>op. case op of
         UOP_NOT \<Rightarrow> ''!'' | UOP_BITWISE_NOT \<Rightarrow> ''~'' | UOP_PLUS \<Rightarrow> ''+'' | UOP_MINUS \<Rightarrow> ''-''),
      unparse_number = (\<lambda>d. case d of Finite x \<Rightarrow> show_int \<lfloor>x\<rfloor> | _ \<Rightarrow> ''nan''),
      string_unparse = (\<lambda>str. [34] @ str @ [34]),
      builtin_name = (\<lambda>b. U ''builtin''),
      CODEPOINT_MAX = 1114112,
      compile = (\<lambda>filename input. Inl (StaticError ''no parser'')),
      importCallback = (\<lambda>dir path. (''no such file'', [], False)),
      to_string = show_int,
      double_add = exact2 (+),
      double_sub = exact2 (-),
      double_mul = exact2 (*),
      double_div = exact2 (/),
      std_pow = (\<lambda>x y. NaN),
      std_floor = exact1 (\<lambda>x. of_int \<lfloor>x\<rfloor>),
      std_ceil = exact1 (\<lambda>x. of_int \<lceil>x\<rceil>),
      std_sqrt = (\<lambda>x. NaN),
      std_sin = (\<lambda>x. NaN),
      std_cos = (\<lambda>x. NaN),
      std_tan = (\<lambda>x. NaN),
      std_asin = (\<lambda>x. NaN),
      std_acos = (\<lambda>x. NaN),
      std_atan = (\<lambda>x. NaN),
      std_log = (\<lambda>x. NaN),
      std_exp = (\<lambda>x. NaN),
      std_frexp = (\<lambda>x. (NaN, 0)),
      std_fmod = (\<lambda>x y. NaN),
      double_to_long = (\<lambda>d. word_of_int (truncate d)),
      long_to_double = (\<lambda>w. Finite (of_int (sint w))),
      size_to_double = (\<lambda>n. Finite (of_nat n)),
      int_to_double = (\<lambda>i. Finite (of_int i)),
      shift_left = (\<lambda>a b. push_bit (unat b) a),
      shift_right = (\<lambda>a b. signed_drop_bit (unat b) a)\<rparr>"

text \<open>The values of the closed examples.\<close>

definition loc0 :: LocationRange where
  "loc0 = LocationRange ''example.jsonnet'' ((1, 1), (1, 2))"

definition lit_true :: AST where
  "lit_true = AST loc0 [] (LiteralBoolean True)"

definition lit_null :: AST where
  "lit_null = AST loc0 [] LiteralNull"

definition obj_f :: HeapObject where
  "obj_f = HeapSimpleObject 0 [] [(U ''f'', INHERIT, lit_true)] []"

definition obj_hidden_f :: HeapObject where
  "obj_hidden_f = HeapSimpleObject 1 [] [(U ''f'', HIDDEN, lit_true)] []"

definition obj_comp :: HeapObject where
  "obj_comp = HeapComprehensionObject 2 [] lit_true (U ''k'') [(U ''a'', 0)]"

definition local_frame :: Frame where
  "local_frame = Frame_loc FRAME_LOCAL loc0"

definition tail_frame :: Frame where
  "tail_frame = (call_frame loc0 NoEntity Nullptr 0 [])\<lparr>tailCall := True\<rparr>"

definition super_state :: "HeapObject \<Rightarrow> nat \<Rightarrow> Interpreter" where
  "super_state slf off =
     (Interpreter_new [] 10)
       \<lparr>scratch := STRING (U ''f''),
        istack := \<lparr>calls = 1, limit = 10,
                   stack = [Frame_ast FRAME_SUPER_INDEX
                              (AST loc0 [] (SuperIndex (AST loc0 [] (LiteralString (U ''f''))))),
                            call_frame loc0 (ObjectEntity slf) slf off []],
                   low_water = 0\<rparr>\<rparr>"

definition trim_example :: "Frame \<Rightarrow> Stack" where
  "trim_example c =
     \<lparr>calls = 2, limit = 10,
      stack = [local_frame, c, call_frame loc0 NoEntity Nullptr 0 []], low_water = 3\<rparr>"

definition obj_fg :: HeapObject where
  "obj_fg =
     HeapExtendedObject 5
       (HeapSimpleObject 4 [] [(U ''f'', VISIBLE, lit_null), (U ''g'', INHERIT, lit_null)] [])
       obj_hidden_f"

definition manifest_state :: "HeapObject \<Rightarrow> Interpreter" where
  "manifest_state obj = (Interpreter_new [] 10)\<lparr>scratch := OBJECT obj\<rparr>"

definition index_state :: "HeapObject \<Rightarrow> Interpreter" where
  "index_state obj =
     (Interpreter_new [] 10)
       \<lparr>scratch := STRING (U ''f''),
        istack := \<lparr>calls = 0, limit = 10,
                   stack = [(Frame_ast FRAME_INDEX_INDEX
                               (AST loc0 [] (Index lit_null (AST loc0 [] (LiteralString (U ''f''))))))
                              \<lparr>val := OBJECT obj\<rparr>],
                   low_water = 0\<rparr>\<rparr>"

definition prog_array :: AST where
  "prog_array = AST loc0 [] (Array [lit_null])"

definition array_vm :: Interpreter where
  "array_vm =
     (Interpreter_new [] 10)
       \<lparr>heap := [(new_thunk idArrayElement Nullptr 0 (Some lit_null))\<lparr>th_upValues := []\<rparr>],
        scratch := ARRAY [0]\<rparr>"

definition thunk_x :: HeapThunk where
  "thunk_x = new_thunk (U ''x'') Nullptr 0 (Some lit_true)"

definition var_frame :: Frame where
  "var_frame = (Frame_loc FRAME_LOCAL loc0)\<lparr>bindings := [(U ''x'', 0)]\<rparr>"

definition var_state :: "HeapThunk \<Rightarrow> Interpreter" where
  "var_state th =
     (Interpreter_new [] 10)
       \<lparr>heap := [th],
        istack := \<lparr>calls = 0, limit = 10, stack = [var_frame], low_water = 0\<rparr>\<rparr>"

definition forced_state :: Interpreter where
  "forced_state =
     (var_state thunk_x)
       \<lparr>scratch := BOOLEAN True,
        istack := \<lparr>calls = 1, limit = 10,
                   stack = [call_frame loc0 (ThunkEntity 0) Nullptr 0 [], var_frame],
                   low_water = 0\<rparr>\<rparr>"

definition prog_not :: AST where
  "prog_not = AST loc0 [] (Unary UOP_NOT lit_true)"

definition call_state :: Interpreter where
  "call_state =
     (Interpreter_new [] 10)
       \<lparr>istack := \<lparr>calls = 1, limit = 10, stack = [call_frame loc0 NoEntity Nullptr 0 []],
                   low_water = 1\<rparr>\<rparr>"

text \<open>
  What \<^verbatim>\<open>manifestJson\<close> writes for an object, given the names of the fields it writes
  and the text of their values: the fields in the order given, each as its name in
  double quotes, a colon and its value.
\<close>

fun render_fields :: "bool \<Rightarrow> String \<Rightarrow> String \<Rightarrow> (Identifier \<times> String) list \<Rightarrow> String" where
  "render_fields multiline indent2 prefix [] = []"
| "render_fields multiline indent2 prefix ((f, v) # rest) =
     prefix @ indent2 @ [34] @ f @ [34] @ U '': '' @ v
       @ render_fields multiline indent2 (if multiline then U '','' @ nl else U '', '') rest"

definition render_object :: "bool \<Rightarrow> String \<Rightarrow> (Identifier \<times> String) list \<Rightarrow> String" where
  "render_object multiline indent fvs =
     (if fvs = [] then U ''{ }''
      else render_fields multiline (if multiline then indent @ U ''   '' else indent)
             (if multiline then U ''{'' @ nl else U ''{'') fvs
           @ (if multiline then nl else []) @ indent @ U ''}'')"

text \<open>
  The stack during a call of \<^verbatim>\<open>evaluate\<close>. \<open>lower i S\<close> is the bottom \<open>i\<close> frames of
  \<open>S\<close>. \<open>keeps B m S\<close>: the frames \<open>B\<close> are still the bottom of the stack, and the
  stack has not been shorter than \<open>B\<close> since its low-water mark was at least \<open>m\<close>;
  \<open>keeps_above\<close>: and there is a frame above \<open>B\<close>. A frame \<open>stops\<close> the scan of
  \<^verbatim>\<open>tailCallTrimStack\<close> if it is an INVARIANTS frame or a CALL frame that is not a tail
  call; \<open>stale B m S\<close>: all the frames above \<open>B\<close> are such frames. \<open>ev_ok\<close> and \<open>mj_ok\<close>
  say of the two functions of a level what is proved of \<^verbatim>\<open>evaluate\<close> and
  \<^verbatim>\<open>manifestJson\<close> by induction on the fuel.
\<close>

definition lower :: "nat \<Rightarrow> Stack \<Rightarrow> Frame list" where
  "lower i S = drop (length (stack S) - i) (stack S)"

definition keeps :: "Frame list \<Rightarrow> nat \<Rightarrow> Stack \<Rightarrow> bool" where
  "keeps B m S = ((\<exists>xs. stack S = xs @ B) \<and> min (length B) m \<le> low_water S)"

definition keeps_above :: "Frame list \<Rightarrow> nat \<Rightarrow> Stack \<Rightarrow> bool" where
  "keeps_above B m S = ((\<exists>f xs. stack S = f # xs @ B) \<and> min (length B) m \<le> low_water S)"

definition stops :: "Frame \<Rightarrow> bool" where
  "stops f = (kind f = FRAME_INVARIANTS \<or> (kind f = FRAME_CALL \<and> \<not> tailCall f))"

definition stale :: "Frame list \<Rightarrow> nat \<Rightarrow> Stack \<Rightarrow> bool" where
  "stale B m S =
     ((\<exists>xs. stack S = xs @ B \<and> list_all stops xs) \<and> min (length B) m \<le> low_water S)"

definition ev_ok :: "Level \<Rightarrow> bool" where
  "ev_ok D =
     (\<forall>c st st' B m.
        l_evaluate D c (length B) st = Some (Inr st') \<longrightarrow> keeps B m (istack st) \<longrightarrow>
        trim_scan B = None \<longrightarrow>
        stack (istack st') = B \<and> min (length B) m \<le> low_water (istack st'))"

definition mj_ok :: "Level \<Rightarrow> bool" where
  "mj_ok D =
     (\<forall>loc multiline indent st s st' B m.
        l_manifestJson D loc multiline indent st = Some (Inr (s, st')) \<longrightarrow>
        stale B m (istack st) \<longrightarrow> trim_scan B = None \<longrightarrow> stale B m (istack st'))"

section \<open>Lemmas\<close>

lemma bindE_simps [simp]:
  "bindE (Inl e) k = Inl e" "bindE (Inr x) k = k x"
  by (simp_all add: bindE_def)

subsection \<open>The tail-call trim\<close>

lemma trim_scan_append:
  assumes "\<forall>f\<in>set locals. kind f = FRAME_LOCAL" and "kind c \<noteq> FRAME_LOCAL"
  shows "trim_scan (locals @ c # below) =
           (if kind c = FRAME_CALL \<and> tailCall c \<and> thunks c = [] then Some below else None)"
  using assms by (induction locals) (auto split: FrameKind.splits)

lemma trim_scan_locals:
  assumes "\<forall>f\<in>set locals. kind f = FRAME_LOCAL"
  shows "trim_scan locals = None"
  using assms by (induction locals) (auto split: FrameKind.splits)

lemma trim_scan_calls:
  "trim_scan fs = Some below \<Longrightarrow> length (filter isCall fs) = Suc (length (filter isCall below))"
  by (induction fs) (auto simp: isCall_def split: FrameKind.splits if_splits)

lemma trim_live:
  "calls S = live_calls S \<Longrightarrow> calls (tailCallTrimStack S) = live_calls (tailCallTrimStack S)"
  by (auto simp: tailCallTrimStack_def live_calls_def split: option.splits dest: trim_scan_calls)

lemma limit_trim [simp]: "limit (tailCallTrimStack S) = limit S"
  by (auto simp: tailCallTrimStack_def split: option.splits)

lemma reachable_inv:
  "stack_reachable n S \<Longrightarrow> limit S = n \<and> calls S = live_calls S \<and> calls S \<le> n"
proof (induction rule: stack_reachable.induct)
  case (init n)
  then show ?case by (simp add: Stack_new_def live_calls_def)
next
  case (frame n S f)
  then show ?case by (simp add: newFrame_def live_calls_def isCall_def)
next
  case (call n S loc ctx slf off up S')
  then have t: "calls (tailCallTrimStack S) = live_calls (tailCallTrimStack S)"
    by (simp add: trim_live)
  from call show ?case using t
    by (auto simp: newCall_def Let_def live_calls_def isCall_def call_frame_def Frame_loc_def
             split: if_splits)
next
  case (pop n S)
  then show ?case
    by (cases "stack S") (auto simp: pop_def live_calls_def split: if_splits)
next
  case (top n S f fs g)
  then show ?case by (auto simp: live_calls_def)
qed

subsection \<open>The search for a field\<close>

lemma find_append_case:
  "List.find P (xs @ ys) = (case List.find P xs of None \<Rightarrow> List.find P ys | Some x \<Rightarrow> Some x)"
  by (induction xs) auto

lemma find_SomeD: "List.find P xs = Some x \<Longrightarrow> P x"
  by (auto simp: find_Some_iff)

lemma findObject_leaves:
  "findObject f rt obj k c slf =
     (case List.find (\<lambda>(i, leaf). k \<le> i \<and> has_field f leaf) (enumerate c (leaves obj)) of
        None \<Rightarrow> (Nullptr, c + length (leaves obj), slf)
      | Some (i, leaf) \<Rightarrow> (leaf, i, rt))"
proof (induction obj arbitrary: c slf)
  case Nullptr
  then show ?case by simp
next
  case (HeapSimpleObject a up flds asserts)
  then show ?case by simp
next
  case (HeapComprehensionObject a up v ident compValues)
  then show ?case by simp
next
  case (HeapExtendedObject a left right)
  have nn: "\<And>i leaf xs. List.find (\<lambda>(i, leaf). k \<le> i \<and> has_field f leaf) xs = Some (i, leaf)
            \<Longrightarrow> leaf \<noteq> Nullptr"
    by (auto simp: find_Some_iff)
  show ?case
    by (auto simp: HeapExtendedObject.IH enumerate_append_eq find_append_case Let_def add.assoc
             split: option.splits dest: nn)
qed

lemma countLeaves_leaves: "countLeaves obj = length (leaves obj)"
  by (induction obj) simp_all

subsection \<open>The fields of an object\<close>

lemma merge_left_distinct:
  "distinct (map fst r) \<Longrightarrow> distinct (map fst (merge_left r l))"
  by (induction l arbitrary: r) (auto simp: distinct_update split: option.splits)

lemma merge_left_map_of:
  "distinct (map fst l) \<Longrightarrow>
   map_of (merge_left r l) f = merge_hide (map_of r f) (map_of l f)"
proof (induction l arbitrary: r)
  case Nil
  then show ?case by (simp add: merge_hide_def split: option.splits)
next
  case (Cons p l)
  obtain k h where p: "p = (k, h)" by (cases p)
  from Cons.prems p have d: "distinct (map fst l)" and nk: "k \<notin> fst ` set l" by auto
  from nk have lk: "map_of l k = None" by (simp add: map_of_eq_None_iff)
  show ?case
    using Cons.IH[OF d] lk p
    by (auto simp: merge_hide_def update_conv split: option.splits if_splits)
qed

lemma fold_distinct:
  assumes "\<And>x r. distinct (map fst r) \<Longrightarrow> distinct (map fst (g x r))"
  shows "distinct (map fst r) \<Longrightarrow> distinct (map fst (fold g xs r))"
  by (induction xs arbitrary: r) (auto simp: assms)

lemma objectFields_aux_distinct:
  "distinct (map fst (fst (objectFields_aux obj c s m)))"
proof (induction obj arbitrary: c)
  case (HeapSimpleObject a up flds asserts)
  show ?case
    by (auto intro!: fold_distinct simp: distinct_update split: prod.splits)
next
  case (HeapComprehensionObject a up v ident compValues)
  show ?case
    by (auto intro!: fold_distinct simp: distinct_update split: prod.splits)
next
  case (HeapExtendedObject a left right)
  obtain R c1 where R: "objectFields_aux right c s m = (R, c1)"
    by (cases "objectFields_aux right c s m")
  have "distinct (map fst R)" using HeapExtendedObject.IH(2)[of c] R by simp
  then show ?case using R by (auto simp: merge_left_distinct split: prod.splits)
qed simp

lemma objectFields_aux_counter:
  "fst (objectFields_aux obj c 0 m) = fst (objectFields_aux obj c' 0 m)"
proof (induction obj arbitrary: c c')
  case (HeapExtendedObject a left right)
  show ?case
    using HeapExtendedObject.IH(2)[of c c'] HeapExtendedObject.IH(1)
    by (auto split: prod.splits) (metis fst_conv)
qed auto

lemma hide_map_extended:
  "map_of (hide_map (HeapExtendedObject a l r)) f =
     merge_hide (map_of (hide_map r) f) (map_of (hide_map l) f)"
proof -
  obtain R c1 where R: "objectFields_aux r 0 0 True = (R, c1)"
    by (cases "objectFields_aux r 0 0 True")
  obtain L c2 where L: "objectFields_aux l c1 0 True = (L, c2)"
    by (cases "objectFields_aux l c1 0 True")
  have dl: "distinct (map fst L)" using objectFields_aux_distinct[of l c1 0 True] L by simp
  have L0: "hide_map l = L"
    using objectFields_aux_counter[of l 0 True c1] L by (simp add: hide_map_def)
  show ?thesis
    using R L L0 dl by (simp add: hide_map_def merge_left_map_of)
qed

lemma fold_update_map_of:
  "distinct (map fst xs) \<Longrightarrow>
   map_of (fold (\<lambda>x r. AList.update (fst x) (g x) r) xs r) f =
     (case map_of xs f of None \<Rightarrow> map_of r f | Some y \<Rightarrow> Some (g (f, y)))"
proof (induction xs arbitrary: r)
  case Nil
  then show ?case by simp
next
  case (Cons x xs)
  obtain k y where x: "x = (k, y)" by (cases x)
  from Cons.prems x have d: "distinct (map fst xs)" and nk: "map_of xs k = None"
    by (auto simp: map_of_eq_None_iff)
  show ?case using Cons.IH[OF d] nk x
    by (auto simp: update_conv split: option.splits)
qed

lemma hide_map_simple:
  "distinct (map fst flds) \<Longrightarrow>
   map_of (hide_map (HeapSimpleObject a up flds asserts)) f = map_option fst (map_of flds f)"
  using fold_update_map_of[of flds "\<lambda>x. fst (snd x)" "[]" f]
  by (auto simp: hide_map_def case_prod_unfold split: option.splits)

lemma fold_update_keys:
  "fst ` set (fold (\<lambda>x r. AList.update (fst x) (g x) r) xs r) = fst ` set xs \<union> fst ` set r"
proof (induction xs arbitrary: r)
  case Nil
  then show ?case by simp
next
  case (Cons x xs)
  have "fst ` set (AList.update (fst x) (g x) r) = insert (fst x) (fst ` set r)"
    using dom_update[of "fst x" "g x" r] by (simp add: dom_map_of_conv_image_fst)
  then show ?case using Cons.IH by auto
qed

lemma merge_left_keys:
  "fst ` set (merge_left r l) \<subseteq> fst ` set r \<union> fst ` set l"
proof (induction l arbitrary: r)
  case Nil
  then show ?case by simp
next
  case (Cons p l)
  obtain k h where p: "p = (k, h)" by (cases p)
  have u: "fst ` set (AList.update k h r) = insert k (fst ` set r)"
    using dom_update[of k h r] by (simp add: dom_map_of_conv_image_fst)
  show ?case
    using Cons.IH[of "AList.update k h r"] Cons.IH[of r] u p
    by (auto split: option.splits if_splits)
qed

lemma objectFields_aux_keys:
  "k \<in> fst ` set (fst (objectFields_aux obj c s m)) \<Longrightarrow> \<exists>leaf\<in>set (leaves obj). has_field k leaf"
proof (induction obj arbitrary: c)
  case (HeapSimpleObject a up flds asserts)
  then show ?case
    using fold_update_keys[of "\<lambda>x. if \<not> m then VISIBLE else fst (snd x)" flds "[]"]
    by (auto simp: case_prod_unfold map_of_eq_None_iff split: if_splits)
next
  case (HeapComprehensionObject a up v ident compValues)
  then show ?case
    using fold_update_keys[of "\<lambda>x. VISIBLE" compValues "[]"]
    by (auto simp: case_prod_unfold map_of_eq_None_iff split: if_splits)
next
  case (HeapExtendedObject a left right)
  obtain R c1 where R: "objectFields_aux right c s m = (R, c1)"
    by (cases "objectFields_aux right c s m")
  obtain L c2 where L: "objectFields_aux left c1 s m = (L, c2)"
    by (cases "objectFields_aux left c1 s m")
  from HeapExtendedObject.prems R L have "k \<in> fst ` set R \<or> k \<in> fst ` set L"
    using merge_left_keys[of R L] by auto
  then show ?case
    using HeapExtendedObject.IH(1)[of c1] HeapExtendedObject.IH(2)[of c] R L by auto
qed simp

lemma findObject_from_zero:
  assumes "leaf \<in> set (leaves obj)" and "has_field f leaf"
  shows "has_field f (fst (findObject f obj obj 0 0 Nullptr))"
proof -
  let ?P = "\<lambda>(i, leaf). (0::nat) \<le> i \<and> has_field f leaf"
  obtain i where i: "i < length (leaves obj)" "leaves obj ! i = leaf"
    using assms(1) by (auto simp: in_set_conv_nth)
  then have "(i, leaf) \<in> set (enumerate 0 (leaves obj))"
    by (auto simp: in_set_enumerate_eq)
  then have "List.find ?P (enumerate 0 (leaves obj)) \<noteq> None"
    using assms(2) by (auto simp: find_None_iff)
  then obtain j l where jl: "List.find ?P (enumerate 0 (leaves obj)) = Some (j, l)"
    by auto
  from find_SomeD[OF jl] have "has_field f l" by simp
  then show ?thesis
    unfolding findObject_leaves jl by simp
qed

subsection \<open>Checked doubles\<close>

lemma makeDoubleCheck_finite:
  "makeDoubleCheck loc v = Inr w \<Longrightarrow> w = DOUBLE v \<and> \<not> isnan v \<and> \<not> isinf v"
  by (auto simp: makeDoubleCheck_def makeDouble_def split: if_splits)

lemma validate_double1:
  "validateBuiltinArgs X loc b args [T_DOUBLE] = Inr u \<Longrightarrow> \<exists>x. args = [DOUBLE x]"
  by (cases args; cases "hd args") (auto simp: validateBuiltinArgs_def split: if_splits)

lemma validate_double2:
  "validateBuiltinArgs X loc b args [T_DOUBLE, T_DOUBLE] = Inr u
   \<Longrightarrow> \<exists>x y. args = [DOUBLE x, DOUBLE y]"
proof -
  assume "validateBuiltinArgs X loc b args [T_DOUBLE, T_DOUBLE] = Inr u"
  then have m: "map type_of args = [T_DOUBLE, T_DOUBLE]"
    by (auto simp: validateBuiltinArgs_def split: if_splits)
  then obtain p q where a: "args = [p, q]" by (auto simp: map_eq_Cons_conv)
  with m show ?thesis by (cases p; cases q) auto
qed

lemma math1_finite:
  "math1 X loc b g args = Inr v \<Longrightarrow> \<exists>d. v = DOUBLE d \<and> \<not> isnan d \<and> \<not> isinf d"
  by (auto simp: math1_def bindE_def split: sum.splits
           dest!: validate_double1 makeDoubleCheck_finite)

lemma builtin_numeric_finite:
  "builtin_numeric X loc b args = Inr v \<Longrightarrow> \<exists>d. v = DOUBLE d \<and> \<not> isnan d \<and> \<not> isinf d"
  unfolding builtin_numeric_def
  by (auto simp: builtin_pow_def builtin_mantissa_def builtin_exponent_def builtin_modulo_def
                 bindE_def
           split: sum.splits if_splits
           dest!: validate_double1 validate_double2 makeDoubleCheck_finite math1_finite)

lemma double_binary_finite:
  "op \<in> {BOP_PLUS, BOP_MINUS, BOP_MULT, BOP_DIV} \<Longrightarrow> double_binary X loc op l r = Inr v
   \<Longrightarrow> \<exists>d. v = DOUBLE d \<and> \<not> isnan d \<and> \<not> isinf d"
  by (auto simp: double_binary_def split: if_splits dest!: makeDoubleCheck_finite)

lemmas example_defs =
  loc0_def lit_true_def lit_null_def obj_f_def obj_hidden_f_def obj_comp_def local_frame_def
  tail_frame_def U_def Native_exact_def Stack_new_def call_frame_def Frame_loc_def Frame_ast_def

section \<open>The claims\<close>




lemma level_Suc [simp]:
  "l_evaluate (level X (Suc n)) = evaluate_body X (level X n)"
  "l_manifestJson (level X (Suc n)) = manifestJson_body X (level X n)"
  by simp_all

lemma fold_update_const:
  "map_of (fold (\<lambda>x. AList.update (fst x) c) xs r) f =
     (if f \<in> fst ` set xs then Some c else map_of r f)"
  by (induction xs arbitrary: r) (auto simp: update_conv)

lemma hide_map_comprehension:
  "map_of (hide_map (HeapComprehensionObject a up v ident cvs)) f
   = map_option (\<lambda>th. VISIBLE) (map_of cvs f)"
proof (cases "map_of cvs f")
  case None
  then show ?thesis
    by (simp add: hide_map_def case_prod_unfold fold_update_const map_of_eq_None_iff)
next
  case (Some y)
  then have "f \<in> fst ` set cvs" by (auto dest: map_of_SomeD intro: rev_image_eqI)
  with Some show ?thesis
    by (simp add: hide_map_def case_prod_unfold fold_update_const)
qed

lemma manifest_fields_render:
  "manifest_fields X D loc ml ind2 obj flds prefix ss st = Some (Inr (s, st')) \<Longrightarrow>
   \<exists>vs. length vs = length flds \<and> s = ss @ render_fields ml ind2 prefix (zip flds vs)"
proof (induction flds arbitrary: prefix ss st)
  case Nil
  then show ?case by simp
next
  case (Cons fld flds)
  have "\<exists>vstr st3.
          manifest_fields X D loc ml ind2 obj flds (if ml then U '','' @ nl else U '', '')
             (ss @ prefix @ ind2 @ [34] @ fld @ [34] @ U '': '' @ vstr) st3 = Some (Inr (s, st'))"
    using Cons.prems
    by (simp split: sum.splits option.splits prod.splits split del: if_split cong: if_cong) blast
  then obtain vstr st3 where
    rest: "manifest_fields X D loc ml ind2 obj flds (if ml then U '','' @ nl else U '', '')
             (ss @ prefix @ ind2 @ [34] @ fld @ [34] @ U '': '' @ vstr) st3 = Some (Inr (s, st'))"
    by blast
  from Cons.IH[OF rest] obtain vs where
    vs: "length vs = length flds"
        "s = (ss @ prefix @ ind2 @ [34] @ fld @ [34] @ U '': '' @ vstr)
             @ render_fields ml ind2 (if ml then U '','' @ nl else U '', '') (zip flds vs)"
    by blast
  show ?case
    by (rule exI[of _ "vstr # vs"]) (simp add: vs)
qed

lemma manifestJson_object_render:
  assumes "scratch st = OBJECT obj"
    and "manifestJson X (Suc n) loc multiline indent st = Some (Inr (s, st'))"
  shows "\<exists>vs. length vs = length (sort (remdups (objectFields obj True)))
            \<and> s = render_object multiline indent (zip (sort (remdups (objectFields obj True))) vs)"
proof -
  let ?F = "sort (remdups (objectFields obj True))"
  let ?D = "level X n"
  from assms obtain st1 where
    b: "(if ?F = [] then Some (Inr (U ''{ }'', st1))
         else (case manifest_fields X ?D loc multiline
                          (if multiline then indent @ U ''   '' else indent) obj ?F
                          (if multiline then U ''{'' @ nl else U ''{'') [] st1 of
                     None \<Rightarrow> None
                   | Some (Inl e) \<Rightarrow> Some (Inl e)
                   | Some (Inr (ss, st2)) \<Rightarrow>
                       Some (Inr (ss @ (if multiline then nl else []) @ indent @ U ''}'', st2))))
        = Some (Inr (s, st'))"
    by (auto simp: manifestJson_def manifestJson_body_def Let_def
             split: option.splits sum.splits split del: if_split cong: if_cong)
  show ?thesis
  proof (cases "?F = []")
    case True
    with b show ?thesis by (simp add: render_object_def)
  next
    case False
    with b obtain ss where
      m: "manifest_fields X ?D loc multiline (if multiline then indent @ U ''   '' else indent)
            obj ?F (if multiline then U ''{'' @ nl else U ''{'') [] st1 = Some (Inr (ss, st'))"
      and s: "s = ss @ (if multiline then nl else []) @ indent @ U ''}''"
      by (auto split: option.splits sum.splits split del: if_split cong: if_cong)
    from manifest_fields_render[OF m] obtain vs where
      vs: "length vs = length ?F"
          "ss = [] @ render_fields multiline (if multiline then indent @ U ''   '' else indent)
                       (if multiline then U ''{'' @ nl else U ''{'') (zip ?F vs)"
      by blast
    have "zip ?F vs \<noteq> []" using False vs(1) by (cases ?F; cases vs) auto
    then show ?thesis
      using vs s by (intro exI[of _ vs]) (simp add: render_object_def)
  qed
qed

lemma objectIndex_found:
  "objectIndex X loc obj f k S =
     (case spec_find f k obj of
        None \<Rightarrow> Inl (RuntimeError loc (''Field does not exist: '' @ encode_utf8 X f))
      | Some (found_at, leaf) \<Rightarrow>
          if limit S \<le> calls (tailCallTrimStack S)
          then Inl (RuntimeError loc ''Max stack frames exceeded.'')
          else Inr (the (leaf_body leaf f),
                 (tailCallTrimStack S)
                   \<lparr>stack := call_frame loc (ObjectEntity leaf) obj found_at (leaf_bindings leaf f)
                               # stack (tailCallTrimStack S),
                    calls := calls (tailCallTrimStack S) + 1\<rparr>))"
proof (cases "spec_find f k obj")
  case None
  then show ?thesis
    by (simp add: objectIndex_def spec_find_def findObject_leaves makeError_def)
next
  case (Some p)
  obtain i leaf where p: "p = (i, leaf)" by (cases p)
  from Some p have hf: "has_field f leaf"
    unfolding spec_find_def by (auto dest: find_SomeD)
  from Some p hf show ?thesis
    by (cases leaf)
       (auto simp: objectIndex_def spec_find_def findObject_leaves makeError_def newCall_def
                   Let_def bindE_def
             split: option.splits)
qed

lemma hide_map_spec_find:
  assumes "map_of (hide_map obj) f = Some h"
  shows "\<exists>k leaf. spec_find f 0 obj = Some (k, leaf)"
proof -
  from assms have "f \<in> fst ` set (fst (objectFields_aux obj 0 0 True))"
    by (auto simp: hide_map_def dest: map_of_SomeD intro: rev_image_eqI)
  then obtain leaf where l: "leaf \<in> set (leaves obj)" "has_field f leaf"
    using objectFields_aux_keys by blast
  then obtain i where i: "i < length (leaves obj)" "leaves obj ! i = leaf"
    by (auto simp: in_set_conv_nth)
  then have "(i, leaf) \<in> set (enumerate 0 (leaves obj))"
    by (auto simp: in_set_enumerate_eq)
  then have "spec_find f 0 obj \<noteq> None"
    using l(2) by (auto simp: spec_find_def find_None_iff)
  then show ?thesis by auto
qed

lemma index_object_step:
  assumes "map_of (hide_map obj) f = Some h"
    and "stack (istack st) = fr # fs" and "kind fr = FRAME_INDEX_INDEX"
    and "ast fr = Some (AST loc fv (Index target index))"
    and "val fr = OBJECT obj" and "scratch st = STRING f"
  shows "\<exists>k leaf. spec_find f 0 obj = Some (k, leaf)
          \<and> frame_step X i st =
              (if limit (pop (istack st)) \<le> calls (tailCallTrimStack (pop (istack st)))
               then Inl (RuntimeError loc ''Max stack frames exceeded.'')
               else Inr (Recurse (the (leaf_body leaf f)),
                      st\<lparr>istack := (tailCallTrimStack (pop (istack st)))
                          \<lparr>stack := call_frame loc (ObjectEntity leaf) obj k (leaf_bindings leaf f)
                                      # stack (tailCallTrimStack (pop (istack st))),
                           calls := calls (tailCallTrimStack (pop (istack st))) + 1\<rparr>\<rparr>))"
proof -
  from hide_map_spec_find[OF assms(1)] obtain k leaf where
    sf: "spec_find f 0 obj = Some (k, leaf)" by blast
  have nn: "obj \<noteq> Nullptr" using assms(1) by (auto simp: hide_map_def)
  have "frame_step X i st =
          (case objectIndex X loc obj f 0 (pop (istack st)) of
             Inl e \<Rightarrow> Inl e
           | Inr (body, S) \<Rightarrow> Inr (Recurse body, st\<lparr>istack := S\<rparr>))"
    using assms(2-6) nn
    by (auto simp: frame_step_def top_frame_def frame_index_index_def object_index_def
                   pop_frame_def bindE_def
             split: sum.splits)
  then show ?thesis
    unfolding objectIndex_found sf by (intro exI[of _ k] exI[of _ leaf]) simp
qed

lemma level_numeral [simp]:
  "l_evaluate (level X (numeral k)) = evaluate_body X (level X (pred_numeral k))"
  "l_manifestJson (level X (numeral k)) = manifestJson_body X (level X (pred_numeral k))"
  by (simp_all add: numeral_eq_Suc)

lemma level_one [simp]:
  "l_evaluate (level X 1) = evaluate_body X (level X 0)"
  "l_manifestJson (level X 1) = manifestJson_body X (level X 0)"
  unfolding One_nat_def by simp_all

lemma scratch_manifest_state [simp]: "scratch (manifest_state obj) = OBJECT obj"
  by (simp add: manifest_state_def)

lemma fields_fg: "sort (remdups (objectFields obj_fg True)) = [U ''g'']"
  by (simp add: obj_fg_def obj_hidden_f_def objectFields_def U_def)

lemma run_fg:
  "runInvariants X D loc0 obj_fg (manifest_state obj_fg) =
     Some (Inr ((manifest_state obj_fg)\<lparr>istack := (Stack_new 10)\<lparr>low_water := 0\<rparr>\<rparr>))"
  by (simp add: runInvariants_def manifest_state_def Interpreter_new_def Stack_new_def
                alreadyExecutingInvariants_def push_frame_def newFrame_def obj_fg_def
                obj_hidden_f_def update_top_def pop_frame_def pop_def Let_def isCall_def
                Frame_loc_def)

lemma manifest_fg:
  "\<exists>st'. manifestJson Native_exact (Suc 2) loc0 True [] (manifest_state obj_fg)
         = Some (Inr (U ''{'' @ nl @ U ''   '' @ [34] @ U ''g'' @ [34] @ U '': null'' @ nl @ U ''}'', st'))"
  apply (simp add: manifestJson_def manifestJson_body_def fields_fg run_fg)
  apply (simp add: manifest_state_def Interpreter_new_def Stack_new_def object_index_def
                objectIndex_def obj_fg_def obj_hidden_f_def U_def newCall_def
                tailCallTrimStack_def call_frame_def Frame_loc_def update_top_def
                stack_size_def evaluate_body_def ast_step_def lit_null_def makeNull_def
                manifest_leaf_def manifestJson_body_def top_frame_def pop_frame_def pop_def
                isCall_def nl_def)
  done





text \<open>
  Claim C4. \<^verbatim>\<open>newCall\<close> trims the stack before it pushes. If the first frame from the top
  that is not a LOCAL frame is a CALL frame flagged \<open>tailCall\<close> with no pending thunks,
  that frame and the LOCAL frames above it are removed and the call count is lowered by
  one. If that frame is of another kind, or is a CALL frame that is not flagged or has
  pending thunks, or if there are only LOCAL frames, the stack is left as it is. The new
  CALL frame is pushed on the trimmed stack.
\<close>

theorem tailCallTrimStack_spec:
  "(stack S = locals @ c # below \<and> (\<forall>f\<in>set locals. kind f = FRAME_LOCAL)
      \<and> kind c = FRAME_CALL \<and> tailCall c \<and> thunks c = []
     \<longrightarrow> tailCallTrimStack S =
           S\<lparr>calls := calls S - 1, stack := below,
             low_water := min (low_water S) (length below)\<rparr>)
   \<and> (stack S = locals @ c # below \<and> (\<forall>f\<in>set locals. kind f = FRAME_LOCAL)
      \<and> kind c \<noteq> FRAME_LOCAL \<and> \<not> (kind c = FRAME_CALL \<and> tailCall c \<and> thunks c = [])
     \<longrightarrow> tailCallTrimStack S = S)
   \<and> ((\<forall>f\<in>set (stack S). kind f = FRAME_LOCAL) \<longrightarrow> tailCallTrimStack S = S)
   \<and> (newCall loc ctx slf off up S = Inr S'
     \<longrightarrow> stack S' = call_frame loc ctx slf off up # stack (tailCallTrimStack S)
         \<and> calls S' = calls (tailCallTrimStack S) + 1)"
  by (auto simp: tailCallTrimStack_def newCall_def Let_def trim_scan_append trim_scan_locals
           split: if_splits)

theorem tailCallTrimStack_spec_witness:
  "tailCallTrimStack (trim_example tail_frame) =
     \<lparr>calls = 1, limit = 10, stack = [call_frame loc0 NoEntity Nullptr 0 []], low_water = 1\<rparr>
   \<and> tailCallTrimStack (trim_example (tail_frame\<lparr>thunks := [0]\<rparr>)) =
       trim_example (tail_frame\<lparr>thunks := [0]\<rparr>)
   \<and> tailCallTrimStack (trim_example (Frame_loc FRAME_IF loc0)) =
       trim_example (Frame_loc FRAME_IF loc0)
   \<and> tailCallTrimStack (trim_example local_frame) = trim_example local_frame"
proof -
  let ?b = "[call_frame loc0 NoEntity Nullptr 0 []]"
  have l: "\<forall>f\<in>set [local_frame]. kind f = FRAME_LOCAL"
    by (simp add: local_frame_def Frame_loc_def)
  have s: "\<And>c. stack (trim_example c) = [local_frame] @ c # ?b"
    by (simp add: trim_example_def)
  have a1: "stack (trim_example tail_frame) = [local_frame] @ tail_frame # ?b
            \<and> (\<forall>f\<in>set [local_frame]. kind f = FRAME_LOCAL)
            \<and> kind tail_frame = FRAME_CALL \<and> tailCall tail_frame \<and> thunks tail_frame = []"
    using l s by (simp add: tail_frame_def call_frame_def Frame_loc_def)
  have a2: "stack (trim_example (tail_frame\<lparr>thunks := [0]\<rparr>))
              = [local_frame] @ tail_frame\<lparr>thunks := [0]\<rparr> # ?b
            \<and> (\<forall>f\<in>set [local_frame]. kind f = FRAME_LOCAL)
            \<and> kind (tail_frame\<lparr>thunks := [0]\<rparr>) \<noteq> FRAME_LOCAL
            \<and> \<not> (kind (tail_frame\<lparr>thunks := [0]\<rparr>) = FRAME_CALL
                  \<and> tailCall (tail_frame\<lparr>thunks := [0]\<rparr>)
                  \<and> thunks (tail_frame\<lparr>thunks := [0]\<rparr>) = [])"
    using l s by (simp add: tail_frame_def call_frame_def Frame_loc_def)
  have a3: "stack (trim_example (Frame_loc FRAME_IF loc0))
              = [local_frame] @ Frame_loc FRAME_IF loc0 # ?b
            \<and> (\<forall>f\<in>set [local_frame]. kind f = FRAME_LOCAL)
            \<and> kind (Frame_loc FRAME_IF loc0) \<noteq> FRAME_LOCAL
            \<and> \<not> (kind (Frame_loc FRAME_IF loc0) = FRAME_CALL
                  \<and> tailCall (Frame_loc FRAME_IF loc0)
                  \<and> thunks (Frame_loc FRAME_IF loc0) = [])"
    using l s by (simp add: Frame_loc_def)
  have a4: "stack (trim_example local_frame) = [local_frame, local_frame] @ call_frame loc0 NoEntity Nullptr 0 [] # []
            \<and> (\<forall>f\<in>set [local_frame, local_frame]. kind f = FRAME_LOCAL)
            \<and> kind (call_frame loc0 NoEntity Nullptr 0 []) \<noteq> FRAME_LOCAL
            \<and> \<not> (kind (call_frame loc0 NoEntity Nullptr 0 []) = FRAME_CALL
                  \<and> tailCall (call_frame loc0 NoEntity Nullptr 0 [])
                  \<and> thunks (call_frame loc0 NoEntity Nullptr 0 []) = [])"
    by (simp add: trim_example_def local_frame_def call_frame_def Frame_loc_def)
  note t = tailCallTrimStack_spec
  from t[THEN conjunct1, THEN mp, OF a1]
       t[THEN conjunct2, THEN conjunct1, THEN mp, OF a2]
       t[THEN conjunct2, THEN conjunct1, THEN mp, OF a3]
       t[THEN conjunct2, THEN conjunct1, THEN mp, OF a4]
  show ?thesis
    by (simp add: trim_example_def)
qed

text \<open>
  Claim C5. Only CALL frames count against the limit. \<^verbatim>\<open>newCall\<close> fails exactly when the
  call count after the tail-call trim has reached the limit, and then with "Max stack
  frames exceeded." at the location of the call; \<^verbatim>\<open>newFrame\<close> cannot fail and leaves the
  count as it is; and on every stack built by the operations of the class the count is
  the number of CALL frames on the stack and is at most the limit.
\<close>

theorem max_stack_spec:
  "(newCall loc ctx slf off up S = Inl e \<longleftrightarrow>
      limit S \<le> calls (tailCallTrimStack S) \<and> e = RuntimeError loc ''Max stack frames exceeded.'')
   \<and> calls (newFrame f S) = calls S
   \<and> (stack_reachable n S \<longrightarrow> calls S = live_calls S \<and> live_calls S \<le> n)"
  using reachable_inv[of n S]
  by (auto simp: newCall_def Let_def newFrame_def makeError_def)

theorem max_stack_spec_witness:
  "stack_reachable 1 \<lparr>calls = 1, limit = 1, stack = [call_frame loc0 NoEntity Nullptr 0 []], low_water = 0\<rparr>
   \<and> live_calls \<lparr>calls = 1, limit = 1, stack = [call_frame loc0 NoEntity Nullptr 0 []], low_water = 0\<rparr> \<le> 1
   \<and> newCall loc0 NoEntity Nullptr 0 []
        \<lparr>calls = 1, limit = 1, stack = [call_frame loc0 NoEntity Nullptr 0 []], low_water = 0\<rparr>
      = Inl (RuntimeError loc0 ''Max stack frames exceeded.'')"
proof -
  let ?S = "\<lparr>calls = 1, limit = 1, stack = [call_frame loc0 NoEntity Nullptr 0 []], low_water = 0\<rparr>"
  have c: "newCall loc0 NoEntity Nullptr 0 [] (Stack_new 1) = Inr ?S"
    by (simp add: newCall_def tailCallTrimStack_def Stack_new_def)
  have r: "stack_reachable 1 ?S"
    by (rule stack_reachable.call[OF stack_reachable.init c])
  have l: "limit ?S \<le> calls (tailCallTrimStack ?S)
           \<and> RuntimeError loc0 ''Max stack frames exceeded.'' = RuntimeError loc0 ''Max stack frames exceeded.''"
    by (simp add: tailCallTrimStack_def call_frame_def Frame_loc_def)
  note t = max_stack_spec[of loc0 NoEntity Nullptr 0 "[]" ?S "RuntimeError loc0 ''Max stack frames exceeded.''" _ 1]
  from t[THEN conjunct2, THEN conjunct2, THEN mp, OF r] t[THEN conjunct1, THEN iffD2, OF l] r
  show ?thesis by simp
qed



text \<open>
  Claim C10. \<^verbatim>\<open>primitiveEquals\<close> (builtin 24) of two values of different types is false,
  without an error, also when one of them is a function; the error "Cannot test equality
  of functions" is raised exactly when both are functions; two nulls are equal.
\<close>

theorem primitiveEquals_spec:
  "(type_of a \<noteq> type_of b \<longrightarrow> primitiveEquals X loc [a, b] = Inr (BOOLEAN False))
   \<and> (primitiveEquals X loc [a, b] = Inl (RuntimeError loc ''Cannot test equality of functions'')
        \<longleftrightarrow> type_of a = T_FUNCTION \<and> type_of b = T_FUNCTION)
   \<and> primitiveEquals X loc [NULL_TYPE, NULL_TYPE] = Inr (BOOLEAN True)
   \<and> builtin_value X loc 24 args = primitiveEquals X loc args"
  by (cases a; cases b)
     (auto simp: primitiveEquals_def makeBoolean_def makeError_def builtin_value_def
                 is_numeric_builtin_def)

theorem primitiveEquals_spec_witness:
  "type_of (FUNCTION (HeapClosure [] Nullptr 0 [] None 11)) \<noteq> type_of NULL_TYPE
   \<and> builtin_value Native_exact loc0 24 [FUNCTION (HeapClosure [] Nullptr 0 [] None 11), NULL_TYPE]
       = Inr (BOOLEAN False)"
proof -
  let ?f = "FUNCTION (HeapClosure [] Nullptr 0 [] None 11)"
  have d: "type_of ?f \<noteq> type_of NULL_TYPE" by simp
  note t = primitiveEquals_spec[of ?f NULL_TYPE Native_exact loc0 "[?f, NULL_TYPE]"]
  from t[THEN conjunct1, THEN mp, OF d] t[THEN conjunct2, THEN conjunct2, THEN conjunct2] d
  show ?thesis by simp
qed

subsection \<open>The stack below the frames of a call\<close>

lemma bindE_eq_Inr: "bindE m f = Inr y \<longleftrightarrow> (\<exists>x. m = Inr x \<and> f x = Inr y)"
  by (cases m) simp_all

lemma keeps_aboveD: "keeps_above B m S \<Longrightarrow> keeps B m S"
  by (auto simp: keeps_def keeps_above_def)

lemma keeps_push: "keeps B m S \<Longrightarrow> keeps_above B m (newFrame f S)"
  by (auto simp: keeps_def keeps_above_def newFrame_def)

lemma keeps_pop: "keeps_above B m S \<Longrightarrow> keeps B m (pop S)"
  by (auto simp: keeps_def keeps_above_def pop_def)

lemma istack_push_frame [simp]: "istack (push_frame f st) = newFrame f (istack st)"
  by (simp add: push_frame_def)

lemma istack_pop_frame [simp]: "istack (pop_frame st) = pop (istack st)"
  by (simp add: pop_frame_def)

lemma keeps_update_top [simp]:
  "keeps_above B m (istack (update_top g st)) = keeps_above B m (istack st)"
  by (auto simp: keeps_above_def update_top_def split: list.splits)

lemma istack_fill_thunk [simp]: "istack (fill_thunk r v st) = istack st"
  by (simp add: fill_thunk_def)

lemma istack_makeObject [simp]: "istack (makeObject mk st) = istack st"
  by (simp add: makeObject_def)

lemma istack_makeThunk [simp]: "istack (snd (makeThunk th st)) = istack st"
  by (simp add: makeThunk_def)

lemma istack_array_thunks [simp]: "istack (snd (array_thunks els slf off st)) = istack st"
  by (induction els arbitrary: st) (simp_all add: Let_def case_prod_unfold)

lemma istack_arg_thunks [simp]: "istack (snd (arg_thunks ps args slf off st)) = istack st"
proof (induction ps arbitrary: args st)
  case Nil
  show ?case by simp
next
  case (Cons p ps)
  show ?case by (cases args) (simp_all add: Let_def case_prod_unfold Cons)
qed

lemma istack_assert_thunks [simp]:
  "istack (snd (assert_thunks as slf counter up ths st)) = istack st"
  by (induction as arbitrary: ths st) (simp_all add: Let_def case_prod_unfold)

lemma istack_objectInvariants [simp]:
  "istack (snd (snd (objectInvariants obj slf counter ths st))) = istack st"
  by (induction obj arbitrary: counter ths st) (simp_all add: Let_def case_prod_unfold)

lemma istack_string_thunks [simp]: "istack (snd (string_thunks fs st)) = istack st"
  by (induction fs arbitrary: st) (simp_all add: Let_def case_prod_unfold)

lemma istack_local_capture [simp]: "istack (local_capture binds st) = istack st"
  by (induction binds st rule: local_capture.induct) (auto split: list.splits option.splits)

lemma keeps_local_thunks [simp]:
  "keeps_above B m (istack (local_thunks binds slf off st)) = keeps_above B m (istack st)"
proof (induction binds arbitrary: st)
  case Nil
  show ?case by simp
next
  case (Cons b binds)
  show ?case by (cases b) (simp add: Let_def case_prod_unfold Cons)
qed

lemma keeps_makeArray_thunks [simp]:
  "keeps_above B m (istack (snd (makeArray_thunks X func p n i st))) = keeps_above B m (istack st)"
proof (induction n arbitrary: i st)
  case 0
  show ?case by simp
next
  case (Suc n)
  show ?case
    by (simp add: makeThunk_def Let_def case_prod_unfold Suc)
qed

lemma istack_importString:
  "importString X loc path st = Inr (r, st') \<Longrightarrow> istack st' = istack st"
  by (auto simp: importString_def Let_def split: option.splits prod.splits if_splits)

lemma istack_import_ast:
  "import_ast X loc path st = Inr (r, st') \<Longrightarrow> istack st' = istack st"
  by (auto simp: import_ast_def bindE_eq_Inr dest: istack_importString)

lemma istack_binary_op: "binary_op X loc op lhs rhs st = Inr st' \<Longrightarrow> istack st' = istack st"
  unfolding binary_op_def
  by (cases lhs; cases rhs) (auto simp: bindE_eq_Inr split: if_splits)

lemma trim_scan_guard:
  "trim_scan B = None \<Longrightarrow> trim_scan (xs @ B) = map_option (\<lambda>ys. ys @ B) (trim_scan xs)"
  by (induction xs) (auto split: FrameKind.splits)

lemma keeps_trim:
  assumes "keeps B m S" and "trim_scan B = None"
  shows "keeps B m (tailCallTrimStack S)"
proof -
  from assms(1) obtain xs where xs: "stack S = xs @ B"
    and lw: "min (length B) m \<le> low_water S"
    by (auto simp: keeps_def)
  have t: "trim_scan (xs @ B) = map_option (\<lambda>ys. ys @ B) (trim_scan xs)"
    using assms(2) by (rule trim_scan_guard)
  show ?thesis
    using xs lw t
    by (auto simp: tailCallTrimStack_def keeps_def split: option.splits)
qed

lemma keeps_call_frame [simp]:
  "keeps_above B m (S\<lparr>stack := f # stack S, calls := n\<rparr>) = keeps B m S"
  by (auto simp: keeps_def keeps_above_def)

lemma new_call_Inr:
  "new_call loc ctx slf off up st = Inr st' \<longleftrightarrow>
     calls (tailCallTrimStack (istack st)) < limit (tailCallTrimStack (istack st)) \<and>
     st' = st\<lparr>istack := (tailCallTrimStack (istack st))
                \<lparr>stack := call_frame loc ctx slf off up # stack (tailCallTrimStack (istack st)),
                 calls := calls (tailCallTrimStack (istack st)) + 1\<rparr>\<rparr>"
  by (auto simp: new_call_def newCall_def Let_def)

lemma keeps_new_call:
  assumes "new_call loc ctx slf off up st = Inr st'" and "keeps B m (istack st)"
    and "trim_scan B = None"
  shows "keeps_above B m (istack st')"
  using assms by (simp add: new_call_Inr keeps_trim)

lemma objectIndex_newCall:
  assumes "objectIndex X loc obj f off S = Inr (body, S')"
  shows "\<exists>ctx slf k up. newCall loc ctx slf k up S = Inr S'"
  using assms unfolding objectIndex_def
  by (auto simp: bindE_eq_Inr Let_def
           split: prod.splits HeapObject.splits option.splits)

lemma object_index_new_call:
  assumes "object_index X loc obj f off st = Inr (body, st')"
  shows "\<exists>ctx slf k up. new_call loc ctx slf k up st = Inr st'"
proof -
  from assms(1) obtain S' where o: "objectIndex X loc obj f off (istack st) = Inr (body, S')"
    and st': "st' = st\<lparr>istack := S'\<rparr>"
    by (auto simp: object_index_def bindE_eq_Inr)
  from objectIndex_newCall[OF o] obtain ctx slf k up
    where "newCall loc ctx slf k up (istack st) = Inr S'" by blast
  hence "new_call loc ctx slf k up st = Inr st'"
    using st' by (simp add: new_call_def)
  thus ?thesis by blast
qed

lemma keeps_object_index:
  assumes "object_index X loc obj f off st = Inr (body, st')" and "keeps B m (istack st)"
    and "trim_scan B = None"
  shows "keeps_above B m (istack st')"
  using object_index_new_call[OF assms(1)] assms(2,3) by (auto intro: keeps_new_call)

lemma keeps_force_thunk:
  assumes "force_thunk loc r thunk st = Inr (c, st')" and "keeps B m (istack st)"
    and "trim_scan B = None"
  shows "keeps_above B m (istack st')"
  using assms
  by (auto simp: force_thunk_def recurse_def bindE_eq_Inr new_call_Inr keeps_trim
           split: option.splits)

subsection \<open>The frame on top and its AST\<close>

lemma case_ast_Apply:
  "((case a of Some (AST loc fv (Apply t args ts)) \<Rightarrow> F loc fv t args ts | _ \<Rightarrow> Inl err) = Inr y)
   = (\<exists>loc fv t args ts. a = Some (AST loc fv (Apply t args ts)) \<and> F loc fv t args ts = Inr y)"
  by (auto split: option.splits AST.splits Expr.splits)

lemma case_ast_Binary:
  "((case a of Some (AST loc fv (Binary l op r)) \<Rightarrow> F loc fv l op r | _ \<Rightarrow> Inl err) = Inr y)
   = (\<exists>loc fv l op r. a = Some (AST loc fv (Binary l op r)) \<and> F loc fv l op r = Inr y)"
  by (auto split: option.splits AST.splits Expr.splits)

lemma case_ast_Conditional:
  "((case a of Some (AST loc fv (Conditional c t e)) \<Rightarrow> F loc fv c t e | _ \<Rightarrow> Inl err) = Inr y)
   = (\<exists>loc fv c t e. a = Some (AST loc fv (Conditional c t e)) \<and> F loc fv c t e = Inr y)"
  by (auto split: option.splits AST.splits Expr.splits)

lemma case_ast_Error:
  "((case a of Some (AST loc fv (Error e)) \<Rightarrow> F loc fv e | _ \<Rightarrow> Inl err) = Inr y)
   = (\<exists>loc fv e. a = Some (AST loc fv (Error e)) \<and> F loc fv e = Inr y)"
  by (auto split: option.splits AST.splits Expr.splits)

lemma case_ast_SuperIndex:
  "((case a of Some (AST loc fv (SuperIndex e)) \<Rightarrow> F loc fv e | _ \<Rightarrow> Inl err) = Inr y)
   = (\<exists>loc fv e. a = Some (AST loc fv (SuperIndex e)) \<and> F loc fv e = Inr y)"
  by (auto split: option.splits AST.splits Expr.splits)

lemma case_ast_Index:
  "((case a of Some (AST loc fv (Index t i)) \<Rightarrow> F loc fv t i | _ \<Rightarrow> Inl err) = Inr y)
   = (\<exists>loc fv t i. a = Some (AST loc fv (Index t i)) \<and> F loc fv t i = Inr y)"
  by (auto split: option.splits AST.splits Expr.splits)

lemma case_ast_DesugaredObject:
  "((case a of Some (AST loc fv (DesugaredObject as fs)) \<Rightarrow> F loc fv as fs | _ \<Rightarrow> Inl err) = Inr y)
   = (\<exists>loc fv as fs. a = Some (AST loc fv (DesugaredObject as fs)) \<and> F loc fv as fs = Inr y)"
  by (auto split: option.splits AST.splits Expr.splits)

lemma case_ast_ObjectComprehensionSimple:
  "((case a of Some (AST loc fv (ObjectComprehensionSimple fld v ident arr)) \<Rightarrow> F loc fv fld v ident arr
     | _ \<Rightarrow> Inl err) = Inr y)
   = (\<exists>loc fv fld v ident arr. a = Some (AST loc fv (ObjectComprehensionSimple fld v ident arr))
        \<and> F loc fv fld v ident arr = Inr y)"
  by (auto split: option.splits AST.splits Expr.splits)

lemma case_ast_Unary:
  "((case a of Some (AST loc fv (Unary op e)) \<Rightarrow> F loc fv op e | _ \<Rightarrow> Inl err) = Inr y)
   = (\<exists>loc fv op e. a = Some (AST loc fv (Unary op e)) \<and> F loc fv op e = Inr y)"
  by (auto split: option.splits AST.splits Expr.splits)

lemmas case_ast =
  case_ast_Apply case_ast_Binary case_ast_Conditional case_ast_Error case_ast_SuperIndex
  case_ast_Index case_ast_DesugaredObject case_ast_ObjectComprehensionSimple case_ast_Unary

lemmas keeps_intros = keeps_aboveD keeps_pop keeps_push keeps_trim

lemma case_ast_Apply_fun_arr:
  "((case (a, v, w) of
       (Some (AST loc fv (Apply t args ts)), FUNCTION func, ARRAY arr) \<Rightarrow> F loc fv t args ts func arr
     | _ \<Rightarrow> Inl err) = Inr y)
   = (\<exists>loc fv t args ts func arr.
        a = Some (AST loc fv (Apply t args ts)) \<and> v = FUNCTION func \<and> w = ARRAY arr
        \<and> F loc fv t args ts func arr = Inr y)"
  by (auto split: option.splits AST.splits Expr.splits Value.splits)

lemma case_ast_Apply_fun:
  "((case (a, v) of
       (Some (AST loc fv (Apply t args ts)), FUNCTION func) \<Rightarrow> F loc fv t args ts func
     | _ \<Rightarrow> Inl err) = Inr y)
   = (\<exists>loc fv t args ts func.
        a = Some (AST loc fv (Apply t args ts)) \<and> v = FUNCTION func
        \<and> F loc fv t args ts func = Inr y)"
  by (auto split: option.splits AST.splits Expr.splits Value.splits)

lemma case_ast_Comp_arr:
  "((case (a, v) of
       (Some (AST loc fv (ObjectComprehensionSimple fld b ident arr_ast)), ARRAY arr) \<Rightarrow>
          F loc fv fld b ident arr_ast arr
     | _ \<Rightarrow> Inl err) = Inr y)
   = (\<exists>loc fv fld b ident arr_ast arr.
        a = Some (AST loc fv (ObjectComprehensionSimple fld b ident arr_ast)) \<and> v = ARRAY arr
        \<and> F loc fv fld b ident arr_ast arr = Inr y)"
  by (auto split: option.splits AST.splits Expr.splits Value.splits)


lemma keeps_simps:
  "keeps_above B m S \<Longrightarrow> keeps B m (pop S)"
  "keeps B m S \<Longrightarrow> keeps_above B m (newFrame f S)"
  "keeps B m S \<Longrightarrow> keeps B m (newFrame f S)"
  "keeps B m S \<Longrightarrow> keeps B m (S\<lparr>stack := g # stack S, calls := n\<rparr>)"
  "keeps_above B m (istack st) \<Longrightarrow> keeps B m (istack (update_top h st))"
  "keeps B m S \<Longrightarrow> trim_scan B = None \<Longrightarrow> keeps B m (tailCallTrimStack S)"
  by (auto intro: keeps_aboveD keeps_pop keeps_push keeps_trim)

lemma keeps_frame_if:
  assumes "frame_if X f st = Inr (c, st')" and "keeps_above B m (istack st)"
    and "trim_scan B = None"
  shows "keeps B m (istack st')"
  using assms keeps_aboveD[OF assms(2)] unfolding frame_if_def case_ast
  by (cases "scratch st") (auto simp: keeps_simps)

lemma keeps_frame_binary_left:
  assumes "frame_binary_left X f st = Inr (c, st')" and "keeps_above B m (istack st)"
    and "trim_scan B = None"
  shows "keeps B m (istack st')"
  using assms keeps_aboveD[OF assms(2)] unfolding frame_binary_left_def case_ast
  by (cases "scratch st") (auto simp: Let_def keeps_simps split: if_splits)

lemma keeps_frame_binary_right:
  assumes "frame_binary_right X f st = Inr (c, st')" and "keeps_above B m (istack st)"
    and "trim_scan B = None"
  shows "keeps B m (istack st')"
  using assms keeps_aboveD[OF assms(2)] unfolding frame_binary_right_def case_ast
  by (auto simp: Let_def bindE_eq_Inr keeps_simps split: if_splits
           dest!: istack_binary_op)

lemma keeps_frame_error:
  assumes "frame_error X f st = Inr (c, st')" and "keeps_above B m (istack st)"
    and "trim_scan B = None"
  shows "keeps B m (istack st')"
  using assms unfolding frame_error_def case_ast
  by (cases "scratch st") auto

lemma keeps_frame_unary:
  assumes "frame_unary X f st = Inr (c, st')" and "keeps_above B m (istack st)"
    and "trim_scan B = None"
  shows "keeps B m (istack st')"
  using assms keeps_aboveD[OF assms(2)] unfolding frame_unary_def case_ast
  apply (cases "scratch st")
        apply (auto simp: Let_def keeps_simps split: if_splits UnaryOp.splits)
  using UnaryOp.exhaust by blast

lemma keeps_frame_super_index:
  assumes "frame_super_index X f st = Inr (c, st')" and "keeps_above B m (istack st)"
    and "trim_scan B = None"
  shows "keeps B m (istack st')"
  using assms keeps_aboveD[OF assms(2)] unfolding frame_super_index_def case_ast
  by (cases "scratch st")
     (auto simp: Let_def bindE_eq_Inr case_prod_unfold new_call_Inr keeps_simps split: if_splits
           dest!: object_index_new_call)

lemma keeps_frame_object_comp_array:
  assumes "frame_object_comp_array X f st = Inr (c, st')" and "keeps_above B m (istack st)"
    and "trim_scan B = None"
  shows "keeps B m (istack st')"
  using assms keeps_aboveD[OF assms(2)] unfolding frame_object_comp_array_def case_ast
  by (cases "scratch st")
     (auto simp: Let_def list.case_eq_if keeps_simps split: if_splits)

lemma keeps_frame_object_comp_element:
  assumes "frame_object_comp_element X f st = Inr (c, st')" and "keeps_above B m (istack st)"
    and "trim_scan B = None"
  shows "keeps B m (istack st')"
  using assms keeps_aboveD[OF assms(2)] unfolding frame_object_comp_element_def case_ast_Comp_arr
  by (cases "scratch st")
     (auto simp: Let_def keeps_simps split: if_splits)

lemma keeps_frame_object:
  assumes "frame_object X f st = Inr (c, st')" and "keeps_above B m (istack st)"
    and "trim_scan B = None"
  shows "keeps B m (istack st')"
  using assms keeps_aboveD[OF assms(2)] unfolding frame_object_def case_ast
  by (auto simp: Let_def bindE_eq_Inr case_prod_unfold keeps_simps split: if_splits)

lemma keeps_force_thunk2:
  assumes "force_thunk loc r thunk st = Inr (c, st')" and "keeps B m (istack st)"
    and "trim_scan B = None"
  shows "keeps B m (istack st')"
  using keeps_force_thunk[OF assms] by (rule keeps_aboveD)

lemma keeps_frame_apply_target:
  assumes "frame_apply_target X f st = Inr (c, st')" and "keeps_above B m (istack st)"
    and "trim_scan B = None"
  shows "keeps B m (istack st')"
  using assms keeps_aboveD[OF assms(2)] unfolding frame_apply_target_def case_ast
  by (cases "scratch st")
     (auto simp: Let_def bindE_eq_Inr case_prod_unfold new_call_Inr keeps_simps option.case_eq_if
           split: if_splits)

lemma keeps_frame_builtin_filter:
  assumes "frame_builtin_filter X f st = Inr (c, st')" and "keeps_above B m (istack st)"
    and "trim_scan B = None"
  shows "keeps B m (istack st')"
  using assms keeps_aboveD[OF assms(2)] unfolding frame_builtin_filter_def case_ast_Apply_fun_arr
  by (cases "scratch st")
     (auto simp: Let_def bindE_eq_Inr new_call_Inr keeps_simps list.case_eq_if recurse_def
                 option.case_eq_if
           split: if_splits)

lemma keeps_builtin_filter:
  assumes "builtin_filter X loc args st = Inr (c, st')" and "keeps_above B m (istack st)"
    and "trim_scan B = None"
  shows "keeps B m (istack st')"
proof -
  from assms(1) obtain func arr where args: "args = [FUNCTION func, ARRAY arr]"
    unfolding builtin_filter_def
    by (auto simp: bindE_eq_Inr split: list.splits Value.splits)
  show ?thesis
    using assms keeps_aboveD[OF assms(2)] unfolding builtin_filter_def args
    by (auto simp: Let_def bindE_eq_Inr new_call_Inr keeps_simps recurse_def
             split: if_splits list.splits option.splits)
qed

lemma keeps_builtin_extVar:
  assumes "builtin_extVar X loc args st = Inr (c, st')" and "keeps_above B m (istack st)"
    and "trim_scan B = None"
  shows "keeps B m (istack st')"
proof -
  from assms(1) obtain var where args: "args = [STRING var]"
    unfolding builtin_extVar_def
    by (auto simp: bindE_eq_Inr split: list.splits Value.splits)
  show ?thesis
    using assms keeps_aboveD[OF assms(2)] unfolding builtin_extVar_def args
    by (auto simp: Let_def bindE_eq_Inr keeps_simps
             split: if_splits option.splits)
qed

lemma keeps_builtin_makeArray:
  assumes "builtin_makeArray X loc args st = Inr st'" and "keeps_above B m (istack st)"
  shows "keeps_above B m (istack st')"
proof -
  from assms(1) obtain d func where args: "args = [DOUBLE d, FUNCTION func]"
    unfolding builtin_makeArray_def
    by (auto simp: bindE_eq_Inr split: list.splits Value.splits)
  show ?thesis
    using assms unfolding builtin_makeArray_def args
    by (auto simp: Let_def bindE_eq_Inr case_prod_unfold
             split: if_splits list.splits)
qed

lemma keeps_builtin_objectFieldsEx:
  assumes "builtin_objectFieldsEx X loc args st = Inr st'"
  shows "istack st' = istack st"
proof -
  from assms(1) obtain obj b where args: "args = [OBJECT obj, BOOLEAN b]"
    unfolding builtin_objectFieldsEx_def
    by (auto simp: bindE_eq_Inr split: list.splits Value.splits)
  show ?thesis
    using assms unfolding builtin_objectFieldsEx_def args
    by (auto simp: Let_def bindE_eq_Inr case_prod_unfold)
qed

lemma keeps_builtin_dispatch:
  assumes "builtin_dispatch X loc b args st = Inr (c, st')" and "keeps_above B m (istack st)"
    and "trim_scan B = None"
  shows "keeps B m (istack st')"
  using assms unfolding builtin_dispatch_def
  by (auto simp: bindE_eq_Inr keeps_simps split: if_splits
           dest: keeps_builtin_filter keeps_builtin_extVar keeps_builtin_makeArray
                 keeps_builtin_objectFieldsEx)

lemma keeps_frame_builtin_force_thunks:
  assumes "frame_builtin_force_thunks X f st = Inr (c, st')" and "keeps_above B m (istack st)"
    and "trim_scan B = None"
  shows "keeps B m (istack st')"
  using assms keeps_aboveD[OF assms(2)]
  unfolding frame_builtin_force_thunks_def case_ast_Apply_fun
  by (auto simp: Let_def bindE_eq_Inr keeps_simps force_thunk_def recurse_def new_call_Inr
           split: if_splits option.splits
           dest: keeps_builtin_dispatch)

lemma keeps_frame_call:
  assumes "frame_call X f st = Inr (c, st')" and "keeps_above B m (istack st)"
    and "trim_scan B = None"
  shows "keeps B m (istack st')"
  using assms keeps_aboveD[OF assms(2)]
  unfolding frame_call_def
  by (cases "frame_context f")
     (auto simp: Let_def bindE_eq_Inr keeps_simps recurse_def force_thunk_def new_call_Inr
           split: if_splits option.splits)

lemma keeps_frame_index_index:
  assumes "frame_index_index X f st = Inr (c, st')" and "keeps_above B m (istack st)"
    and "trim_scan B = None"
  shows "keeps B m (istack st')"
  using assms keeps_aboveD[OF assms(2)]
  unfolding frame_index_index_def case_ast
  by (cases "val f"; cases "scratch st")
     (auto simp: Let_def bindE_eq_Inr keeps_simps recurse_def force_thunk_def new_call_Inr
                 case_prod_unfold
           split: if_splits option.splits dest!: object_index_new_call)

lemma keeps_frame_index_target:
  assumes "frame_index_target X f st = Inr (c, st')" and "keeps_above B m (istack st)"
    and "trim_scan B = None"
  shows "keeps B m (istack st')"
  using assms keeps_aboveD[OF assms(2)]
  unfolding frame_index_target_def case_ast
  by (cases "scratch st")
     (auto simp: Let_def bindE_eq_Inr keeps_simps recurse_def force_thunk_def new_call_Inr
                 case_prod_unfold list.case_eq_if
           split: if_splits option.splits)

lemma keeps_frame_invariants:
  assumes "frame_invariants X i f st = Inr (c, st')" and "keeps_above B m (istack st)"
    and "trim_scan B = None"
  shows "keeps B m (istack st')"
  using assms keeps_aboveD[OF assms(2)]
  unfolding frame_invariants_def
  by (auto simp: Let_def bindE_eq_Inr keeps_simps recurse_def force_thunk_def new_call_Inr
                 case_ast
           split: if_splits option.splits)

lemma keeps_frame_step:
  assumes "frame_step X i st = Inr (c, st')" and "keeps_above B m (istack st)"
    and "trim_scan B = None"
  shows "keeps B m (istack st')"
proof -
  from assms(1) obtain f where f: "top_frame st = Inr f"
    by (auto simp: frame_step_def bindE_eq_Inr)
  show ?thesis
    using assms unfolding frame_step_def f bindE_simps
    by (cases "kind f")
       (auto simp: keeps_simps
             dest: keeps_frame_apply_target keeps_frame_binary_left keeps_frame_binary_right
                   keeps_frame_builtin_filter keeps_frame_builtin_force_thunks keeps_frame_call
                   keeps_frame_error keeps_frame_if keeps_frame_index_target
                   keeps_frame_index_index keeps_frame_invariants keeps_frame_object
                   keeps_frame_object_comp_array keeps_frame_object_comp_element
                   keeps_frame_super_index keeps_frame_unary)
qed

lemma keeps_local_thunks2:
  "keeps_above B m (istack st) \<Longrightarrow> keeps B m (istack (local_thunks binds slf off st))"
  by (rule keeps_aboveD) simp

lemma keeps_ast_step:
  assumes "ast_step X a st = Inr (c, st')" and "keeps B m (istack st)"
    and "trim_scan B = None"
  shows "keeps B m (istack st')"
  using assms unfolding ast_step_def
  by (cases "node a")
     (auto simp: Let_def bindE_eq_Inr keeps_simps keeps_local_thunks2 recurse_def new_call_Inr
                 case_prod_unfold
           split: if_splits option.splits list.splits
           dest!: istack_import_ast istack_importString)

subsection \<open>The frames a manifestation leaves behind\<close>

lemma stops_trim_scan:
  "list_all stops xs \<Longrightarrow> trim_scan B = None \<Longrightarrow> trim_scan (xs @ B) = None"
  by (induction xs) (auto simp: stops_def)

lemma staleI:
  "stack S = xs @ B \<Longrightarrow> list_all stops xs \<Longrightarrow> min (length B) m \<le> low_water S \<Longrightarrow> stale B m S"
  by (auto simp: stale_def)

lemma ev_okD:
  assumes "ev_ok D" and "l_evaluate D c i st1 = Some (Inr st2)"
    and "stack (istack st1) = ys @ xs @ B" and "length (xs @ B) = i"
    and "list_all stops xs" and "trim_scan B = None"
    and "min (length B) m \<le> low_water (istack st1)"
  shows "stack (istack st2) = xs @ B \<and> min (length B) m \<le> low_water (istack st2)"
proof -
  have k: "keeps (xs @ B) (min (length B) m) (istack st1)"
    using assms(3,7) by (auto simp: keeps_def)
  have t: "trim_scan (xs @ B) = None"
    using assms(5,6) by (rule stops_trim_scan)
  have e: "l_evaluate D c (length (xs @ B)) st1 = Some (Inr st2)"
    using assms(2,4) by simp
  from assms(1) e k t
  have "stack (istack st2) = xs @ B
        \<and> min (length (xs @ B)) (min (length B) m) \<le> low_water (istack st2)"
    unfolding ev_ok_def by blast
  thus ?thesis by auto
qed

lemma mj_okD:
  assumes "mj_ok D" and "l_manifestJson D loc ml ind st = Some (Inr (s, st'))"
    and "stack (istack st) = xs @ B" and "list_all stops xs" and "trim_scan B = None"
    and "min (length B) m \<le> low_water (istack st)"
  shows "\<exists>ys. stack (istack st') = ys @ xs @ B \<and> list_all stops ys
              \<and> min (length B) m \<le> low_water (istack st')"
proof -
  have s: "stale (xs @ B) (min (length B) m) (istack st)"
    using assms(3,6) by (auto simp: stale_def)
  have t: "trim_scan (xs @ B) = None"
    using assms(4,5) by (rule stops_trim_scan)
  from assms(1,2) s t have "stale (xs @ B) (min (length B) m) (istack st')"
    unfolding mj_ok_def by blast
  thus ?thesis by (auto simp: stale_def)
qed

lemma new_call_stops:
  assumes "new_call loc ctx slf off up st = Inr st1" and "stack (istack st) = xs @ B"
    and "list_all stops xs" and "trim_scan B = None"
  shows "stack (istack st1) = call_frame loc ctx slf off up # xs @ B
         \<and> low_water (istack st1) = low_water (istack st)"
proof -
  have "trim_scan (stack (istack st)) = None"
    using assms(2-4) by (simp add: stops_trim_scan)
  thus ?thesis
    using assms(1,2) by (auto simp: new_call_Inr tailCallTrimStack_def)
qed

lemma stops_call_frame [simp]: "stops (call_frame loc ctx slf off up)"
  by (simp add: stops_def call_frame_def Frame_loc_def)

lemma stops_val [simp]: "stops (f\<lparr>val := v\<rparr>) = stops f"
  by (simp add: stops_def)

lemma pop_stale:
  assumes "stack S = ys @ cf # zs @ B" and "list_all stops ys" and "list_all stops zs"
    and "stops cf" and "min (length B) m \<le> low_water S"
  shows "stale B m (pop S)"
proof (cases ys)
  case Nil
  thus ?thesis using assms by (auto simp: stale_def pop_def)
next
  case (Cons y ys')
  hence "stack (pop S) = (ys' @ cf # zs) @ B" using assms(1) by (simp add: pop_def)
  moreover have "list_all stops (ys' @ cf # zs)" using assms(2-4) Cons by simp
  moreover have "min (length B) m \<le> low_water (pop S)"
    using assms(1,5) Cons by (simp add: pop_def)
  ultimately show ?thesis by (rule staleI)
qed

lemma force_element_stops:
  assumes ev: "ev_ok D" and fe: "force_element D loc r thunk st = Some (Inr st2)"
    and st: "stack (istack st) = xs @ B" and xs: "list_all stops xs"
    and B: "trim_scan B = None" and lw: "min (length B) m \<le> low_water (istack st)"
  shows "\<exists>cf. stack (istack st2) = cf # xs @ B \<and> stops cf
              \<and> min (length B) m \<le> low_water (istack st2)"
proof (cases "filled thunk")
  case True
  with fe obtain st1 where nc: "new_call loc (ThunkEntity r) Nullptr 0 [] st = Inr st1"
    and st2: "st2 = (update_top (\<lambda>g. g\<lparr>val := scratch st\<rparr>) st1)\<lparr>scratch := content thunk\<rparr>"
    by (auto simp: force_element_def split: sum.splits)
  from new_call_stops[OF nc st xs B] show ?thesis
    using st2 lw by (simp add: update_top_def)
next
  case False
  with fe obtain st1 body where
    nc: "new_call loc (ThunkEntity r) (th_self thunk) (th_offset thunk) (th_upValues thunk) st
         = Inr st1"
    and e: "l_evaluate D (Recurse body) (stack_size (istack st1))
              (update_top (\<lambda>g. g\<lparr>val := scratch st\<rparr>) st1) = Some (Inr st2)"
    by (auto simp: force_element_def split: sum.splits option.splits)
  let ?cf = "(call_frame loc (ThunkEntity r) (th_self thunk) (th_offset thunk)
               (th_upValues thunk))\<lparr>val := scratch st\<rparr>"
  from new_call_stops[OF nc st xs B]
  have s1: "stack (istack st1) = call_frame loc (ThunkEntity r) (th_self thunk) (th_offset thunk)
               (th_upValues thunk) # xs @ B"
    and l1: "low_water (istack st1) = low_water (istack st)" by simp_all
  have s1': "stack (istack (update_top (\<lambda>g. g\<lparr>val := scratch st\<rparr>) st1)) = [] @ (?cf # xs) @ B"
    using s1 by (simp add: update_top_def)
  have l1': "min (length B) m \<le> low_water (istack (update_top (\<lambda>g. g\<lparr>val := scratch st\<rparr>) st1))"
    using s1 l1 lw by (simp add: update_top_def)
  have len: "length ((?cf # xs) @ B) = stack_size (istack st1)"
    using s1 by (simp add: stack_size_def)
  have "list_all stops (?cf # xs)" using xs by simp
  from ev_okD[OF ev e s1' len this B l1'] show ?thesis by auto
qed

lemma stale_manifest_elements:
  assumes ev: "ev_ok D" and mj: "mj_ok D" and B: "trim_scan B = None"
  shows "manifest_elements D loc ml ind rs prefix ss st = Some (Inr (s, st')) \<Longrightarrow>
         stale B m (istack st) \<Longrightarrow> stale B m (istack st')"
proof (induction rs arbitrary: prefix ss st)
  case Nil
  thus ?case by simp
next
  case (Cons r rs)
  have "\<exists>thunk st2 loc' el st3 (g::Frame) prefix' ss'.
          force_element D loc r thunk st = Some (Inr st2) \<and>
          l_manifestJson D loc' ml ind st2 = Some (Inr (el, st3)) \<and>
          manifest_elements D loc ml ind rs prefix' ss' (pop_frame (st3\<lparr>scratch := val g\<rparr>))
            = Some (Inr (s, st'))"
    using Cons.prems(1)
    by (simp split: sum.splits option.splits prod.splits split del: if_split cong: if_cong) blast+
  then obtain thunk st2 loc' el st3 and g :: Frame and prefix' ss' where
    fe: "force_element D loc r thunk st = Some (Inr st2)" and
    mm: "l_manifestJson D loc' ml ind st2 = Some (Inr (el, st3))" and
    rest: "manifest_elements D loc ml ind rs prefix' ss' (pop_frame (st3\<lparr>scratch := val g\<rparr>))
             = Some (Inr (s, st'))"
    by blast
  from Cons.prems(2) obtain zs where zs: "stack (istack st) = zs @ B" "list_all stops zs"
    and lw: "min (length B) m \<le> low_water (istack st)"
    by (auto simp: stale_def)
  from force_element_stops[OF ev fe zs B lw] obtain cf where
    cf: "stack (istack st2) = (cf # zs) @ B" "stops cf"
    and l2: "min (length B) m \<le> low_water (istack st2)" by auto
  have "list_all stops (cf # zs)" using cf(2) zs(2) by simp
  from mj_okD[OF mj mm cf(1) this B l2] obtain ys where
    ys: "stack (istack st3) = ys @ cf # zs @ B" "list_all stops ys"
    and l3: "min (length B) m \<le> low_water (istack st3)" by auto
  have "stale B m (pop (istack st3))"
    using ys(1,2) zs(2) cf(2) l3 by (rule pop_stale)
  hence "stale B m (istack (pop_frame (st3\<lparr>scratch := val g\<rparr>)))" by simp
  with rest show ?case by (rule Cons.IH)
qed

lemma stale_manifest_fields:
  assumes ev: "ev_ok D" and mj: "mj_ok D" and B: "trim_scan B = None"
  shows "manifest_fields X D loc ml ind obj flds prefix ss st = Some (Inr (s, st')) \<Longrightarrow>
         stale B m (istack st) \<Longrightarrow> stale B m (istack st')"
proof (induction flds arbitrary: prefix ss st)
  case Nil
  thus ?case by simp
next
  case (Cons fld flds)
  have "\<exists>body st1 st2 vstr st3 (g::Frame) prefix' ss'.
          object_index X loc obj fld 0 st = Inr (body, st1) \<and>
          l_evaluate D (Recurse body) (stack_size (istack st1))
            (update_top (\<lambda>g. g\<lparr>val := scratch st1\<rparr>) st1) = Some (Inr st2) \<and>
          l_manifestJson D (ast_location body) ml ind st2 = Some (Inr (vstr, st3)) \<and>
          manifest_fields X D loc ml ind obj flds prefix' ss'
             (pop_frame (st3\<lparr>scratch := val g\<rparr>)) = Some (Inr (s, st'))"
    using Cons.prems(1)
    by (simp split: sum.splits option.splits prod.splits split del: if_split cong: if_cong) blast+
  then obtain body st1 st2 vstr st3 and g :: Frame and prefix' ss' where
    oi: "object_index X loc obj fld 0 st = Inr (body, st1)" and
    e: "l_evaluate D (Recurse body) (stack_size (istack st1))
          (update_top (\<lambda>g. g\<lparr>val := scratch st1\<rparr>) st1) = Some (Inr st2)" and
    mm: "l_manifestJson D (ast_location body) ml ind st2 = Some (Inr (vstr, st3))" and
    rest: "manifest_fields X D loc ml ind obj flds prefix' ss'
             (pop_frame (st3\<lparr>scratch := val g\<rparr>)) = Some (Inr (s, st'))"
    by blast
  from Cons.prems(2) obtain zs where zs: "stack (istack st) = zs @ B" "list_all stops zs"
    and lw: "min (length B) m \<le> low_water (istack st)"
    by (auto simp: stale_def)
  from object_index_new_call[OF oi] obtain ctx slf k up where
    nc: "new_call loc ctx slf k up st = Inr st1" by blast
  let ?cf = "(call_frame loc ctx slf k up)\<lparr>val := scratch st1\<rparr>"
  from new_call_stops[OF nc zs B]
  have s1: "stack (istack st1) = call_frame loc ctx slf k up # zs @ B"
    and l1: "low_water (istack st1) = low_water (istack st)" by simp_all
  have s1': "stack (istack (update_top (\<lambda>g. g\<lparr>val := scratch st1\<rparr>) st1)) = [] @ (?cf # zs) @ B"
    using s1 by (simp add: update_top_def)
  have l1': "min (length B) m \<le> low_water (istack (update_top (\<lambda>g. g\<lparr>val := scratch st1\<rparr>) st1))"
    using s1 l1 lw by (simp add: update_top_def)
  have len: "length ((?cf # zs) @ B) = stack_size (istack st1)"
    using s1 by (simp add: stack_size_def)
  have st: "list_all stops (?cf # zs)" using zs(2) by simp
  from ev_okD[OF ev e s1' len st B l1']
  have s2: "stack (istack st2) = (?cf # zs) @ B"
    and l2: "min (length B) m \<le> low_water (istack st2)" by simp_all
  from mj_okD[OF mj mm s2 st B l2] obtain ys where
    ys: "stack (istack st3) = ys @ ?cf # zs @ B" "list_all stops ys"
    and l3: "min (length B) m \<le> low_water (istack st3)" by auto
  have "stops ?cf" by simp
  with ys(1,2) zs(2) have "stale B m (pop (istack st3))"
    using l3 by (rule pop_stale)
  hence "stale B m (istack (pop_frame (st3\<lparr>scratch := val g\<rparr>)))" by simp
  with rest show ?case by (rule Cons.IH)
qed

lemma stale_runInvariants:
  assumes ev: "ev_ok D" and ri: "runInvariants X D loc slf st = Some (Inr st')"
    and st: "stale B m (istack st)" and B: "trim_scan B = None"
  shows "stale B m (istack st')"
proof (cases "alreadyExecutingInvariants slf (istack st)")
  case True
  with ri st show ?thesis by (simp add: runInvariants_def)
next
  case False
  from st obtain zs where zs: "stack (istack st) = zs @ B" "list_all stops zs"
    and lw: "min (length B) m \<le> low_water (istack st)"
    by (auto simp: stale_def)
  let ?st1 = "push_frame (Frame_loc FRAME_INVARIANTS loc) st"
  let ?ths = "fst (snd (objectInvariants slf slf 0 [] ?st1))"
  let ?st2 = "snd (snd (objectInvariants slf slf 0 [] ?st1))"
  let ?st3 = "update_top (\<lambda>g. g\<lparr>thunks := ?ths\<rparr>) ?st2"
  let ?inv = "(Frame_loc FRAME_INVARIANTS loc)\<lparr>thunks := ?ths\<rparr>"
  have s2: "istack ?st2 = newFrame (Frame_loc FRAME_INVARIANTS loc) (istack st)" by simp
  have s3: "stack (istack ?st3) = ?inv # zs @ B"
    using s2 zs(1) by (simp add: update_top_def newFrame_def)
  have l3: "low_water (istack ?st3) = low_water (istack st)"
    using s2 zs(1) by (simp add: update_top_def newFrame_def)
  show ?thesis
  proof (cases ?ths)
    case Nil
    with ri False have "st' = pop_frame ?st3"
      by (simp add: runInvariants_def Let_def case_prod_unfold)
    hence "stack (istack st') = zs @ B" "min (length B) m \<le> low_water (istack st')"
      using s3 l3 lw by (simp_all add: pop_def)
    thus ?thesis using zs(2) by (auto intro: staleI)
  next
    case (Cons r rs)
    let ?st3' = "update_top (\<lambda>g. g\<lparr>elementId := 1, self := slf\<rparr>) ?st3"
    let ?inv' = "?inv\<lparr>elementId := 1, self := slf\<rparr>"
    from ri False Cons have
      "\<exists>(thunk :: HeapThunk) st4 body.
         new_call loc (ThunkEntity r) (th_self thunk) (th_offset thunk) (th_upValues thunk) ?st3'
           = Inr st4
         \<and> l_evaluate D (Recurse body) (stack_size (istack ?st3)) st4 = Some (Inr st')"
      by (simp add: runInvariants_def Let_def case_prod_unfold
               split: sum.splits option.splits) blast
    then obtain thunk :: HeapThunk and st4 body where
      nc: "new_call loc (ThunkEntity r) (th_self thunk) (th_offset thunk) (th_upValues thunk) ?st3'
           = Inr st4"
      and e: "l_evaluate D (Recurse body) (stack_size (istack ?st3)) st4 = Some (Inr st')"
      by blast
    have s3': "stack (istack ?st3') = (?inv' # zs) @ B"
      using s3 by (simp add: update_top_def)
    have st: "list_all stops (?inv' # zs)"
      using zs(2) by (simp add: stops_def Frame_loc_def)
    from new_call_stops[OF nc s3' st B]
    have s4: "stack (istack st4) =
                [call_frame loc (ThunkEntity r) (th_self thunk) (th_offset thunk) (th_upValues thunk)]
                @ (?inv' # zs) @ B"
      and l4: "low_water (istack st4) = low_water (istack ?st3')" by simp_all
    have l4': "min (length B) m \<le> low_water (istack st4)"
      using l4 l3 lw s3 by (simp add: update_top_def)
    have len: "length ((?inv' # zs) @ B) = stack_size (istack ?st3)"
      using s3 by (simp add: stack_size_def)
    from ev_okD[OF ev e s4 len st B l4']
    show ?thesis using st by (auto intro: staleI)
  qed
qed

lemma mj_ok_body:
  assumes ev: "ev_ok D" and mj: "mj_ok D"
  shows "mj_ok \<lparr>l_evaluate = E, l_manifestJson = manifestJson_body X D\<rparr>"
  unfolding mj_ok_def
proof (intro allI impI)
  fix loc multiline indent st s st' B m
  assume a: "l_manifestJson \<lparr>l_evaluate = E, l_manifestJson = manifestJson_body X D\<rparr>
               loc multiline indent st = Some (Inr (s, st'))"
    and st: "stale B m (istack st)" and B: "trim_scan B = None"
  from a have b: "manifestJson_body X D loc multiline indent st = Some (Inr (s, st'))" by simp
  show "stale B m (istack st')"
  proof (cases "scratch st")
    case (ARRAY arr)
    with b have "st' = st \<or> (\<exists>ind2 prefix ss. manifest_elements D loc multiline ind2 arr prefix [] st
                                  = Some (Inr (ss, st')))"
      by (auto simp: manifestJson_body_def split: if_splits option.splits sum.splits
               split del: if_split)
    thus ?thesis using stale_manifest_elements[OF ev mj B _ st] st by blast
  next
    case (OBJECT obj)
    with b obtain st1 where ri: "runInvariants X D loc obj st = Some (Inr st1)"
      and c: "st' = st1 \<or> (\<exists>ind2 flds prefix ss. manifest_fields X D loc multiline ind2 obj flds
                                prefix [] st1 = Some (Inr (ss, st')))"
      by (auto simp: manifestJson_body_def Let_def split: if_splits option.splits sum.splits
               split del: if_split)
    from stale_runInvariants[OF ev ri st B] have s1: "stale B m (istack st1)" .
    from c show ?thesis using stale_manifest_fields[OF ev mj B _ s1] s1 by blast
  next
    case (BOOLEAN x)
    with b st show ?thesis
      by (auto simp: manifestJson_body_def manifest_leaf_def split: sum.splits)
  next
    case (DOUBLE x)
    with b st show ?thesis
      by (auto simp: manifestJson_body_def manifest_leaf_def split: sum.splits)
  next
    case (FUNCTION x)
    with b st show ?thesis
      by (auto simp: manifestJson_body_def manifest_leaf_def split: sum.splits)
  next
    case NULL_TYPE
    with b st show ?thesis
      by (auto simp: manifestJson_body_def manifest_leaf_def split: sum.splits)
  next
    case (STRING x)
    with b st show ?thesis
      by (auto simp: manifestJson_body_def manifest_leaf_def split: sum.splits)
  qed
qed

lemma case_ast_Binary_opt:
  "((case a of Some (AST loc fv (Binary l op r)) \<Rightarrow> F loc fv l op r | _ \<Rightarrow> Some (Inl err))
      = Some (Inr y))
   = (\<exists>loc fv l op r. a = Some (AST loc fv (Binary l op r)) \<and> F loc fv l op r = Some (Inr y))"
  by (auto split: option.splits AST.splits Expr.splits)

lemma stale_coerce:
  assumes "mj_ok D" and "coerce D v loc st = Some (Inr (s, st1))"
    and "stale C m (istack st)" and "trim_scan C = None"
  shows "stale C m (istack st1)"
proof (cases "\<exists>str. v = STRING str")
  case True
  with assms(2,3) show ?thesis by (auto simp: coerce_def)
next
  case False
  with assms(2) have "l_manifestJson D loc False [] (st\<lparr>scratch := v\<rparr>) = Some (Inr (s, st1))"
    by (cases v) (simp_all add: coerce_def)
  moreover have "stale C m (istack (st\<lparr>scratch := v\<rparr>))" using assms(3) by simp
  ultimately show ?thesis using assms(1,4) unfolding mj_ok_def by blast
qed

lemma keeps_string_concat:
  assumes mj: "mj_ok D" and sc: "string_concat D f st = Some (Inr st')"
    and top: "top_frame st = Inr f" and k: "kind f = FRAME_STRING_CONCAT"
    and ka: "keeps_above B m (istack st)" and B: "trim_scan B = None"
  shows "keeps B m (istack st')"
proof -
  from ka top obtain xs where s: "stack (istack st) = f # xs @ B"
    and lw: "min (length B) m \<le> low_water (istack st)"
    by (auto simp: keeps_above_def top_frame_def split: list.splits)
  let ?C = "f # xs @ B"
  let ?m = "min (length B) m"
  have C: "trim_scan ?C = None" using k by simp
  have s0: "stale ?C ?m (istack st)" using s lw by (auto simp: stale_def)
  from sc obtain loc fv left op right where
    "(case coerce D (val f) (ast_location left) st of
             None \<Rightarrow> None
           | Some (Inl e) \<Rightarrow> Some (Inl e)
           | Some (Inr (l, st1)) \<Rightarrow>
               (case coerce D (val2 f) (ast_location right) st1 of
                  None \<Rightarrow> None
                | Some (Inl e) \<Rightarrow> Some (Inl e)
                | Some (Inr (r, st2)) \<Rightarrow>
                    Some (Inr (pop_frame (st2\<lparr>scratch := makeString (l @ r)\<rparr>))))) = Some (Inr st')"
    unfolding string_concat_def case_ast_Binary_opt by blast
  then have "\<exists>l r st1 st2 loc1 loc2.
    coerce D (val f) loc1 st = Some (Inr (l, st1)) \<and>
    coerce D (val2 f) loc2 st1 = Some (Inr (r, st2)) \<and>
    st' = pop_frame (st2\<lparr>scratch := makeString (l @ r)\<rparr>)"
    by (simp split: option.splits sum.splits prod.splits) blast
  then obtain l r st1 st2 loc1 loc2 where
    c1: "coerce D (val f) loc1 st = Some (Inr (l, st1))" and
    c2: "coerce D (val2 f) loc2 st1 = Some (Inr (r, st2))" and
    st': "st' = pop_frame (st2\<lparr>scratch := makeString (l @ r)\<rparr>)"
    by blast
  from stale_coerce[OF mj c1 s0 C] have "stale ?C ?m (istack st1)" .
  from stale_coerce[OF mj c2 this C] obtain ys where
    ys: "stack (istack st2) = ys @ ?C" and l2: "min (length ?C) ?m \<le> low_water (istack st2)"
    by (auto simp: stale_def)
  have "stack (istack st') = tl (ys @ [f]) @ xs @ B"
    using ys st' by (cases ys) (simp_all add: pop_def)
  moreover have "min (length B) m \<le> low_water (istack st')"
    using ys st' l2 by (cases ys) (simp_all add: pop_def)
  ultimately show ?thesis by (auto simp: keeps_def)
qed

lemma ev_ok_body:
  assumes ev: "ev_ok D" and mj: "mj_ok D"
  shows "ev_ok \<lparr>l_evaluate = evaluate_body X D, l_manifestJson = M\<rparr>"
  unfolding ev_ok_def
proof (intro allI impI)
  fix c st st' B m
  assume a: "l_evaluate \<lparr>l_evaluate = evaluate_body X D, l_manifestJson = M\<rparr> c (length B) st
             = Some (Inr st')"
    and k: "keeps B m (istack st)" and B: "trim_scan B = None"
  from a have b: "evaluate_body X D c (length B) st = Some (Inr st')" by simp
  note evD = ev[unfolded ev_ok_def, rule_format, OF _ _ B]
  show "stack (istack st') = B \<and> min (length B) m \<le> low_water (istack st')"
  proof (cases c)
    case (Recurse ast0)
    with b obtain c1 st1 where s: "ast_step X ast0 st = Inr (c1, st1)"
      and e: "l_evaluate D c1 (length B) st1 = Some (Inr st')"
      by (auto simp: evaluate_body_def split: sum.splits)
    from keeps_ast_step[OF s k B] have "keeps B m (istack st1)" .
    with e show ?thesis by (rule evD)
  next
    case Unwind
    show ?thesis
    proof (cases "stack_size (istack st) > length B")
      case False
      with b Unwind have "st' = st" by (simp add: evaluate_body_def)
      moreover from k False have "stack (istack st) = B"
        by (auto simp: keeps_def stack_size_def)
      ultimately show ?thesis using k by (simp add: keeps_def)
    next
      case True
      with k have ka: "keeps_above B m (istack st)"
        by (auto simp: keeps_def keeps_above_def stack_size_def neq_Nil_conv)
      from b Unwind True obtain f where top: "top_frame st = Inr f"
        by (auto simp: evaluate_body_def split: sum.splits)
      show ?thesis
      proof (cases "kind f = FRAME_STRING_CONCAT")
        case True
        with b Unwind \<open>stack_size (istack st) > length B\<close> top obtain st1 where
          sc: "string_concat D f st = Some (Inr st1)"
          and e: "l_evaluate D Unwind (length B) st1 = Some (Inr st')"
          by (auto simp: evaluate_body_def split: sum.splits option.splits)
        from keeps_string_concat[OF mj sc top True ka B] have "keeps B m (istack st1)" .
        with e show ?thesis by (rule evD)
      next
        case False
        with b Unwind \<open>stack_size (istack st) > length B\<close> top obtain c1 st1 where
          fs: "frame_step X (length B) st = Inr (c1, st1)"
          and e: "l_evaluate D c1 (length B) st1 = Some (Inr st')"
          by (auto simp: evaluate_body_def split: sum.splits option.splits)
        from keeps_frame_step[OF fs ka B] have "keeps B m (istack st1)" .
        with e show ?thesis by (rule evD)
      qed
    qed
  qed
qed

lemma level_ok: "ev_ok (level X n) \<and> mj_ok (level X n)"
proof (induction n)
  case 0
  show ?case by (simp add: ev_ok_def mj_ok_def)
next
  case (Suc n)
  then show ?case by (simp add: ev_ok_body mj_ok_body)
qed




lemma thunk_contents_map:
  "\<forall>r\<in>set rs. r < length (heap st) \<Longrightarrow>
   thunk_contents rs st = Inr (map (\<lambda>r. content (heap st ! r)) rs)"
  by (induction rs) (simp_all add: deref_def)



end
